(* ===== verification/Prelude.thy ===== *)
theory Prelude
  imports Main "HOL-Library.Word" "HOL-Library.AList"
begin

text \<open>
  What every component shares: the rule collections of the development, byte
  strings, Go's integer division, and generic lemmas on lists and association
  lists (which stand for Go's maps: \<open>AList.update\<close> is \<open>m[k] = v\<close>,
  \<open>AList.delete\<close> is \<open>delete(m, k)\<close>, \<open>map_of\<close> is the lookup, and the
  order of the list is one order in which Go may range over the map).
\<close>

section \<open>Rule collections\<close>

named_theorems wire_simps \<open>lengths and shapes of encoded bytes\<close>
named_theorems codec_simps \<open>decoding what was encoded\<close>
named_theorems step_defs \<open>the definitions of a component's handlers\<close>

section \<open>Types\<close>

type_synonym byte = "8 word"
type_synonym bytes = "8 word list"
type_synonym u16 = "16 word"
type_synonym u32 = "32 word"

text \<open>A Go string is its bytes; a text literal of the model is a \<open>string\<close>.\<close>

definition bytes_of :: "string \<Rightarrow> bytes" where
  "bytes_of s = map (\<lambda>c. word_of_nat (of_char c)) s"

definition string_of :: "bytes \<Rightarrow> string" where
  "string_of b = map (\<lambda>x. char_of (unat x)) b"

lemma string_of_Nil [simp]: "string_of [] = []"
  by (simp add: string_of_def)

lemma string_of_Cons [simp]: "string_of (x # b) = char_of (unat x) # string_of b"
  by (simp add: string_of_def)

lemma string_of_append [simp]: "string_of (a @ b) = string_of a @ string_of b"
  by (simp add: string_of_def)

lemma bytes_of_simps [simp]:
  "bytes_of [] = []"
  "bytes_of (c # s) = word_of_nat (of_char c) # bytes_of s"
  "bytes_of (s @ t) = bytes_of s @ bytes_of t"
  by (simp_all add: bytes_of_def)

lemma length_bytes_of [simp, wire_simps]: "length (bytes_of s) = length s"
  by (simp add: bytes_of_def)

lemma of_char_less_256: "(of_char c :: nat) < 256"
  by (metis mod_less_divisor of_char_mod_256 zero_less_numeral)

lemma unat_of_char [simp]: "unat (word_of_nat (of_char c) :: byte) = of_char c"
  using of_char_less_256 [of c] by (simp add: unat_of_nat take_bit_nat_eq_self_iff)

lemma string_of_bytes_of [simp, codec_simps]: "string_of (bytes_of s) = s"
  by (induction s) simp_all

end
