(* ===== verification/GoBytes.thy ===== *)
theory GoBytes
  imports Prelude
begin

unbundle bit_operations_syntax

text \<open>
  Fixed-width integers on the wire, as \<open>encoding/binary\<close> writes and reads
  them, and the interface every wire format of the kiosk has: an encoder whose
  output its decoder takes back, leaving what follows. A reader over a byte
  slice (\<open>bytes.Reader\<close>) is the list of bytes not read yet.
\<close>

section \<open>Little- and big-endian integers\<close>

definition le16 :: "u16 \<Rightarrow> bytes" where
  "le16 v = [ucast v, ucast (drop_bit 8 v)]"

definition le32 :: "u32 \<Rightarrow> bytes" where
  "le32 v = [ucast v, ucast (drop_bit 8 v), ucast (drop_bit 16 v), ucast (drop_bit 24 v)]"

definition be16 :: "u16 \<Rightarrow> bytes" where
  "be16 v = [ucast (drop_bit 8 v), ucast v]"

definition be32 :: "u32 \<Rightarrow> bytes" where
  "be32 v = [ucast (drop_bit 24 v), ucast (drop_bit 16 v), ucast (drop_bit 8 v), ucast v]"

definition join16 :: "byte \<Rightarrow> byte \<Rightarrow> u16" where
  "join16 lo hi = ucast lo OR push_bit 8 (ucast hi)"

definition join32 :: "byte \<Rightarrow> byte \<Rightarrow> byte \<Rightarrow> byte \<Rightarrow> u32" where
  "join32 b0 b1 b2 b3 =
     ucast b0 OR push_bit 8 (ucast b1) OR push_bit 16 (ucast b2) OR push_bit 24 (ucast b3)"

lemma join16_split [simp, codec_simps]: "join16 (ucast v) (ucast (drop_bit 8 v)) = v"
  unfolding join16_def
  by (rule bit_word_eqI) (auto simp: bit_simps)

lemma join32_split [simp, codec_simps]:
  "join32 (ucast v) (ucast (drop_bit 8 v)) (ucast (drop_bit 16 v)) (ucast (drop_bit 24 v)) = v"
proof (rule bit_word_eqI)
  fix n :: nat
  consider "n < 8" | "8 \<le> n" "n < 16" | "16 \<le> n" "n < 24" | "24 \<le> n" by linarith
  then show "n < LENGTH(32) \<Longrightarrow>
      bit (join32 (ucast v) (ucast (drop_bit 8 v)) (ucast (drop_bit 16 v)) (ucast (drop_bit 24 v))) n
        = bit v n"
    by cases (auto simp: join32_def bit_simps)
qed

lemma length_ints [simp, wire_simps]:
  "length (le16 v) = 2" "length (le32 w) = 4" "length (be16 v) = 2" "length (be32 w) = 4"
  by (simp_all add: le16_def le32_def be16_def be32_def)

section \<open>Readers\<close>

text \<open>Each reads one value and returns the rest, or \<open>None\<close> where
  \<open>binary.Read\<close> or \<open>ReadByte\<close> returns an error: too few bytes left.\<close>

fun rd_u8 :: "bytes \<Rightarrow> (byte \<times> bytes) option" where
  "rd_u8 (b # r) = Some (b, r)"
| "rd_u8 [] = None"

fun rd_le16 :: "bytes \<Rightarrow> (u16 \<times> bytes) option" where
  "rd_le16 (a # b # r) = Some (join16 a b, r)"
| "rd_le16 _ = None"

fun rd_le32 :: "bytes \<Rightarrow> (u32 \<times> bytes) option" where
  "rd_le32 (a # b # c # d # r) = Some (join32 a b c d, r)"
| "rd_le32 _ = None"

fun rd_be16 :: "bytes \<Rightarrow> (u16 \<times> bytes) option" where
  "rd_be16 (a # b # r) = Some (join16 b a, r)"
| "rd_be16 _ = None"

fun rd_be32 :: "bytes \<Rightarrow> (u32 \<times> bytes) option" where
  "rd_be32 (a # b # c # d # r) = Some (join32 d c b a, r)"
| "rd_be32 _ = None"

definition rd_full :: "nat \<Rightarrow> bytes \<Rightarrow> (bytes \<times> bytes) option" where
  \<comment> \<open>\<open>io.ReadFull\<close> into a buffer of \<open>n\<close> bytes\<close>
  "rd_full n r = (if n \<le> length r then Some (take n r, drop n r) else None)"

lemma rd_ints [simp, codec_simps]:
  "rd_le16 (le16 v @ r) = Some (v, r)"
  "rd_le32 (le32 w @ r) = Some (w, r)"
  "rd_be16 (be16 v @ r) = Some (v, r)"
  "rd_be32 (be32 w @ r) = Some (w, r)"
  by (simp_all add: le16_def le32_def be16_def be32_def)

lemma rd_full_append [simp, codec_simps]: "length x = n \<Longrightarrow> rd_full n (x @ r) = Some (x, r)"
  by (auto simp: rd_full_def)

section \<open>The interface of a wire format\<close>

text \<open>\<open>ok\<close> are the values the format can carry.\<close>

fun read_upto :: "(bytes \<Rightarrow> ('a \<times> bytes) option) \<Rightarrow> nat \<Rightarrow> bytes \<Rightarrow> 'a list" where
  \<comment> \<open>\<open>for i := 0; i < n; i++ { x, err := read(r); if err != nil { break } ... }\<close>\<close>
  "read_upto dec 0 r = []"
| "read_upto dec (Suc n) r =
     (case dec r of None \<Rightarrow> [] | Some (x, r') \<Rightarrow> x # read_upto dec n r')"

lemma length_read_upto: "length (read_upto dec n r) \<le> n"
  by (induction dec n r rule: read_upto.induct) (auto split: option.split prod.split)

locale codec =
  fixes enc :: "'a \<Rightarrow> bytes"
    and dec :: "bytes \<Rightarrow> ('a \<times> bytes) option"
    and ok :: "'a \<Rightarrow> bool"
  assumes dec_enc: "ok x \<Longrightarrow> dec (enc x @ r) = Some (x, r)"
begin

lemma enc_inj: "ok x \<Longrightarrow> ok y \<Longrightarrow> enc x @ r = enc y @ s \<Longrightarrow> x = y \<and> r = s"
  by (metis dec_enc option.inject prod.inject)

lemma read_upto_enc:
  "\<forall>x \<in> set xs. ok x \<Longrightarrow> length xs \<le> n \<Longrightarrow> dec r = None \<Longrightarrow>
   read_upto dec n (concat (map enc xs) @ r) = xs"
proof (induction xs arbitrary: n)
  case Nil
  then show ?case by (cases n) auto
next
  case (Cons x xs)
  then obtain m where "n = Suc m" by (cases n) auto
  with Cons show ?case by (simp add: dec_enc)
qed

lemma read_exact_enc:
  "\<forall>x \<in> set xs. ok x \<Longrightarrow> read_upto dec (length xs) (concat (map enc xs) @ r) = xs"
  by (induction xs) (simp_all add: dec_enc)

end

interpretation le16: codec le16 rd_le16 "\<lambda>_. True"
  by unfold_locales simp

interpretation le32: codec le32 rd_le32 "\<lambda>_. True"
  by unfold_locales simp

interpretation be16: codec be16 rd_be16 "\<lambda>_. True"
  by unfold_locales simp

interpretation be32: codec be32 rd_be32 "\<lambda>_. True"
  by unfold_locales simp

end
