(* ===== verification/GoStrings.thy ===== *)
theory GoStrings
  imports Prelude "HOL-Library.List_Lexorder" "HOL-Library.Char_ord"
begin

text \<open>
  The parts of Go's \<open>strings\<close>, \<open>strconv\<close>, \<open>bufio\<close> and
  \<open>sort\<close> packages the kiosk's text formats use. A Go string is a list of
  bytes, so strings compare byte by byte, which is the lexicographic order of
  \<open>List_Lexorder\<close> over \<open>Char_ord\<close>. White space is ASCII white
  space: the files read are ASCII where the code splits on it.
\<close>

section \<open>Characters\<close>

abbreviation newline :: char where "newline \<equiv> CHR 0x0A"
abbreviation creturn :: char where "creturn \<equiv> CHR 0x0D"
abbreviation tabchar :: char where "tabchar \<equiv> CHR 0x09"

definition is_space :: "char \<Rightarrow> bool" where
  "is_space c \<longleftrightarrow>
     c = CHR '' '' \<or> c = CHR 0x09 \<or> c = CHR 0x0A \<or> c = CHR 0x0B \<or> c = CHR 0x0C \<or> c = CHR 0x0D"

definition is_digit :: "char \<Rightarrow> bool" where
  "is_digit c \<longleftrightarrow> CHR ''0'' \<le> c \<and> c \<le> CHR ''9''"

definition is_lower :: "char \<Rightarrow> bool" where
  "is_lower c \<longleftrightarrow> CHR ''a'' \<le> c \<and> c \<le> CHR ''z''"

definition is_upper :: "char \<Rightarrow> bool" where
  "is_upper c \<longleftrightarrow> CHR ''A'' \<le> c \<and> c \<le> CHR ''Z''"

definition lower_char :: "char \<Rightarrow> char" where
  "lower_char c = (if is_upper c then char_of (of_char c + (32::nat)) else c)"

definition to_lower :: "string \<Rightarrow> string" where
  "to_lower s = map lower_char s"

lemma char_le_iff: "c \<le> d \<longleftrightarrow> (of_char c :: nat) \<le> of_char d" for c d :: char
  by (simp add: less_eq_char_def)

lemma is_digit_iff: "is_digit c \<longleftrightarrow> 48 \<le> (of_char c :: nat) \<and> of_char c \<le> (57 :: nat)"
  by (simp add: is_digit_def char_le_iff)

definition is_hex :: "char \<Rightarrow> bool" where
  "is_hex c \<longleftrightarrow> is_digit c \<or> (CHR ''a'' \<le> c \<and> c \<le> CHR ''f'') \<or> (CHR ''A'' \<le> c \<and> c \<le> CHR ''F'')"

definition hex_val :: "char \<Rightarrow> nat" where
  "hex_val c = (if is_digit c then of_char c - 48
     else if CHR ''a'' \<le> c then of_char c - 87 else of_char c - 55)"

section \<open>Prefixes and cuts\<close>

definition has_prefix :: "string \<Rightarrow> string \<Rightarrow> bool" where
  \<comment> \<open>\<open>strings.HasPrefix(s, p)\<close>\<close>
  "has_prefix s p \<longleftrightarrow> take (length p) s = p"

definition has_suffix :: "string \<Rightarrow> string \<Rightarrow> bool" where
  "has_suffix s p \<longleftrightarrow> length p \<le> length s \<and> drop (length s - length p) s = p"

definition trim_prefix :: "string \<Rightarrow> string \<Rightarrow> string" where
  "trim_prefix s p = (if has_prefix s p then drop (length p) s else s)"

definition cut_prefix :: "string \<Rightarrow> string \<Rightarrow> string option" where
  \<comment> \<open>\<open>strings.CutPrefix\<close>: what follows the prefix, if it is there\<close>
  "cut_prefix s p = (if has_prefix s p then Some (drop (length p) s) else None)"

definition cut_at :: "char \<Rightarrow> string \<Rightarrow> (string \<times> string) option" where
  \<comment> \<open>\<open>strings.Cut\<close> with a one-byte separator: \<open>None\<close> where it is not found\<close>
  "cut_at c s = (if c \<in> set s
     then Some (takeWhile (\<lambda>x. x \<noteq> c) s, tl (dropWhile (\<lambda>x. x \<noteq> c) s)) else None)"

fun contains :: "string \<Rightarrow> string \<Rightarrow> bool" where
  \<comment> \<open>\<open>strings.Contains(s, sub)\<close>\<close>
  "contains [] sub = (sub = [])"
| "contains (c # s) sub = (has_prefix (c # s) sub \<or> contains s sub)"

lemma has_prefix_append [simp]: "has_prefix (p @ s) p"
  by (simp add: has_prefix_def)

lemma has_prefix_iff: "has_prefix s p \<longleftrightarrow> (\<exists>t. s = p @ t)"
  unfolding has_prefix_def by (metis append_eq_conv_conj append_take_drop_id)

lemma has_prefix_Nil [simp]: "has_prefix s []"
  by (simp add: has_prefix_def)

lemma has_prefix_Cons [simp]: "has_prefix (c # s) (d # p) \<longleftrightarrow> c = d \<and> has_prefix s p"
  by (auto simp: has_prefix_def)

lemma has_prefix_Nil_Cons [simp]: "\<not> has_prefix [] (d # p)"
  by (simp add: has_prefix_def)

lemma trim_prefix_append [simp]: "trim_prefix (p @ s) p = s"
  by (simp add: trim_prefix_def)

lemma cut_prefix_append [simp]: "cut_prefix (p @ s) p = Some s"
  by (simp add: cut_prefix_def)

lemma cut_at_append [simp]: "c \<notin> set k \<Longrightarrow> cut_at c (k @ c # v) = Some (k, v)"
  by (auto simp: cut_at_def takeWhile_append dropWhile_append)

lemma cut_at_None: "c \<notin> set s \<Longrightarrow> cut_at c s = None"
  by (simp add: cut_at_def)

lemma cut_at_SomeD:
  assumes "cut_at c s = Some (a, b)"
  shows "s = a @ c # b \<and> c \<notin> set a"
proof -
  from assms have c: "c \<in> set s" and a: "a = takeWhile (\<lambda>x. x \<noteq> c) s"
    and b: "b = tl (dropWhile (\<lambda>x. x \<noteq> c) s)"
    by (auto simp: cut_at_def split: if_splits)
  from c obtain u v where s: "s = u @ c # v" "c \<notin> set u"
    by (meson split_list_first)
  then have "takeWhile (\<lambda>x. x \<noteq> c) s = u" "dropWhile (\<lambda>x. x \<noteq> c) s = c # v"
    by (auto simp: takeWhile_append dropWhile_append)
  with a b s show ?thesis by simp
qed

section \<open>Splitting and joining\<close>

fun split_on :: "char \<Rightarrow> string \<Rightarrow> string list" where
  \<comment> \<open>\<open>strings.Split\<close> with a one-byte separator\<close>
  "split_on c [] = [[]]"
| "split_on c (x # s) =
     (if x = c then [] # split_on c s
      else (case split_on c s of [] \<Rightarrow> [[x]] | w # ws \<Rightarrow> (x # w) # ws))"

fun join_with :: "string \<Rightarrow> string list \<Rightarrow> string" where
  \<comment> \<open>\<open>strings.Join\<close>\<close>
  "join_with sep [] = []"
| "join_with sep [w] = w"
| "join_with sep (w # ws) = w @ sep @ join_with sep ws"

lemma split_on_nonempty [simp]: "split_on c s \<noteq> []"
  by (induction s) (auto split: list.split)

lemma split_on_no_sep: "c \<notin> set w \<Longrightarrow> split_on c w = [w]"
  by (induction w) auto

lemma split_on_append [simp]:
  "c \<notin> set w \<Longrightarrow> split_on c (w @ c # s) = w # split_on c s"
  by (induction w) auto

lemma split_on_pieces: "w \<in> set (split_on c s) \<Longrightarrow> c \<notin> set w"
  by (induction s arbitrary: w) (auto split: if_splits list.splits)

lemma join_split: "join_with [c] (split_on c s) = s"
proof (induction s)
  case (Cons x s)
  obtain w ws where "split_on c s = w # ws"
    by (cases "split_on c s") auto
  with Cons show ?case by (cases ws) auto
qed simp

lemma split_join: "ws \<noteq> [] \<Longrightarrow> \<forall>w \<in> set ws. c \<notin> set w \<Longrightarrow> split_on c (join_with [c] ws) = ws"
  by (induction "[c]" ws rule: join_with.induct) (auto simp: split_on_no_sep)

definition scan_lines :: "string \<Rightarrow> string list" where
  \<comment> \<open>\<open>bufio.Scanner\<close> over lines: a final newline ends the last line, and a
    carriage return before a newline (or at the end) is dropped\<close>
  "scan_lines s = map (\<lambda>l. if l \<noteq> [] \<and> last l = creturn then butlast l else l)
     (let ls = split_on newline s in if last ls = [] then butlast ls else ls)"

definition str_fields :: "string \<Rightarrow> string list" where
  \<comment> \<open>\<open>strings.Fields\<close>: the words between runs of white space\<close>
  "str_fields s = filter (\<lambda>w. w \<noteq> []) (split_on CHR '' '' (map (\<lambda>c. if is_space c then CHR '' '' else c) s))"

definition trim_left :: "(char \<Rightarrow> bool) \<Rightarrow> string \<Rightarrow> string" where
  "trim_left p s = dropWhile p s"

definition trim_right :: "(char \<Rightarrow> bool) \<Rightarrow> string \<Rightarrow> string" where
  "trim_right p s = rev (dropWhile p (rev s))"

definition trim_space :: "string \<Rightarrow> string" where
  "trim_space s = trim_right is_space (trim_left is_space s)"

lemma trim_left_keep [simp]: "s \<noteq> [] \<Longrightarrow> \<not> p (hd s) \<Longrightarrow> trim_left p s = s"
  by (cases s) (auto simp: trim_left_def)

lemma trim_right_keep [simp]: "s \<noteq> [] \<Longrightarrow> \<not> p (last s) \<Longrightarrow> trim_right p s = s"
  by (cases s rule: rev_cases) (auto simp: trim_right_def)

lemma trim_right_append_all [simp]: "\<forall>c \<in> set t. p c \<Longrightarrow> trim_right p (s @ t) = trim_right p s"
  by (induction t arbitrary: s rule: rev_induct) (auto simp: trim_right_def)

lemma trim_space_word: "\<forall>c \<in> set s. \<not> is_space c \<Longrightarrow> trim_space s = s"
  by (cases "s = []") (simp_all add: trim_space_def, simp add: trim_left_def trim_right_def)

lemma trim_space_newline [simp]: "\<forall>c \<in> set s. \<not> is_space c \<Longrightarrow> trim_space (s @ [newline]) = s"
  using trim_space_word [of s]
  by (cases s) (auto simp: trim_space_def trim_left_def trim_right_def is_space_def)

lemma str_fields_words:
  assumes "\<forall>w \<in> set ws. w \<noteq> [] \<and> (\<forall>c \<in> set w. \<not> is_space c)"
  shows "str_fields (join_with '' '' ws) = ws"
proof (cases "ws = []")
  case False
  have map_id: "map (\<lambda>c. if is_space c then CHR '' '' else c) (join_with '' '' ws) = join_with '' '' ws"
    using assms by (induction "'' ''" ws rule: join_with.induct) (auto simp: is_space_def map_idI)
  have "\<forall>w \<in> set ws. CHR '' '' \<notin> set w"
    using assms by (auto simp: is_space_def)
  with False have "split_on CHR '' '' (join_with '' '' ws) = ws"
    by (intro split_join) auto
  with map_id assms show ?thesis
    by (simp add: str_fields_def)
qed (simp add: str_fields_def)

lemma str_fields_space [simp]: "is_space c \<Longrightarrow> str_fields (c # s) = str_fields s"
  by (simp add: str_fields_def)

lemma str_fields_Nil [simp]: "str_fields [] = []"
  by (simp add: str_fields_def)

lemma str_fields_word:
  assumes "\<forall>c \<in> set w. \<not> is_space c" "w \<noteq> []"
  shows "str_fields w = [w]" "is_space c \<Longrightarrow> str_fields (w @ c # s) = w # str_fields s"
proof -
  have m: "map (\<lambda>c. if is_space c then CHR '' '' else c) w = w"
    using assms(1) by (simp add: map_idI)
  have "CHR '' '' \<notin> set w"
    using assms(1) by (auto simp: is_space_def)
  then show "str_fields w = [w]" "is_space c \<Longrightarrow> str_fields (w @ c # s) = w # str_fields s"
    using assms(2) m by (simp_all add: str_fields_def split_on_no_sep)
qed

section \<open>Numbers\<close>

definition digit_char :: "nat \<Rightarrow> char" where
  "digit_char d = char_of (48 + d)"

fun itoa_nat :: "nat \<Rightarrow> string" where
  "itoa_nat n = (if n < 10 then [digit_char n] else itoa_nat (n div 10) @ [digit_char (n mod 10)])"

declare itoa_nat.simps [simp del]

definition itoa :: "int \<Rightarrow> string" where
  "itoa i = (if i < 0 then ''-'' @ itoa_nat (nat (- i)) else itoa_nat (nat i))"

definition hex_char :: "nat \<Rightarrow> char" where
  "hex_char d = (if d < 10 then char_of (48 + d) else char_of (87 + d))"

fun itoa_hex :: "nat \<Rightarrow> string" where
  "itoa_hex n = (if n < 16 then [hex_char n] else itoa_hex (n div 16) @ [hex_char (n mod 16)])"

declare itoa_hex.simps [simp del]

definition digits_val :: "string \<Rightarrow> nat" where
  "digits_val s = foldl (\<lambda>a c. a * 10 + (of_char c - 48)) 0 s"

definition all_digits :: "string \<Rightarrow> bool" where
  "all_digits s \<longleftrightarrow> s \<noteq> [] \<and> list_all is_digit s"

definition max_int :: int where "max_int = 2 ^ 63 - 1"
definition min_int :: int where "min_int = - (2 ^ 63)"

definition strip_sign :: "string \<Rightarrow> bool \<times> string" where
  "strip_sign s = (case s of c # r \<Rightarrow>
       if c = CHR ''-'' then (True, r) else if c = CHR ''+'' then (False, r) else (False, s)
     | [] \<Rightarrow> (False, []))"

definition atoi :: "string \<Rightarrow> int option" where
  \<comment> \<open>\<open>strconv.Atoi\<close>: \<open>None\<close> for its error\<close>
  "atoi s = (case strip_sign s of (neg, r) \<Rightarrow>
     if \<not> all_digits r then None
     else let v = (if neg then - int (digits_val r) else int (digits_val r))
          in if min_int \<le> v \<and> v \<le> max_int then Some v else None)"

definition atoi_or :: "string \<Rightarrow> int" where
  \<comment> \<open>\<open>n, _ := strconv.Atoi(s)\<close>: 0 for what is no number, the nearest end of
    the range for what is out of it\<close>
  "atoi_or s = (case strip_sign s of (neg, r) \<Rightarrow>
     if \<not> all_digits r then 0
     else max min_int (min max_int (if neg then - int (digits_val r) else int (digits_val r))))"

definition parse_uint :: "nat \<Rightarrow> nat \<Rightarrow> string \<Rightarrow> nat option" where
  \<comment> \<open>\<open>strconv.ParseUint\<close> in base 10 or 16 with a bit size; \<open>None\<close> for
    its errors\<close>
  "parse_uint base bits s =
     (if s = [] \<or> \<not> list_all (if base = 16 then is_hex else is_digit) s then None
      else let v = foldl (\<lambda>a c. a * base + hex_val c) 0 s
           in if v < 2 ^ bits then Some v else None)"

definition parse_uint_or :: "nat \<Rightarrow> nat \<Rightarrow> string \<Rightarrow> nat" where
  \<comment> \<open>\<open>v, _ := strconv.ParseUint(s, base, bits)\<close>: 0 for what is no number, the
    largest value for what is out of range\<close>
  "parse_uint_or base bits s =
     (if s = [] \<or> \<not> list_all (if base = 16 then is_hex else is_digit) s then 0
      else min (2 ^ bits - 1) (foldl (\<lambda>a c. a * base + hex_val c) 0 s))"

lemma of_char_digit [simp]: "d < 10 \<Longrightarrow> of_char (digit_char d) = 48 + d"
  by (simp add: digit_char_def)

lemma is_digit_digit [simp]: "d < 10 \<Longrightarrow> is_digit (digit_char d)"
  by (simp add: is_digit_iff)

lemma digits_val_snoc [simp]: "digits_val (s @ [c]) = digits_val s * 10 + (of_char c - 48)"
  by (simp add: digits_val_def)

lemma itoa_nat_digits: "all_digits (itoa_nat n)"
proof (induction n rule: itoa_nat.induct)
  case (1 n)
  then show ?case
    by (subst itoa_nat.simps) (auto simp: all_digits_def)
qed

lemma digits_val_itoa [simp]: "digits_val (itoa_nat n) = n"
proof (induction n rule: itoa_nat.induct)
  case (1 n)
  show ?case
  proof (cases "n < 10")
    case True
    then show ?thesis by (subst itoa_nat.simps) (simp add: digits_val_def)
  next
    case False
    with 1 show ?thesis by (subst itoa_nat.simps) simp
  qed
qed

lemma strip_sign_digits: "all_digits s \<Longrightarrow> strip_sign s = (False, s)"
  by (cases s) (auto simp: all_digits_def strip_sign_def is_digit_iff)

lemma itoa_nonneg: "0 \<le> i \<Longrightarrow> itoa i = itoa_nat (nat i)"
  by (simp add: itoa_def)

lemma atoi_itoa: "0 \<le> i \<Longrightarrow> i \<le> max_int \<Longrightarrow> atoi (itoa i) = Some i"
  by (simp add: itoa_nonneg atoi_def strip_sign_digits [OF itoa_nat_digits] itoa_nat_digits
      max_int_def min_int_def)

lemma atoi_or_itoa: "0 \<le> i \<Longrightarrow> i \<le> max_int \<Longrightarrow> atoi_or (itoa i) = i"
  by (simp add: itoa_nonneg atoi_or_def strip_sign_digits [OF itoa_nat_digits] itoa_nat_digits
      max_int_def min_int_def)

lemma itoa_no_space: "0 \<le> i \<Longrightarrow> c \<in> set (itoa i) \<Longrightarrow> is_digit c"
  using itoa_nat_digits by (auto simp: itoa_nonneg all_digits_def list_all_iff)

section \<open>Go's integer division\<close>

definition go_div :: "int \<Rightarrow> int \<Rightarrow> int" where
  \<comment> \<open>rounds towards zero; callers divide by non-zero constants or guarded values\<close>
  "go_div a b = sgn a * sgn b * (\<bar>a\<bar> div \<bar>b\<bar>)"

lemma go_div_nonneg [simp]: "0 \<le> a \<Longrightarrow> 0 < b \<Longrightarrow> go_div a b = a div b"
  by (cases "a = 0") (simp_all add: go_div_def)

end
