(* ===== verification/AudioFormat.thy ===== *)
theory AudioFormat
  imports GoBytes GoStrings
begin

text \<open>
  \<open>internal/audio/format.go\<close>: the \<open>WAVEFORMATEX\<close> structure both sound
  channels exchange, its encoder and decoder, and which formats the kiosk
  plays. \<open>read_format\<close> and \<open>write_format\<close> are a \<open>codec\<close>, so the
  lists of formats of the two channels decode by the codec's lemmas.
\<close>

record format =
  Tag :: u16
  Channels :: u16
  SamplesPerSec :: u32
  AvgBytesPerSec :: u32
  BlockAlign :: u16
  BitsPerSample :: u16
  Extra :: bytes

definition FormatPCM :: u16 where "FormatPCM = 1"

definition playable :: "format \<Rightarrow> bool" where
  "playable f \<longleftrightarrow>
     Tag f = FormatPCM \<and>
     (BitsPerSample f = 16 \<or> BitsPerSample f = 8) \<and>
     (Channels f = 1 \<or> Channels f = 2) \<and>
     8000 \<le> SamplesPerSec f \<and> SamplesPerSec f \<le> 192000"

definition bytes_per_second :: "format \<Rightarrow> int" where
  "bytes_per_second f =
     go_div (uint (SamplesPerSec f) * uint (Channels f) * uint (BitsPerSample f)) 8"

definition zero_format :: format where
  \<comment> \<open>Go's zero value of the struct\<close>
  "zero_format = \<lparr>Tag = 0, Channels = 0, SamplesPerSec = 0, AvgBytesPerSec = 0,
     BlockAlign = 0, BitsPerSample = 0, Extra = []\<rparr>"

definition read_format :: "bytes \<Rightarrow> (format \<times> bytes) option" where
  "read_format r0 =
     (case rd_le16 r0 of None \<Rightarrow> None | Some (tag, r1) \<Rightarrow>
     (case rd_le16 r1 of None \<Rightarrow> None | Some (ch, r2) \<Rightarrow>
     (case rd_le32 r2 of None \<Rightarrow> None | Some (rate, r3) \<Rightarrow>
     (case rd_le32 r3 of None \<Rightarrow> None | Some (avg, r4) \<Rightarrow>
     (case rd_le16 r4 of None \<Rightarrow> None | Some (align, r5) \<Rightarrow>
     (case rd_le16 r5 of None \<Rightarrow> None | Some (bits, r6) \<Rightarrow>
     (case rd_le16 r6 of None \<Rightarrow> None | Some (cb, r7) \<Rightarrow>
       let f = \<lparr>Tag = tag, Channels = ch, SamplesPerSec = rate, AvgBytesPerSec = avg,
                BlockAlign = align, BitsPerSample = bits, Extra = []\<rparr>
       in if 0 < cb
          then (case rd_full (unat cb) r7 of None \<Rightarrow> None
                | Some (x, r8) \<Rightarrow> Some (f\<lparr>Extra := x\<rparr>, r8))
          else Some (f, r7))))))))"

definition write_format :: "format \<Rightarrow> bytes" where
  "write_format f =
     le16 (Tag f) @ le16 (Channels f) @ le32 (SamplesPerSec f) @ le32 (AvgBytesPerSec f) @
     le16 (BlockAlign f) @ le16 (BitsPerSample f) @ le16 (word_of_nat (length (Extra f))) @ Extra f"

definition alsa_format :: "format \<Rightarrow> string" where
  "alsa_format f = (if BitsPerSample f = 8 then ''U8'' else ''S16_LE'')"

definition same_format :: "format \<Rightarrow> format \<Rightarrow> bool" where
  "same_format a b \<longleftrightarrow>
     Tag a = Tag b \<and> Channels a = Channels b \<and>
     SamplesPerSec a = SamplesPerSec b \<and> BitsPerSample a = BitsPerSample b"

definition format_ok :: "format \<Rightarrow> bool" where
  \<comment> \<open>the formats whose extra bytes the 16-bit size field can count\<close>
  "format_ok f \<longleftrightarrow> length (Extra f) < 2 ^ 16"

lemma unat_of_length16: "n < 2 ^ 16 \<Longrightarrow> unat (word_of_nat n :: u16) = n"
  by (simp add: unat_of_nat take_bit_nat_eq_self_iff)

lemma read_write_format [codec_simps]:
  assumes "format_ok f"
  shows "read_format (write_format f @ r) = Some (f, r)"
proof (cases "Extra f = []")
  case True
  then show ?thesis
    by (simp add: read_format_def write_format_def)
next
  case False
  have n: "unat (word_of_nat (length (Extra f)) :: u16) = length (Extra f)"
    using assms by (intro unat_of_length16) (simp add: format_ok_def)
  with False have "0 < (word_of_nat (length (Extra f)) :: u16)"
    by (metis length_0_conv unat_0 unsigned_eq_0_iff word_gt_0)
  with n show ?thesis
    by (simp add: read_format_def write_format_def)
qed

interpretation wf: codec write_format read_format format_ok
  by unfold_locales (rule read_write_format)

lemma read_format_ok: "read_format r = Some (f, r') \<Longrightarrow> format_ok f"
proof -
  have "unat (cb :: u16) < 65536" for cb
    using unsigned_less [of cb] by simp
  then show "read_format r = Some (f, r') \<Longrightarrow> format_ok f"
    by (auto simp: read_format_def format_ok_def rd_full_def Let_def
        split: option.splits prod.splits if_splits)
qed

lemma read_formats_ok: "\<forall>f \<in> set (read_upto read_format n r). format_ok f"
proof (induction n arbitrary: r)
  case (Suc n)
  show ?case
    using Suc.IH by (cases "read_format r") (auto dest: read_format_ok)
qed simp

lemma zero_format_unplayable [simp]: "\<not> playable zero_format"
  by (simp add: playable_def zero_format_def FormatPCM_def)

lemma playable_rate: "playable f \<Longrightarrow> 0 < bytes_per_second f \<and> bytes_per_second f \<le> 768000"
proof -
  assume p: "playable f"
  have "8000 \<le> uint (SamplesPerSec f)" "uint (SamplesPerSec f) \<le> 192000"
    using p by (simp_all add: playable_def word_le_def)
  with p show ?thesis
    by (auto simp: playable_def bytes_per_second_def)
qed

lemma length_write_format [wire_simps]: "length (write_format f) = 18 + length (Extra f)"
  by (simp add: write_format_def)

end
