(* ===== verification/Rdpsnd.thy ===== *)
theory Rdpsnd
  imports AudioFormat "HOL-Library.Multiset"
begin

text \<open>
  \<open>internal/rdpsnd/rdpsnd.go\<close>: the sound output channel. \<open>process\<close> runs
  on the protocol reader, the play loop on its own goroutine between a queue of
  64 blocks; the model steps through both, one atomic piece at a time, and
  records what reaches the outside (PDUs sent, blocks handed to the player) in
  order. Times are nanoseconds of the monotonic clock.
\<close>

section \<open>State\<close>

record block =
  blk_format :: format
  pcm :: bytes
  timestamp :: u16
  blockNo :: byte
  received :: int

datatype snd_effect = Sent bytes | Play format bytes | Stop

record channel_state =
  formats :: "format list"
  pending :: "block option"
  waveLen :: int
  streaming :: bool
  warned :: bool
  queue :: "block list"
  closed :: bool
  loop_started :: bool
  running :: bool             \<comment> \<open>the play loop's goroutine\<close>
  playing :: "block option"   \<comment> \<open>the block it has taken and not confirmed yet\<close>
  has_sender :: bool
  effects :: "snd_effect list"

definition queue_cap :: nat where "queue_cap = 64"

definition sndcClose :: byte where "sndcClose = 0x01"
definition sndcWave :: byte where "sndcWave = 0x02"
definition sndcSetVolume :: byte where "sndcSetVolume = 0x03"
definition sndcWaveConfirm :: byte where "sndcWaveConfirm = 0x05"
definition sndcTraining :: byte where "sndcTraining = 0x06"
definition sndcFormats :: byte where "sndcFormats = 0x07"
definition sndcQualityMode :: byte where "sndcQualityMode = 0x0C"
definition sndcWave2 :: byte where "sndcWave2 = 0x0D"

lemmas pdu_types = sndcClose_def sndcWave_def sndcSetVolume_def sndcWaveConfirm_def
  sndcTraining_def sndcFormats_def sndcQualityMode_def sndcWave2_def

definition tssndcapsAlive :: u32 where "tssndcapsAlive = 1"
definition clientVersion :: u16 where "clientVersion = 6"
definition highQuality :: u16 where "highQuality = 2"

definition new_channel :: channel_state where
  "new_channel = \<lparr>formats = [], pending = None, waveLen = 0, streaming = False, warned = False,
     queue = [], closed = False, loop_started = False, running = False, playing = None,
     has_sender = False, effects = []\<rparr>"

definition set_sender :: "channel_state \<Rightarrow> channel_state" where
  "set_sender c = c\<lparr>has_sender := True\<rparr>"

definition close_channel :: "channel_state \<Rightarrow> channel_state" where
  "close_channel c = c\<lparr>closed := True\<rparr>"

section \<open>Handlers\<close>

definition snd_send :: "byte \<Rightarrow> bytes \<Rightarrow> channel_state \<Rightarrow> channel_state" where
  "snd_send msgType body c =
     (if has_sender c
      then c\<lparr>effects := effects c @ [Sent ([msgType, 0] @ le16 (word_of_nat (length body)) @ body)]\<rparr>
      else c)"

definition snd_confirm :: "int \<Rightarrow> block \<Rightarrow> channel_state \<Rightarrow> channel_state" where
  "snd_confirm now b c =
     (let ts = timestamp b + word_of_int (go_div (now - received b) 1000000)
      in snd_send sndcWaveConfirm (le16 ts @ [blockNo b, 0]) c)"

definition snd_enqueue :: "int \<Rightarrow> block \<Rightarrow> channel_state \<Rightarrow> channel_state" where
  "snd_enqueue now b c =
     (if closed c then c   \<comment> \<open>sending on a closed channel panics, and the panic is recovered\<close>
      else if length (queue c) < queue_cap then c\<lparr>queue := queue c @ [b]\<rparr>
      else snd_confirm now b c)"

definition formats_reply :: "format list \<Rightarrow> bytes" where
  "formats_reply fs =
     le32 tssndcapsAlive @ le32 0xFFFFFFFF @ le32 0 @ le16 0 @ le16 (word_of_nat (length fs)) @
     [0] @ le16 clientVersion @ [0] @ concat (map write_format fs)"

definition on_formats :: "bytes \<Rightarrow> channel_state \<Rightarrow> channel_state" where
  "on_formats body c =
     (if length body < 20 then c
      else let num = unat (join16 (body ! 14) (body ! 15));
               version = join16 (body ! 17) (body ! 18);
               fs = filter playable (read_upto read_format num (drop 20 body));
               c1 = snd_send sndcFormats (formats_reply fs) (c\<lparr>formats := fs\<rparr>);
               c2 = (if 6 \<le> version
                     then snd_send sndcQualityMode (le16 highQuality @ le16 0) c1 else c1)
           in if loop_started c2 then c2 else c2\<lparr>loop_started := True, running := True\<rparr>)"

definition on_training :: "bytes \<Rightarrow> channel_state \<Rightarrow> channel_state" where
  "on_training body c =
     (if length body < 4 then c else snd_send sndcTraining (take 4 body) c)"

definition note_stream :: "nat \<Rightarrow> channel_state \<Rightarrow> bool \<times> channel_state" where
  "note_stream formatNo c =
     (if length (formats c) \<le> formatNo then (False, c\<lparr>warned := True\<rparr>)
      else (True, c\<lparr>streaming := True\<rparr>))"

definition on_wave_info :: "int \<Rightarrow> bytes \<Rightarrow> channel_state \<Rightarrow> channel_state" where
  "on_wave_info now s c =
     (if length s < 16 then c
      else let bodySize = uint (join16 (s ! 2) (s ! 3));
               body = drop 4 s;
               formatNo = unat (join16 (body ! 2) (body ! 3));
               (known, c1) = note_stream formatNo c;
               b = \<lparr>blk_format = (if known then formats c1 ! formatNo else zero_format),
                    pcm = take 4 (drop 8 body), timestamp = join16 (body ! 0) (body ! 1),
                    blockNo = body ! 4, received = now\<rparr>
           in c1\<lparr>pending := Some b, waveLen := bodySize - 12\<rparr>)"

definition finish_wave :: "int \<Rightarrow> bytes \<Rightarrow> block \<Rightarrow> channel_state \<Rightarrow> channel_state" where
  "finish_wave now s b c =
     (let c1 = c\<lparr>pending := None\<rparr>;
          b1 = (if 4 \<le> length s
                then let rest = drop 4 s;
                         rest1 = (if 0 \<le> waveLen c \<and> waveLen c < int (length rest)
                                  then take (nat (waveLen c)) rest else rest)
                     in b\<lparr>pcm := pcm b @ rest1\<rparr>
                else b)
      in snd_enqueue now b1 c1)"

definition on_wave2 :: "int \<Rightarrow> bytes \<Rightarrow> channel_state \<Rightarrow> channel_state" where
  "on_wave2 now body c =
     (if length body < 12 then c
      else let formatNo = unat (join16 (body ! 2) (body ! 3));
               (known, c1) = note_stream formatNo c;
               b = \<lparr>blk_format = (if known then formats c1 ! formatNo else zero_format),
                    pcm = drop 12 body, timestamp = join16 (body ! 0) (body ! 1),
                    blockNo = body ! 4, received = now\<rparr>
           in snd_enqueue now b c1)"

definition process :: "int \<Rightarrow> bytes \<Rightarrow> channel_state \<Rightarrow> channel_state" where
  "process now s c =
     (case pending c of
        Some b \<Rightarrow> finish_wave now s b c
      | None \<Rightarrow>
        if length s < 4 then c
        else let msgType = s ! 0; body = drop 4 s
             in if msgType = sndcFormats then on_formats body c
                else if msgType = sndcTraining then on_training body c
                else if msgType = sndcWave then on_wave_info now s c
                else if msgType = sndcWave2 then on_wave2 now body c
                else if msgType = sndcClose
                     then c\<lparr>streaming := False, effects := effects c @ [Stop]\<rparr>
                else c)"

section \<open>The play loop\<close>

text \<open>\<open>for b := range c.queue\<close>: take a block and play it if its format is one
  that can be played; then confirm it. Once the queue is closed and empty the
  player is stopped. \<open>None\<close>: the goroutine waits.\<close>

definition play_take :: "channel_state \<Rightarrow> channel_state option" where
  "play_take c =
     (if running c \<and> playing c = None
      then (case queue c of
              b # q \<Rightarrow> Some (c\<lparr>queue := q, playing := Some b,
                 effects := effects c @ (if playable (blk_format b) then [Play (blk_format b) (pcm b)] else [])\<rparr>)
            | [] \<Rightarrow> if closed c then Some (c\<lparr>running := False, effects := effects c @ [Stop]\<rparr>) else None)
      else None)"

definition play_done :: "int \<Rightarrow> channel_state \<Rightarrow> channel_state option" where
  "play_done now c =
     (case playing c of Some b \<Rightarrow> Some (snd_confirm now b (c\<lparr>playing := None\<rparr>)) | None \<Rightarrow> None)"

datatype snd_event = Recv bytes | Take | Done | SessionEnd

fun snd_step :: "int \<Rightarrow> snd_event \<Rightarrow> channel_state \<Rightarrow> channel_state option" where
  "snd_step now (Recv s) c = Some (process now s c)"
| "snd_step now Take c = play_take c"
| "snd_step now Done c = play_done now c"
| "snd_step now SessionEnd c = Some (close_channel c)"

fun snd_run :: "channel_state \<Rightarrow> (int \<times> snd_event) list \<Rightarrow> channel_state option" where
  "snd_run c [] = Some c"
| "snd_run c ((now, e) # es) = (case snd_step now e c of None \<Rightarrow> None | Some c' \<Rightarrow> snd_run c' es)"

lemmas [step_defs] = snd_send_def snd_confirm_def snd_enqueue_def on_formats_def on_training_def
  note_stream_def on_wave_info_def finish_wave_def on_wave2_def process_def play_take_def
  play_done_def close_channel_def

section \<open>What the server sees\<close>

text \<open>The block numbers confirmed, in order; the block, if any, that a PDU
  completes; and both over a run.\<close>

fun confirm_of :: "snd_effect \<Rightarrow> byte list" where
  "confirm_of (Sent (t # _ # _ # _ # _ # _ # n # _)) = (if t = sndcWaveConfirm then [n] else [])"
| "confirm_of _ = []"

definition confirmed :: "channel_state \<Rightarrow> byte list" where
  "confirmed c = concat (map confirm_of (effects c))"

definition completes :: "channel_state \<Rightarrow> snd_event \<Rightarrow> byte list" where
  "completes c e = (case e of
      Recv s \<Rightarrow> (case pending c of
          Some b \<Rightarrow> [blockNo b]
        | None \<Rightarrow> if 16 \<le> length s \<and> s ! 0 = sndcWave2 then [s ! 8] else [])
    | _ \<Rightarrow> [])"

fun arrivals :: "channel_state \<Rightarrow> (int \<times> snd_event) list \<Rightarrow> byte list" where
  "arrivals c [] = []"
| "arrivals c ((now, e) # es) =
     completes c e @ (case snd_step now e c of None \<Rightarrow> [] | Some c' \<Rightarrow> arrivals c' es)"

definition held :: "channel_state \<Rightarrow> byte list" where
  \<comment> \<open>the blocks that are still owed a confirmation\<close>
  "held c = (case playing c of None \<Rightarrow> [] | Some b \<Rightarrow> [blockNo b]) @ map blockNo (queue c)"

definition account :: "channel_state \<Rightarrow> byte multiset" where
  "account c = mset (confirmed c) + mset (held c)"

lemma snd_send_frame [simp]:
  "formats (snd_send t b c) = formats c" "pending (snd_send t b c) = pending c"
  "waveLen (snd_send t b c) = waveLen c" "queue (snd_send t b c) = queue c"
  "closed (snd_send t b c) = closed c" "running (snd_send t b c) = running c"
  "playing (snd_send t b c) = playing c" "has_sender (snd_send t b c) = has_sender c"
  "loop_started (snd_send t b c) = loop_started c"
  by (simp_all add: snd_send_def)

lemma held_snd_send [simp]: "held (snd_send t b c) = held c"
  by (simp add: held_def)

lemma confirmed_send_other [simp]:
  "t \<noteq> sndcWaveConfirm \<Longrightarrow> confirmed (snd_send t b c) = confirmed c"
proof -
  assume "t \<noteq> sndcWaveConfirm"
  then have "confirm_of (Sent ([t, 0] @ le16 w @ b)) = []" for w
    by (cases "Sent ([t, 0] @ le16 w @ b)" rule: confirm_of.cases) (auto simp: le16_def)
  then show ?thesis
    by (simp add: snd_send_def confirmed_def)
qed

lemma confirmed_confirm [simp]:
  "has_sender c \<Longrightarrow> confirmed (snd_confirm now b c) = confirmed c @ [blockNo b]"
  by (simp add: snd_confirm_def snd_send_def confirmed_def le16_def Let_def)

lemma snd_confirm_frame [simp]:
  "queue (snd_confirm now b c) = queue c" "playing (snd_confirm now b c) = playing c"
  "has_sender (snd_confirm now b c) = has_sender c" "closed (snd_confirm now b c) = closed c"
  "pending (snd_confirm now b c) = pending c" "formats (snd_confirm now b c) = formats c"
  "running (snd_confirm now b c) = running c"
  by (simp_all add: snd_confirm_def Let_def)

lemma held_snd_confirm [simp]: "held (snd_confirm now b c) = held c"
  by (simp add: held_def)

lemma account_update [simp]:
  "account (c\<lparr>pending := p\<rparr>) = account c" "account (c\<lparr>waveLen := w\<rparr>) = account c"
  "account (c\<lparr>warned := x\<rparr>) = account c" "account (c\<lparr>streaming := x\<rparr>) = account c"
  "account (c\<lparr>formats := fs\<rparr>) = account c" "account (c\<lparr>loop_started := x\<rparr>) = account c"
  "account (c\<lparr>running := x\<rparr>) = account c" "account (c\<lparr>closed := x\<rparr>) = account c"
  by (simp_all add: account_def confirmed_def held_def)

lemma account_send_other [simp]: "t \<noteq> sndcWaveConfirm \<Longrightarrow> account (snd_send t b c) = account c"
  by (simp add: account_def)

lemma account_stop [simp]:
  "account (c\<lparr>effects := effects c @ [Stop]\<rparr>) = account c"
  "account (c\<lparr>streaming := x, effects := effects c @ [Stop]\<rparr>) = account c"
  by (simp_all add: account_def confirmed_def held_def)

lemma account_enqueue:
  "has_sender c \<Longrightarrow> \<not> closed c \<Longrightarrow> account (snd_enqueue now b c) = account c + {#blockNo b#}"
  by (simp add: snd_enqueue_def account_def) (simp add: held_def confirmed_def)

lemma account_formats: "account (on_formats body c) = account c"
  by (simp add: on_formats_def Let_def pdu_types)

lemma enqueue_frame [simp]:
  "has_sender (snd_enqueue now b c) = has_sender c" "closed (snd_enqueue now b c) = closed c"
  "formats (snd_enqueue now b c) = formats c" "pending (snd_enqueue now b c) = pending c"
  "running (snd_enqueue now b c) = running c" "playing (snd_enqueue now b c) = playing c"
  by (simp_all add: snd_enqueue_def)

lemma handler_frame [simp]:
  "has_sender (on_formats body c) = has_sender c" "closed (on_formats body c) = closed c"
  "has_sender (on_training body c) = has_sender c" "closed (on_training body c) = closed c"
  "has_sender (on_wave_info now body c) = has_sender c" "closed (on_wave_info now body c) = closed c"
  "has_sender (on_wave2 now body c) = has_sender c" "closed (on_wave2 now body c) = closed c"
  "has_sender (finish_wave now body b c) = has_sender c" "closed (finish_wave now body b c) = closed c"
  by (simp_all add: on_formats_def on_training_def on_wave_info_def on_wave2_def note_stream_def
      finish_wave_def Let_def split: prod.splits)

lemma process_frame [simp]:
  "has_sender (process now s c) = has_sender c" "closed (process now s c) = closed c"
  by (simp_all add: process_def Let_def split: option.split)

lemma account_process:
  assumes "has_sender c" "\<not> closed c"
  shows "account (process now s c) = account c + mset (completes c (Recv s))"
proof (cases "pending c")
  case (Some b)
  then show ?thesis
    using assms
    by (simp add: process_def completes_def finish_wave_def account_enqueue Let_def)
next
  case None
  then show ?thesis
    using assms
    by (auto simp: process_def completes_def account_formats on_training_def on_wave_info_def
        on_wave2_def note_stream_def account_enqueue Let_def pdu_types split: prod.splits)
qed

lemma account_step:
  assumes "has_sender c" "\<not> closed c" "e \<noteq> SessionEnd" "snd_step now e c = Some c'"
  shows "account c' = account c + mset (completes c e) \<and> has_sender c' \<and> \<not> closed c'"
proof (cases e)
  case (Recv s)
  with assms show ?thesis
    using account_process by auto
next
  case Take
  with assms show ?thesis
    by (auto simp: play_take_def account_def confirmed_def held_def completes_def
        split: if_splits list.splits)
next
  case Done
  with assms show ?thesis
    by (auto simp: play_done_def account_def completes_def split: option.splits)
      (simp add: confirmed_def held_def)
qed (use assms in simp)

lemma account_run:
  assumes "has_sender c" "\<not> closed c" "SessionEnd \<notin> snd ` set es" "snd_run c es = Some c'"
  shows "account c' = account c + mset (arrivals c es)"
  using assms
proof (induction es arbitrary: c)
  case (Cons te es)
  obtain t e where te: "te = (t, e)" by (cases te)
  with Cons.prems obtain d where d: "snd_step t e c = Some d" "snd_run d es = Some c'"
    by (auto split: option.splits)
  from Cons.prems te d have "account d = account c + mset (completes c e) \<and> has_sender d \<and> \<not> closed d"
    by (intro account_step) auto
  moreover from this Cons.prems d have "account c' = account d + mset (arrivals d es)"
    by (intro Cons.IH) auto
  ultimately show ?case using te d by (simp add: ac_simps)
qed simp

text \<open>The play loop by itself: what it takes to empty the queue.\<close>

definition drain :: "int \<Rightarrow> nat \<Rightarrow> (int \<times> snd_event) list" where
  "drain now n = concat (replicate n [(now, Take), (now, Done)])"

lemma drain_run:
  assumes "running c" "playing c = None" "has_sender c"
  shows "\<exists>c'. snd_run c (drain now (length (queue c))) = Some c' \<and> queue c' = [] \<and>
    playing c' = None \<and> running c' \<and> closed c' = closed c \<and>
    confirmed c' = confirmed c @ map blockNo (queue c)"
  using assms
proof (induction "queue c" arbitrary: c)
  case Nil
  then show ?case by (simp add: drain_def)
next
  case (Cons b q)
  define d where "d = c\<lparr>queue := q, playing := Some b,
     effects := effects c @ (if playable (blk_format b) then [Play (blk_format b) (pcm b)] else [])\<rparr>"
  define d' where "d' = snd_confirm now b (d\<lparr>playing := None\<rparr>)"
  have q: "queue c = b # q" using Cons by simp
  have steps: "play_take c = Some d" "play_done now d = Some d'"
    using Cons.prems q by (simp_all add: play_take_def play_done_def d_def d'_def)
  have d': "queue d' = q" "playing d' = None" "running d'" "has_sender d'" "closed d' = closed c"
    "confirmed d' = confirmed c @ [blockNo b]"
    using Cons.prems unfolding d'_def d_def by simp_all (simp add: confirmed_def)
  from Cons.hyps(1) [of d'] d' obtain c' where
    "snd_run d' (drain now (length q)) = Some c'" "queue c' = []" "playing c' = None" "running c'"
    "closed c' = closed d'" "confirmed c' = confirmed d' @ map blockNo q"
    by auto
  with steps d' q show ?case
    by (simp add: drain_def)
qed

section \<open>What the server sends\<close>

text \<open>[MS-RDPEA] as a server writes it: a block in one Wave2 PDU, or as a
  WaveInfo PDU with the first four bytes of the samples and a Wave PDU with the
  rest behind four bytes of padding. \<open>junk\<close> is whatever follows in the PDU.\<close>

definition server_wave_info :: "u16 \<Rightarrow> u16 \<Rightarrow> byte \<Rightarrow> bytes \<Rightarrow> bytes" where
  "server_wave_info ts fmt n samples =
     [sndcWave, 0] @ le16 (word_of_nat (8 + length samples)) @
     le16 ts @ le16 fmt @ [n, 0, 0, 0] @ take 4 samples"

definition server_wave_rest :: "bytes \<Rightarrow> bytes \<Rightarrow> bytes" where
  "server_wave_rest samples junk = [0, 0, 0, 0] @ drop 4 samples @ junk"

definition server_wave2 :: "u16 \<Rightarrow> u16 \<Rightarrow> byte \<Rightarrow> u32 \<Rightarrow> bytes \<Rightarrow> bytes" where
  "server_wave2 ts fmt n audio_ts samples =
     [sndcWave2, 0] @ le16 (word_of_nat (12 + length samples)) @
     le16 ts @ le16 fmt @ [n, 0, 0, 0] @ le32 audio_ts @ samples"

definition server_formats :: "u16 \<Rightarrow> byte \<Rightarrow> format list \<Rightarrow> bytes" where
  "server_formats version lastBlock fs =
     [sndcFormats, 0] @ le16 (word_of_nat (20 + length (concat (map write_format fs)))) @
     le32 0 @ le32 0 @ le32 0 @ le16 0 @ le16 (word_of_nat (length fs)) @ [lastBlock] @
     le16 version @ [0] @ concat (map write_format fs)"

lemma nth_le16 [simp]: "le16 v = [ucast v, ucast (drop_bit 8 v)]"
  by (simp add: le16_def)

lemma unat_len16: "n < 65536 \<Longrightarrow> unat (word_of_nat n :: u16) = n"
  using unat_of_length16 [of n] by simp

lemma uint_len16: "n < 65536 \<Longrightarrow> uint (word_of_nat n :: u16) = int n"
  using unat_len16 [of n] by (metis of_nat_unat)

lemma list4:
  assumes "4 \<le> length xs"
  obtains a b c d r where "xs = a # b # c # d # r"
  using assms by (cases xs rule: remdups_adj.cases) (auto simp: Suc_le_length_iff numeral_eq_Suc)

lemma wave_info_pending:
  assumes "pending c = None" "4 \<le> length samples" "8 + length samples < 65536"
    "unat fmt < length (formats c)"
  shows "process t1 (server_wave_info ts fmt n samples) c =
    c\<lparr>streaming := True, waveLen := int (length samples) - 4, pending := Some
      \<lparr>blk_format = formats c ! unat fmt, pcm = take 4 samples, timestamp = ts,
       blockNo = n, received = t1\<rparr>\<rparr>"
proof -
  obtain a b d e r where "samples = a # b # d # e # r"
    using assms(2) by (rule list4)
  then show ?thesis
    using assms uint_len16 [of "8 + length samples"]
    by (simp add: process_def server_wave_info_def on_wave_info_def note_stream_def pdu_types)
qed

text \<open>However the server splits a block, the kiosk puts it together: a
  WaveInfo PDU and the Wave PDU after it queue exactly the samples that were
  sent, in the format they were offered as and with the time the first half came
  in, and what trails the samples is dropped; one Wave2 PDU queues the same
  block.\<close>

lemma wave_pair_reassembled:
  assumes "pending c = None" "\<not> closed c" "length (queue c) < queue_cap"
    "4 \<le> length samples" "8 + length samples < 65536" "unat fmt < length (formats c)"
  shows "queue (process t2 (server_wave_rest samples junk)
             (process t1 (server_wave_info ts fmt n samples) c)) =
           queue c @ [\<lparr>blk_format = formats c ! unat fmt, pcm = samples, timestamp = ts,
                        blockNo = n, received = t1\<rparr>] \<and>
         pending (process t2 (server_wave_rest samples junk)
             (process t1 (server_wave_info ts fmt n samples) c)) = None \<and>
         queue (process t1 (server_wave2 ts fmt n audio_ts samples) c) =
         queue (process t2 (server_wave_rest samples junk)
             (process t1 (server_wave_info ts fmt n samples) c))"
proof -
  have wave2: "queue (process t1 (server_wave2 ts fmt n audio_ts samples) c) =
     queue c @ [\<lparr>blk_format = formats c ! unat fmt, pcm = samples, timestamp = ts,
                  blockNo = n, received = t1\<rparr>]"
    using assms
    by (simp add: process_def server_wave2_def on_wave2_def note_stream_def snd_enqueue_def
        le32_def pdu_types)
  have samples: "take 4 samples @ drop 4 samples = samples" by simp
  have cut: "(if int (length samples) - 4 < int (length (drop 4 samples @ junk))
      then take (nat (int (length samples) - 4)) (drop 4 samples @ junk) else drop 4 samples @ junk) =
      drop 4 samples"
    using assms(4) by (auto simp: nat_diff_distrib)
  show ?thesis
    unfolding wave2 wave_info_pending [OF assms(1,4,5,6)]
    using assms samples cut
    by (simp add: process_def finish_wave_def server_wave_rest_def snd_enqueue_def Let_def)
qed

lemma wave_pair_reassembled_example:
  "queue (process 9 (server_wave_rest [1, 2, 3, 4, 5, 6] [7, 7])
     (process 3 (server_wave_info 100 0 42 [1, 2, 3, 4, 5, 6])
        (new_channel\<lparr>formats := [zero_format]\<rparr>))) =
   [\<lparr>blk_format = zero_format, pcm = [1, 2, 3, 4, 5, 6], timestamp = 100, blockNo = 42, received = 3\<rparr>]"
  using wave_pair_reassembled [of "new_channel\<lparr>formats := [zero_format]\<rparr>" "[1, 2, 3, 4, 5, 6]" 0
      9 "[7, 7]" 3 100 42 0]
  by (simp add: new_channel_def queue_cap_def)

lemma formats_reply_decodes:
  assumes "\<forall>f \<in> set fs. format_ok f" "length fs < 65536"
  shows "read_upto read_format (unat (join16 (formats_reply fs ! 14) (formats_reply fs ! 15)))
           (drop 20 (formats_reply fs)) = fs"
proof -
  have "read_upto read_format (length fs) (concat (map write_format fs) @ []) = fs"
    using assms(1) by (rule wf.read_exact_enc)
  then show ?thesis
    using unat_len16 [OF assms(2)] by (simp add: formats_reply_def le32_def)
qed

text \<open>The format negotiation: from a server's list the kiosk keeps the
  formats it can play, in the server's order, and its answer is one PDU whose
  body carries exactly those formats back, so an index in a later block means
  the same format on both sides; a server of version 6 or later is asked for
  high quality as well.\<close>

lemma formats_negotiated:
  assumes "pending c = None" "has_sender c" "\<forall>f \<in> set fs. format_ok f" "length fs < 65536"
  shows "formats (process t (server_formats version lastBlock fs) c) = filter playable fs \<and>
    (\<exists>hdr body. effects (process t (server_formats version lastBlock fs) c) =
       effects c @ [Sent (hdr @ body)] @
         (if 6 \<le> version then [Sent [sndcQualityMode, 0, 4, 0, 2, 0, 0, 0]] else []) \<and>
       length hdr = 4 \<and> hdr ! 0 = sndcFormats \<and>
       read_upto read_format (unat (join16 (body ! 14) (body ! 15))) (drop 20 body) = filter playable fs) \<and>
    (\<not> loop_started c \<longrightarrow> running (process t (server_formats version lastBlock fs) c))"
proof -
  let ?g = "filter playable fs"
  have "read_upto read_format (length fs) (concat (map write_format fs) @ []) = fs"
    using assms(3) by (rule wf.read_exact_enc)
  then have p: "process t (server_formats version lastBlock fs) c =
     (let c1 = snd_send sndcFormats (formats_reply ?g) (c\<lparr>formats := ?g\<rparr>);
          c2 = (if 6 \<le> version then snd_send sndcQualityMode (le16 highQuality @ le16 0) c1 else c1)
      in if loop_started c2 then c2 else c2\<lparr>loop_started := True, running := True\<rparr>)"
    using assms unat_len16 [OF assms(4)]
    by (simp add: process_def server_formats_def on_formats_def le32_def pdu_types Let_def)
  have dec: "read_upto read_format (unat (join16 (formats_reply ?g ! 14) (formats_reply ?g ! 15)))
      (drop 20 (formats_reply ?g)) = ?g"
    using assms(3,4) le_less_trans [OF length_filter_le] by (intro formats_reply_decodes) auto
  show ?thesis
    unfolding p
    apply (intro conjI)
      apply (simp add: Let_def)
     apply (rule exI [of _ "[sndcFormats, 0] @ le16 (word_of_nat (length (formats_reply ?g)))"])
     apply (rule exI [of _ "formats_reply ?g"])
    using assms(2) dec
     apply (simp add: Let_def snd_send_def highQuality_def)
    apply (simp add: Let_def)
    done
qed

lemma formats_negotiated_example:
  "formats (process 0 (server_formats 6 0 [zero_format, zero_format\<lparr>Tag := 1, Channels := 2, SamplesPerSec := 44100,
       BitsPerSample := 16, BlockAlign := 4\<rparr>]) (set_sender new_channel)) =
     [zero_format\<lparr>Tag := 1, Channels := 2, SamplesPerSec := 44100, BitsPerSample := 16, BlockAlign := 4\<rparr>]"
  using formats_negotiated [of "set_sender new_channel" "[zero_format, zero_format\<lparr>Tag := 1,
      Channels := 2, SamplesPerSec := 44100, BitsPerSample := 16, BlockAlign := 4\<rparr>]" 0 6 0]
  by (simp add: set_sender_def new_channel_def zero_format_def playable_def format_ok_def FormatPCM_def)

text \<open>C1. Every block of sound the server has finished sending is confirmed
  exactly once or is still held, whatever the interleaving of the protocol
  reader and the play loop: dropped blocks are confirmed too, so a session never
  starves the server of the confirmations that pace it.\<close>

theorem every_block_accounted:
  assumes "snd_run (set_sender new_channel) es = Some c" "SessionEnd \<notin> snd ` set es"
  shows "mset (confirmed c) + mset (held c) = mset (arrivals (set_sender new_channel) es)"
  using account_run [of "set_sender new_channel" es c] assms
  by (simp add: account_def set_sender_def new_channel_def confirmed_def held_def)

theorem every_block_accounted_witness:
  "mset (confirmed (process 5 (server_wave2 1 0 42 0 [1, 2]) (set_sender new_channel))) +
   mset (held (process 5 (server_wave2 1 0 42 0 [1, 2]) (set_sender new_channel))) = {#42#}"
proof -
  let ?es = "[(5, Recv (server_wave2 1 0 42 0 [1, 2]))]"
  have "snd_run (set_sender new_channel) ?es =
      Some (process 5 (server_wave2 1 0 42 0 [1, 2]) (set_sender new_channel))"
    by simp
  moreover have "arrivals (set_sender new_channel) ?es = [42]"
    by (simp add: completes_def set_sender_def new_channel_def server_wave2_def le32_def)
  ultimately show ?thesis
    using every_block_accounted [of ?es] by fastforce
qed

text \<open>Nothing keeps a block from being confirmed but the player: from any
  state of a running play loop there is a run of the loop alone that plays out
  everything held and confirms it in order; if the session has ended, the loop
  then stops the player and ends.\<close>

lemma play_loop_drains:
  assumes "running c" "has_sender c"
  shows "\<exists>es c'. snd_run c es = Some c' \<and> snd ` set es \<subseteq> {Take, Done} \<and> held c' = [] \<and>
    confirmed c' = confirmed c @ held c \<and>
    (closed c \<longrightarrow> \<not> running c' \<and> last (effects c') = Stop)"
proof -
  define d where "d = (case playing c of Some b \<Rightarrow> snd_confirm 0 b (c\<lparr>playing := None\<rparr>) | None \<Rightarrow> c)"
  define es1 where "es1 = (case playing c of Some b \<Rightarrow> [(0 :: int, Done)] | None \<Rightarrow> [])"
  have d: "snd_run c (es1 @ es) = snd_run d es" "running d" "has_sender d" "playing d = None"
    "queue d = queue c" "closed d = closed c" for es
    using assms unfolding d_def es1_def by (auto simp: play_done_def split: option.split)
  have conf: "confirmed d @ map blockNo (queue d) = confirmed c @ held c"
    using assms unfolding d_def held_def
    by (auto split: option.split) (simp add: confirmed_def)
  obtain e where e: "snd_run d (drain 0 (length (queue d))) = Some e" "queue e = []"
    "playing e = None" "running e" "closed e = closed d"
    "confirmed e = confirmed d @ map blockNo (queue d)"
    using drain_run [of d 0] d by auto
  have stop: "closed e \<Longrightarrow> play_take e = Some (e\<lparr>running := False, effects := effects e @ [Stop]\<rparr>)"
    using e by (simp add: play_take_def)
  have evs: "snd ` set (es1 @ drain 0 n) \<subseteq> {Take, Done}" for n
    by (auto simp: es1_def drain_def split: option.splits)
  have app: "snd_run x (xs @ ys) = (case snd_run x xs of None \<Rightarrow> None | Some y \<Rightarrow> snd_run y ys)" for x xs ys
    by (induction x xs rule: snd_run.induct) (auto split: option.split)
  show ?thesis
  proof (cases "closed c")
    case False
    then show ?thesis
      using e evs conf d(1) d(6)
      by (intro exI [of _ "es1 @ drain 0 (length (queue d))"] exI [of _ e]) (simp add: held_def)
  next
    case True
    let ?f = "e\<lparr>running := False, effects := effects e @ [Stop]\<rparr>"
    have "snd_run c (es1 @ drain 0 (length (queue d)) @ [(0, Take)]) = Some ?f"
      using e stop True d(1) d(6) by (simp add: app)
    moreover have "confirmed ?f = confirmed e" by (simp add: confirmed_def)
    ultimately show ?thesis
      using e evs conf True
      by (intro exI [of _ "es1 @ drain 0 (length (queue d)) @ [(0, Take)]"] exI [of _ ?f])
        (auto simp: held_def)
  qed
qed

lemma play_loop_drains_example:
  "\<exists>es c'. snd_run (new_channel\<lparr>running := True, has_sender := True, closed := True\<rparr>) es = Some c' \<and>
     \<not> running c'"
  using play_loop_drains [of "new_channel\<lparr>running := True, has_sender := True, closed := True\<rparr>"]
  by auto

end
