(* ===== verification/Dvc.thy ===== *)
theory Dvc
  imports GoBytes
begin

unbundle bit_operations_syntax

text \<open>
  \<open>internal/dvc/dvc.go\<close>: the transport of the dynamic virtual channels
  ([MS-RDPEDYC]) over the static channel \<open>drdynvc\<close>. A listener is a state
  \<open>'l\<close> with the three methods of Go's interface \<open>Listener\<close>, which may
  also change a world \<open>'w\<close> that listeners share (the recorder); the messages
  a method sends are returned, in order, and the transport fragments them.
  Names are byte strings, Go's \<open>open\<close> map an association list.
\<close>

section \<open>State\<close>

record ('l, 'w) listener_ops =
  lopen :: "'l \<Rightarrow> 'w \<Rightarrow> 'l \<times> 'w \<times> bytes list"
  ldata :: "bytes \<Rightarrow> 'l \<Rightarrow> 'w \<Rightarrow> 'l \<times> 'w \<times> bytes list"
  lclose :: "'l \<Rightarrow> 'w \<Rightarrow> 'w"

record 'l channel =
  cname :: bytes
  listener :: 'l
  buf :: "bytes option"   \<comment> \<open>\<open>None\<close> is nil: no fragmented message under way\<close>
  total :: nat

record ('l, 'w) transport =
  attached :: bool                      \<comment> \<open>\<open>sender\<close> is not nil\<close>
  factories :: "(bytes \<times> 'l) list"      \<comment> \<open>a factory is the listener it makes\<close>
  chans :: "(u32 \<times> 'l channel) list"
  world :: 'w
  pdus :: "bytes list"                  \<comment> \<open>what went to \<open>SendToChannel\<close>\<close>

definition cmdCreate :: byte where "cmdCreate = 0x01"
definition cmdDataFirst :: byte where "cmdDataFirst = 0x02"
definition cmdData :: byte where "cmdData = 0x03"
definition cmdClose :: byte where "cmdClose = 0x04"
definition cmdCaps :: byte where "cmdCaps = 0x05"
definition maxPDU :: nat where "maxPDU = 1600"
definition statusNotFound :: u32 where "statusNotFound = 0xC0000225"

lemmas dvc_consts = cmdCreate_def cmdDataFirst_def cmdData_def cmdClose_def cmdCaps_def

definition new_transport :: "(bytes \<times> 'l) list \<Rightarrow> 'w \<Rightarrow> ('l, 'w) transport" where
  "new_transport ls w = \<lparr>attached = False, factories = ls, chans = [], world = w, pdus = []\<rparr>"

definition attach :: "('l, 'w) transport \<Rightarrow> ('l, 'w) transport" where
  "attach t = t\<lparr>attached := True\<rparr>"

section \<open>Variable-size integers and strings\<close>

definition idSize :: "u32 \<Rightarrow> byte" where
  "idSize v = (if v \<le> 0xFF then 0 else if v \<le> 0xFFFF then 1 else 2)"

definition writeVar :: "u32 \<Rightarrow> bytes" where
  "writeVar v =
     (if idSize v = 0 then [ucast v] else if idSize v = 1 then le16 (ucast v) else le32 v)"

definition readVar :: "byte \<Rightarrow> bytes \<Rightarrow> (u32 \<times> bytes) option" where
  "readVar sz r =
     (if sz = 0 then map_option (\<lambda>(v, r'). (ucast v, r')) (rd_u8 r)
      else if sz = 1 then map_option (\<lambda>(v, r'). (ucast v, r')) (rd_le16 r)
      else rd_le32 r)"

fun readCString :: "bytes \<Rightarrow> bytes" where
  "readCString [] = []"
| "readCString (c # r) = (if c = 0 then [] else c # readCString r)"

section \<open>Sending\<close>

definition pdu_write :: "bytes \<Rightarrow> ('l, 'w) transport \<Rightarrow> ('l, 'w) transport" where
  "pdu_write b t = (if attached t then t\<lparr>pdus := pdus t @ [b]\<rparr> else t)"

definition first_header :: "u32 \<Rightarrow> u32 \<Rightarrow> bytes" where
  "first_header cid tot =
     [push_bit 4 cmdDataFirst OR push_bit 2 (idSize tot) OR idSize cid] @ writeVar cid @ writeVar tot"

definition data_header :: "u32 \<Rightarrow> bytes" where
  "data_header cid = [push_bit 4 cmdData OR idSize cid] @ writeVar cid"

text \<open>The loop of \<open>sendData\<close>: the PDUs of what is left to send.\<close>

function fragments :: "u32 \<Rightarrow> u32 \<Rightarrow> bool \<Rightarrow> bytes \<Rightarrow> bytes list" where
  "fragments cid tot first data =
     (if data = [] then []
      else let hdr = (if first then first_header cid tot else data_header cid);
               n = min (maxPDU - length hdr) (length data)
           in (hdr @ take n data) # fragments cid tot False (drop n data))"
  by pat_completeness auto

lemma length_writeVar [simp, wire_simps]: "length (writeVar v) = 2 ^ unat (idSize v)"
  by (simp add: writeVar_def idSize_def)

lemma idSize_le: "2 ^ unat (idSize v) \<le> (4 :: nat)"
  by (simp add: idSize_def)

lemma length_headers [simp, wire_simps]:
  "length (first_header cid tot) = 1 + 2 ^ unat (idSize cid) + 2 ^ unat (idSize tot)"
  "length (data_header cid) = 1 + 2 ^ unat (idSize cid)"
  by (simp_all add: first_header_def data_header_def)

lemma header_small: "length (first_header cid tot) \<le> 9" "length (data_header cid) \<le> 5"
  using idSize_le [of cid] idSize_le [of tot] by simp_all

termination fragments
proof (relation "measure (\<lambda>(_, _, _, data). length data)")
  fix cid tot first and data :: bytes and hdr n
  assume "data \<noteq> []" "hdr = (if first then first_header cid tot else data_header cid)"
    "n = min (maxPDU - length hdr) (length data)"
  then have "0 < n" "n \<le> length data"
    using header_small(1) [of cid tot] header_small(2) [of cid] by (auto simp: maxPDU_def)
  then show "((cid, tot, False, drop n data), cid, tot, first, data)
      \<in> measure (\<lambda>(_, _, _, data). length data)"
    by simp
qed simp

declare fragments.simps [simp del]

definition send_pdus :: "u32 \<Rightarrow> bytes \<Rightarrow> bytes list" where
  "send_pdus cid data =
     (let idLen = 2 ^ unat (idSize cid)
      in if 1 + idLen + length data \<le> maxPDU then [data_header cid @ data]
         else fragments cid (word_of_nat (length data)) True data)"

definition sendData :: "u32 \<Rightarrow> bytes \<Rightarrow> ('l, 'w) transport \<Rightarrow> ('l, 'w) transport" where
  "sendData cid data t = fold pdu_write (send_pdus cid data) t"

section \<open>Receiving\<close>

definition set_chan :: "u32 \<Rightarrow> 'l channel \<Rightarrow> ('l, 'w) transport \<Rightarrow> ('l, 'w) transport" where
  "set_chan cid ch t = t\<lparr>chans := AList.update cid ch (chans t)\<rparr>"

definition hand_over ::
  "('l, 'w) listener_ops \<Rightarrow> u32 \<Rightarrow> 'l channel \<Rightarrow> bytes \<Rightarrow> ('l, 'w) transport \<Rightarrow> ('l, 'w) transport" where
  \<comment> \<open>\<open>ch.listener.Data(msg)\<close>, after which no fragment is kept\<close>
  "hand_over ops cid ch msg t =
     (let (l, w, msgs) = ldata ops msg (listener ch) (world t)
      in fold (sendData cid) msgs (set_chan cid (ch\<lparr>listener := l, buf := None\<rparr>) (t\<lparr>world := w\<rparr>)))"

definition on_create ::
  "('l, 'w) listener_ops \<Rightarrow> byte \<Rightarrow> bytes \<Rightarrow> ('l, 'w) transport \<Rightarrow> ('l, 'w) transport" where
  "on_create ops cbID r t =
     (case readVar cbID r of None \<Rightarrow> t
      | Some (cid, r1) \<Rightarrow>
        let name = readCString r1;
            factory = map_of (factories t) name;
            status = (if factory = None then statusNotFound else 0);
            t1 = pdu_write ([push_bit 4 cmdCreate OR idSize cid] @ writeVar cid @ le32 status) t
        in case factory of None \<Rightarrow> t1
           | Some l0 \<Rightarrow>
             let t2 = set_chan cid \<lparr>cname = name, listener = l0, buf = None, total = 0\<rparr> t1;
                 (l, w, msgs) = lopen ops l0 (world t2);
                 t3 = set_chan cid \<lparr>cname = name, listener = l, buf = None, total = 0\<rparr> (t2\<lparr>world := w\<rparr>)
             in fold (sendData cid) msgs t3)"

definition on_data_first ::
  "('l, 'w) listener_ops \<Rightarrow> byte \<Rightarrow> byte \<Rightarrow> bytes \<Rightarrow> ('l, 'w) transport \<Rightarrow> ('l, 'w) transport" where
  "on_data_first ops cbID sp r t =
     (case readVar cbID r of None \<Rightarrow> t
      | Some (cid, r1) \<Rightarrow>
        (case readVar sp r1 of None \<Rightarrow> t
         | Some (tot, rest) \<Rightarrow>
           (case map_of (chans t) cid of None \<Rightarrow> t
            | Some ch \<Rightarrow>
              let ch1 = ch\<lparr>buf := Some rest, total := unat tot\<rparr>
              in if total ch1 \<le> length rest then hand_over ops cid ch1 rest t
                 else set_chan cid ch1 t)))"

definition on_data ::
  "('l, 'w) listener_ops \<Rightarrow> byte \<Rightarrow> bytes \<Rightarrow> ('l, 'w) transport \<Rightarrow> ('l, 'w) transport" where
  "on_data ops cbID r t =
     (case readVar cbID r of None \<Rightarrow> t
      | Some (cid, rest) \<Rightarrow>
        (case map_of (chans t) cid of None \<Rightarrow> t
         | Some ch \<Rightarrow>
           (case buf ch of
              Some b \<Rightarrow>
                let ch1 = ch\<lparr>buf := Some (b @ rest)\<rparr>
                in if total ch1 \<le> length (b @ rest) then hand_over ops cid ch1 (b @ rest) t
                   else set_chan cid ch1 t
            | None \<Rightarrow> hand_over ops cid ch rest t)))"

definition on_close ::
  "('l, 'w) listener_ops \<Rightarrow> byte \<Rightarrow> bytes \<Rightarrow> ('l, 'w) transport \<Rightarrow> ('l, 'w) transport" where
  "on_close ops cbID r t =
     (case readVar cbID r of None \<Rightarrow> t
      | Some (cid, _) \<Rightarrow>
        (case map_of (chans t) cid of
           None \<Rightarrow> t\<lparr>chans := AList.delete cid (chans t)\<rparr>
         | Some ch \<Rightarrow>
             pdu_write ([push_bit 4 cmdClose OR idSize cid] @ writeVar cid)
               (t\<lparr>chans := AList.delete cid (chans t), world := lclose ops (listener ch) (world t)\<rparr>)))"

definition dvc_process ::
  "('l, 'w) listener_ops \<Rightarrow> bytes \<Rightarrow> ('l, 'w) transport \<Rightarrow> ('l, 'w) transport" where
  "dvc_process ops s t =
     (case s of [] \<Rightarrow> t
      | hdr # r \<Rightarrow>
        let cmd = drop_bit 4 hdr; sp = drop_bit 2 hdr AND 0x3; cbID = hdr AND 0x3
        in if cmd = cmdCaps then pdu_write [push_bit 4 cmdCaps, 0x00, 0x02, 0x00] t
           else if cmd = cmdCreate then on_create ops cbID r t
           else if cmd = cmdDataFirst then on_data_first ops cbID sp r t
           else if cmd = cmdData then on_data ops cbID r t
           else if cmd = cmdClose then on_close ops cbID r t
           else t)"

definition dvc_process_all ::
  "('l, 'w) listener_ops \<Rightarrow> bytes list \<Rightarrow> ('l, 'w) transport \<Rightarrow> ('l, 'w) transport" where
  "dvc_process_all ops = fold (dvc_process ops)"

definition CloseAll :: "('l, 'w) listener_ops \<Rightarrow> ('l, 'w) transport \<Rightarrow> ('l, 'w) transport" where
  "CloseAll ops t =
     t\<lparr>chans := [], world := fold (\<lambda>(_, ch). lclose ops (listener ch)) (chans t) (world t)\<rparr>"

section \<open>Wire lemmas\<close>

text \<open>What a peer may send: a value may be written in more bytes than it
  needs, size codes 2 and 3 both mean four.\<close>

definition var_bytes :: "byte \<Rightarrow> u32 \<Rightarrow> bytes" where
  "var_bytes k v = (if k = 0 then [ucast v] else if k = 1 then le16 (ucast v) else le32 v)"

definition var_fits :: "byte \<Rightarrow> u32 \<Rightarrow> bool" where
  "var_fits k v \<longleftrightarrow> k < 4 \<and> (k = 0 \<longrightarrow> v < 256) \<and> (k = 1 \<longrightarrow> v < 65536)"

definition peer_first :: "byte \<Rightarrow> byte \<Rightarrow> u32 \<Rightarrow> u32 \<Rightarrow> bytes \<Rightarrow> bytes" where
  "peer_first k sp cid tot p =
     (push_bit 4 cmdDataFirst OR push_bit 2 sp OR k) # var_bytes k cid @ var_bytes sp tot @ p"

definition peer_data :: "u32 \<Rightarrow> byte \<times> bytes \<Rightarrow> bytes" where
  "peer_data cid f = (push_bit 4 cmdData OR fst f) # var_bytes (fst f) cid @ snd f"

lemma writeVar_var_bytes: "writeVar v = var_bytes (idSize v) v"
  by (simp add: writeVar_def var_bytes_def)

lemma idSize_fits: "var_fits (idSize v) v"
  by (auto simp: var_fits_def idSize_def word_le_nat_alt word_less_nat_alt)

lemma ucast_small [simp]:
  "v < 256 \<Longrightarrow> ucast (ucast v :: byte) = (v :: u32)"
  "v < 65536 \<Longrightarrow> ucast (ucast v :: u16) = (v :: u32)"
  by (auto simp: word_unat_eq_iff word_less_nat_alt unsigned_ucast_eq unsigned_take_bit_eq
      take_bit_nat_eq_self_iff)

lemma readVar_var_bytes [codec_simps]:
  "var_fits k v \<Longrightarrow> readVar k (var_bytes k v @ r) = Some (v, r)"
  by (auto simp: var_fits_def readVar_def var_bytes_def)

text \<open>\<open>readVar\<close> takes back what \<open>writeVar\<close> wrote, given the size code
  that goes into the header.\<close>

lemma readVar_writeVar [simp, codec_simps]: "readVar (idSize v) (writeVar v @ r) = Some (v, r)"
  by (simp add: writeVar_var_bytes readVar_var_bytes idSize_fits)

lemma small_byte: "k < 4 \<Longrightarrow> k = 0 \<or> k = 1 \<or> k = 2 \<or> k = (3 :: byte)"
proof -
  assume "k < 4"
  then have "unat k < 4" by (simp add: word_less_nat_alt)
  then have "unat k = 0 \<or> unat k = 1 \<or> unat k = 2 \<or> unat k = 3" by linarith
  then show ?thesis
    by (simp add: word_unat_eq_iff)
qed

lemma header_fields:
  assumes "k < 4" "sp < 4"
  shows "drop_bit 4 (push_bit 4 cmdDataFirst OR push_bit 2 sp OR k) = cmdDataFirst"
    "drop_bit 2 (push_bit 4 cmdDataFirst OR push_bit 2 sp OR k) AND 3 = sp"
    "(push_bit 4 cmdDataFirst OR push_bit 2 sp OR k) AND 3 = k"
    "drop_bit 4 (push_bit 4 cmdData OR k) = cmdData" "(push_bit 4 cmdData OR k) AND 3 = k"
    "drop_bit 4 (push_bit 4 cmdCreate OR k) = cmdCreate" "(push_bit 4 cmdCreate OR k) AND 3 = k"
    "drop_bit 4 (push_bit 4 cmdClose OR k) = cmdClose" "(push_bit 4 cmdClose OR k) AND 3 = k"
  using small_byte [OF assms(1)] small_byte [OF assms(2)]
  by (elim disjE; simp add: dvc_consts)+

lemma process_peer_first:
  assumes "var_fits k cid" "var_fits sp tot" "map_of (chans t) cid = Some ch"
  shows "dvc_process ops (peer_first k sp cid tot p) t =
    (if unat tot \<le> length p then hand_over ops cid (ch\<lparr>total := unat tot\<rparr>) p t
     else set_chan cid (ch\<lparr>buf := Some p, total := unat tot\<rparr>) t)"
proof -
  have k: "k < 4" "sp < 4" using assms by (auto simp: var_fits_def)
  show ?thesis
    using header_fields [OF k] assms
    by (simp add: dvc_process_def peer_first_def on_data_first_def readVar_var_bytes hand_over_def Let_def)
      (simp add: dvc_consts)
qed

lemma process_peer_data:
  assumes "var_fits (fst f) cid" "map_of (chans t) cid = Some ch"
  shows "dvc_process ops (peer_data cid f) t =
    (case buf ch of None \<Rightarrow> hand_over ops cid ch (snd f) t
     | Some b \<Rightarrow> if total ch \<le> length (b @ snd f) then hand_over ops cid ch (b @ snd f) t
                 else set_chan cid (ch\<lparr>buf := Some (b @ snd f)\<rparr>) t)"
proof -
  have k: "fst f < 4" using assms by (auto simp: var_fits_def)
  show ?thesis
    using header_fields [OF k k] assms
    by (simp add: dvc_process_def peer_data_def on_data_def readVar_var_bytes hand_over_def Let_def
        split: option.split) (simp add: dvc_consts)
qed

lemma set_chan_simps [simp]:
  "map_of (chans (set_chan cid ch t)) x = (if x = cid then Some ch else map_of (chans t) x)"
  "world (set_chan cid ch t) = world t"
  "set_chan cid ch (set_chan cid ch' t) = set_chan cid ch t"
  by (simp_all add: set_chan_def update_conv')

lemma hand_over_simps [simp]:
  "hand_over ops cid ch m (set_chan cid ch' t) = hand_over ops cid ch m t"
  "hand_over ops cid (ch\<lparr>buf := b\<rparr>) m t = hand_over ops cid ch m t"
  by (simp_all add: hand_over_def set_chan_def split: prod.split)

lemma reassemble_rest:
  assumes "\<forall>f \<in> set fs. var_fits (fst f) cid" "map_of (chans t) cid = Some ch" "buf ch = Some b"
    "length (b @ concat (map snd fs)) = total ch" "fs \<noteq> []"
    "length (b @ concat (map snd (butlast fs))) < total ch"
  shows "dvc_process_all ops (map (peer_data cid) fs) t =
    hand_over ops cid ch (b @ concat (map snd fs)) t"
  using assms
proof (induction fs arbitrary: t ch b)
  case (Cons f fs)
  show ?case
  proof (cases "fs = []")
    case True
    then show ?thesis
      using Cons.prems by (simp add: dvc_process_all_def process_peer_data)
  next
    case False
    then have less: "length (b @ snd f) < total ch" using Cons.prems(6) by simp
    let ?ch = "ch\<lparr>buf := Some (b @ snd f)\<rparr>"
    have "dvc_process_all ops (map (peer_data cid) (f # fs)) t =
        dvc_process_all ops (map (peer_data cid) fs) (set_chan cid ?ch t)"
      using Cons.prems less by (simp add: dvc_process_all_def process_peer_data)
    also have "\<dots> = hand_over ops cid ?ch ((b @ snd f) @ concat (map snd fs)) (set_chan cid ?ch t)"
      using Cons.prems False by (intro Cons.IH) simp_all
    finally show ?thesis by simp
  qed
qed simp

section \<open>Messages\<close>

lemma peer_headers:
  "first_header cid tot @ p = peer_first (idSize cid) (idSize tot) cid tot p"
  "data_header cid @ p = peer_data cid (idSize cid, p)"
  by (simp_all add: first_header_def data_header_def peer_first_def peer_data_def writeVar_var_bytes)

lemma fragments_rest:
  "\<exists>ps. fragments cid tot False data = map (\<lambda>p. data_header cid @ p) ps \<and> concat ps = data \<and>
     (\<forall>p \<in> set ps. p \<noteq> [])"
proof (induction data rule: length_induct)
  case (1 data)
  let ?n = "min (maxPDU - length (data_header cid)) (length data)"
  show ?case
  proof (cases "data = []")
    case True
    then show ?thesis by (simp add: fragments.simps)
  next
    case False
    have n: "0 < ?n" using False header_small(2) [of cid] by (simp add: maxPDU_def)
    with False obtain ps where "fragments cid tot False (drop ?n data) = map (\<lambda>p. data_header cid @ p) ps"
      "concat ps = drop ?n data" "\<forall>p \<in> set ps. p \<noteq> []"
      using 1 by (metis diff_less length_drop length_greater_0_conv)
    with False n show ?thesis
      by (subst fragments.simps) (intro exI [of _ "take ?n data # ps"],
          simp add: Let_def del: length_headers)
  qed
qed

lemma fragments_size: "p \<in> set (fragments cid tot first data) \<Longrightarrow> length p \<le> maxPDU"
proof (induction cid tot first data rule: fragments.induct)
  case (1 cid tot first data)
  from "1.prems" show ?case
    using "1.IH" header_small(1) [of cid tot] header_small(2) [of cid]
    by (subst (asm) fragments.simps) (auto simp: maxPDU_def Let_def split: if_splits)
qed

lemma nonempty_butlast:
  "ps \<noteq> [] \<Longrightarrow> \<forall>p \<in> set ps. p \<noteq> [] \<Longrightarrow> length (concat (butlast ps)) < length (concat ps)"
  by (cases ps rule: rev_cases) simp_all

text \<open>C2. Reassembly: a message the peer splits any way it likes into DATA_FIRST
  and DATA PDUs, with whatever size codes, reaches the listener exactly once,
  whole, and leaves no fragment behind.\<close>

theorem fragments_reassembled:
  assumes "map_of (chans t) cid = Some ch" "var_fits k cid" "var_fits sp tot"
    "\<forall>f \<in> set fs. var_fits (fst f) cid"
    "unat tot = length (p @ concat (map snd fs))"
    "fs \<noteq> [] \<Longrightarrow> length (p @ concat (map snd (butlast fs))) < unat tot"
  shows "dvc_process_all ops (peer_first k sp cid tot p # map (peer_data cid) fs) t =
    hand_over ops cid (ch\<lparr>total := unat tot\<rparr>) (p @ concat (map snd fs)) t"
proof (cases "fs = []")
  case True
  then show ?thesis
    using assms by (simp add: dvc_process_all_def process_peer_first)
next
  case False
  let ?ch = "ch\<lparr>buf := Some p, total := unat tot\<rparr>"
  have "\<not> unat tot \<le> length p"
    using assms(6) [OF False] by simp
  then have "dvc_process_all ops (peer_first k sp cid tot p # map (peer_data cid) fs) t =
      dvc_process_all ops (map (peer_data cid) fs) (set_chan cid ?ch t)"
    using assms(1-3) by (simp add: dvc_process_all_def process_peer_first)
  also have "\<dots> = hand_over ops cid ?ch (p @ concat (map snd fs)) (set_chan cid ?ch t)"
    using assms False by (intro reassemble_rest) simp_all
  also have "?ch = (ch\<lparr>total := unat tot\<rparr>)\<lparr>buf := Some p\<rparr>" by simp
  finally show ?thesis by simp
qed

definition inbox_ops :: "(unit, bytes list) listener_ops" where
  \<comment> \<open>for the examples: a listener whose world is the messages handed to it\<close>
  "inbox_ops = \<lparr>lopen = (\<lambda>l w. (l, w, [])), ldata = (\<lambda>b l w. (l, w @ [b], [])), lclose = (\<lambda>l w. w)\<rparr>"

definition inbox :: "(unit, bytes list) transport" where
  "inbox = \<lparr>attached = True, factories = [([97], ())],
     chans = [(7, \<lparr>cname = [97], listener = (), buf = None, total = 0\<rparr>),
              (8, \<lparr>cname = [97], listener = (), buf = Some [9], total = 9\<rparr>)], world = [], pdus = []\<rparr>"

theorem fragments_reassembled_witness:
  "world (dvc_process_all inbox_ops [peer_first 0 1 8 3 [1], peer_data 8 (2, [2]), peer_data 8 (0, [3])] inbox) =
   [[1, 2, 3]]"
  using fragments_reassembled [of inbox
      8 "\<lparr>cname = [97], listener = (), buf = Some [9], total = 9\<rparr>" 0 1 3 "[(2, [2]), (0, [3])]" "[1]" inbox_ops]
  by (simp add: var_fits_def inbox_def hand_over_def inbox_ops_def set_chan_def)

lemma send_pdus_single:
  "1 + 2 ^ unat (idSize cid) + length data \<le> maxPDU \<Longrightarrow> send_pdus cid data = [peer_data cid (idSize cid, data)]"
  by (simp add: send_pdus_def peer_headers)

lemma send_pdus_many:
  assumes "\<not> 1 + 2 ^ unat (idSize cid) + length data \<le> maxPDU"
  obtains p ps where "send_pdus cid data =
      peer_first (idSize cid) (idSize (word_of_nat (length data))) cid (word_of_nat (length data)) p #
      map (\<lambda>q. peer_data cid (idSize cid, q)) ps"
    "p @ concat ps = data" "ps \<noteq> []" "\<forall>q \<in> set ps. q \<noteq> []"
proof -
  let ?tot = "word_of_nat (length data) :: u32"
  let ?n = "maxPDU - length (first_header cid ?tot)"
  have n: "?n < length data" "data \<noteq> []"
    using assms header_small(1) [of cid ?tot] idSize_le [of cid] by (auto simp: maxPDU_def)
  obtain ps where ps: "fragments cid ?tot False (drop ?n data) = map (\<lambda>p. data_header cid @ p) ps"
    "concat ps = drop ?n data" "\<forall>p \<in> set ps. p \<noteq> []"
    using fragments_rest by blast
  have "fragments cid ?tot True data =
      (first_header cid ?tot @ take ?n data) # fragments cid ?tot False (drop ?n data)"
    using n by (subst fragments.simps) (simp add: Let_def min_def)
  then have "send_pdus cid data = peer_first (idSize cid) (idSize ?tot) cid ?tot (take ?n data) #
      map (\<lambda>q. peer_data cid (idSize cid, q)) ps"
    using assms ps by (simp add: send_pdus_def Let_def peer_headers)
  moreover have "ps \<noteq> []" using ps(2) n(1) by auto
  ultimately show thesis
    using that ps by simp
qed

text \<open>C3. What \<open>sendData\<close> puts on the wire: every PDU respects the size both
  sides agreed on, and a peer that reassembles as this client does takes the
  message out exactly once, whole.\<close>

theorem sent_message_arrives:
  assumes "map_of (chans t) cid = Some ch" "buf ch = None" "length m < 2 ^ 32"
  shows "(\<forall>p \<in> set (send_pdus cid m). length p \<le> 1600) \<and>
    (\<exists>tot. dvc_process_all ops (send_pdus cid m) t = hand_over ops cid (ch\<lparr>total := tot\<rparr>) m t)"
proof (cases "1 + 2 ^ unat (idSize cid) + length m \<le> maxPDU")
  case True
  have "ch\<lparr>total := total ch\<rparr> = ch" by simp
  with True assms have "dvc_process_all ops (send_pdus cid m) t = hand_over ops cid (ch\<lparr>total := total ch\<rparr>) m t"
    by (simp add: send_pdus_single dvc_process_all_def process_peer_data idSize_fits)
  moreover have "length (peer_data cid (idSize cid, m)) \<le> 1600"
    using True by (simp add: peer_headers(2) [symmetric] maxPDU_def)
  ultimately show ?thesis
    using True by (auto simp: send_pdus_single intro!: exI [of _ "total ch"])
next
  case False
  have "unat (word_of_nat (length m) :: u32) = length m"
    using assms(3) by (simp add: unat_of_nat take_bit_nat_eq_self_iff)
  moreover obtain p ps where ps: "send_pdus cid m =
      peer_first (idSize cid) (idSize (word_of_nat (length m))) cid (word_of_nat (length m)) p #
      map (\<lambda>q. peer_data cid (idSize cid, q)) ps"
    "p @ concat ps = m" "ps \<noteq> []" "\<forall>q \<in> set ps. q \<noteq> []"
    using False by (rule send_pdus_many)
  ultimately have "dvc_process_all ops (send_pdus cid m) t =
      hand_over ops cid (ch\<lparr>total := length m\<rparr>) m t"
    using fragments_reassembled [of t cid ch "idSize cid" "idSize (word_of_nat (length m))"
        "word_of_nat (length m)" "map (Pair (idSize cid)) ps" p ops] assms(1) nonempty_butlast [OF ps(3,4)]
    by (auto simp: idSize_fits comp_def map_butlast [symmetric])
  moreover have "\<forall>p \<in> set (send_pdus cid m). length p \<le> 1600"
    using False fragments_size [where first = True] by (auto simp: send_pdus_def Let_def maxPDU_def)
  ultimately show ?thesis by blast
qed

theorem sent_message_arrives_witness:
  "world (dvc_process_all inbox_ops (send_pdus 7 [1, 2, 3]) inbox) = [[1, 2, 3]]"
proof -
  obtain tot where "dvc_process_all inbox_ops (send_pdus 7 [1, 2, 3]) inbox =
      hand_over inbox_ops 7 \<lparr>cname = [97], listener = (), buf = None, total = tot\<rparr> [1, 2, 3] inbox"
    using sent_message_arrives [of inbox
      7 "\<lparr>cname = [97], listener = (), buf = None, total = 0\<rparr>" "[1, 2, 3]" inbox_ops]
    by (auto simp: inbox_def)
  then show ?thesis
    by (simp add: inbox_def hand_over_def inbox_ops_def set_chan_def)
qed

section \<open>Frame lemmas\<close>

lemma pdu_write_frame [simp]:
  "chans (pdu_write b t) = chans t" "world (pdu_write b t) = world t"
  "factories (pdu_write b t) = factories t" "attached (pdu_write b t) = attached t"
  by (simp_all add: pdu_write_def)

lemma fold_pdu_write_frame [simp]:
  "chans (fold pdu_write bs t) = chans t" "world (fold pdu_write bs t) = world t"
  "factories (fold pdu_write bs t) = factories t" "attached (fold pdu_write bs t) = attached t"
  by (induction bs arbitrary: t) simp_all

lemma sendData_frame [simp]:
  "chans (sendData cid m t) = chans t" "world (sendData cid m t) = world t"
  "factories (sendData cid m t) = factories t" "attached (sendData cid m t) = attached t"
  by (simp_all add: sendData_def)

lemma fold_sendData_frame [simp]:
  "chans (fold (sendData cid) ms t) = chans t" "world (fold (sendData cid) ms t) = world t"
  "factories (fold (sendData cid) ms t) = factories t" "attached (fold (sendData cid) ms t) = attached t"
  by (induction ms arbitrary: t) simp_all

lemma set_chan_frame [simp]:
  "factories (set_chan cid ch t) = factories t" "attached (set_chan cid ch t) = attached t"
  "pdus (set_chan cid ch t) = pdus t"
  by (simp_all add: set_chan_def)

text \<open>The channel a PDU is for: the id its header and first bytes give.\<close>

definition addressed :: "bytes \<Rightarrow> u32 option" where
  "addressed s = (case s of [] \<Rightarrow> None | hdr # r \<Rightarrow> map_option fst (readVar (hdr AND 3) r))"

lemma hand_over_other:
  "x \<noteq> cid \<Longrightarrow> map_of (chans (hand_over ops cid ch m t)) x = map_of (chans t) x"
  by (simp add: hand_over_def split: prod.split)

text \<open>Channels do not disturb each other: a PDU changes no channel but the
  one it is for, opens and closes no other, and a PDU without a readable id, or
  for a channel that is not open, changes none at all unless it creates it.\<close>

lemma channels_isolated:
  assumes "addressed s \<noteq> Some x"
  shows "map_of (chans (dvc_process ops s t)) x = map_of (chans t) x"
proof (cases s)
  case (Cons hdr r)
  with assms have ne: "readVar (hdr AND 3) r = Some (cid, r') \<Longrightarrow> cid \<noteq> x" for cid r'
    by (auto simp: addressed_def)
  have "map_of (chans (on_create ops (hdr AND 3) r t)) x = map_of (chans t) x"
    using ne by (auto simp: on_create_def Let_def split: option.split prod.split)
  moreover have "map_of (chans (on_data_first ops (hdr AND 3) sp r t)) x = map_of (chans t) x" for sp
    using ne by (auto simp: on_data_first_def Let_def hand_over_other split: option.split prod.split)
  moreover have "map_of (chans (on_data ops (hdr AND 3) r t)) x = map_of (chans t) x"
    using ne by (auto simp: on_data_def Let_def hand_over_other split: option.split prod.split)
  moreover have "map_of (chans (on_close ops (hdr AND 3) r t)) x = map_of (chans t) x"
    using ne by (auto simp: on_close_def delete_conv' split: option.split prod.split)
  ultimately show ?thesis
    using Cons by (simp add: dvc_process_def Let_def)
qed (simp add: dvc_process_def)

lemma channels_isolated_example:
  "map_option buf (map_of (chans (dvc_process inbox_ops [0x40, 7] inbox)) 8) = Some (Some [9])"
  using channels_isolated [of "[0x40, 7]" 8 inbox_ops inbox]
  by (simp add: addressed_def readVar_def inbox_def)

section \<open>Opening and closing\<close>

definition peer_create :: "byte \<Rightarrow> u32 \<Rightarrow> bytes \<Rightarrow> bytes" where
  "peer_create k cid name = (push_bit 4 cmdCreate OR k) # var_bytes k cid @ name @ [0]"

definition peer_close :: "byte \<Rightarrow> u32 \<Rightarrow> bytes" where
  "peer_close k cid = (push_bit 4 cmdClose OR k) # var_bytes k cid"

lemma readCString_append [simp]: "0 \<notin> set name \<Longrightarrow> readCString (name @ 0 # r) = name"
  by (induction name) auto

lemma process_peer_create:
  assumes "var_fits k cid"
  shows "dvc_process ops (peer_create k cid name) t = on_create ops k (var_bytes k cid @ name @ [0]) t"
proof -
  have k: "k < 4" using assms by (simp add: var_fits_def)
  show ?thesis
    using header_fields [OF k k] by (simp add: dvc_process_def peer_create_def Let_def) (simp add: dvc_consts)
qed

lemma process_peer_close:
  assumes "var_fits k cid"
  shows "dvc_process ops (peer_close k cid) t = on_close ops k (var_bytes k cid) t"
proof -
  have k: "k < 4" using assms by (simp add: var_fits_def)
  show ?thesis
    using header_fields [OF k k] by (simp add: dvc_process_def peer_close_def Let_def) (simp add: dvc_consts)
qed

text \<open>Every request to open a channel is answered exactly once before the
  channel says anything: with status 0 when the kiosk serves the name, after
  which the channel is open with a fresh listener, and with
  \<open>STATUS_NOT_FOUND\<close> otherwise, after which nothing has changed.\<close>

lemma create_answered:
  assumes "var_fits k cid" "0 \<notin> set name" "attached t"
  shows "let t' = dvc_process ops (peer_create k cid name) t;
             answer = (push_bit 4 cmdCreate OR idSize cid) # writeVar cid
         in case map_of (factories t) name of
              None \<Rightarrow> t' = t\<lparr>pdus := pdus t @ [answer @ le32 0xC0000225]\<rparr>
            | Some l0 \<Rightarrow>
                (\<exists>msgs. pdus t' = pdus t @ [answer @ le32 0] @ concat (map (send_pdus cid) msgs)
                   \<and> msgs = snd (snd (lopen ops l0 (world t)))) \<and>
                map_option listener (map_of (chans t') cid) = Some (fst (lopen ops l0 (world t)))"
proof -
  have sends: "pdus (fold (sendData cid) msgs u) = pdus u @ concat (map (send_pdus cid) msgs)"
    if "attached u" for msgs and u :: "('a, 'b) transport"
    using that
  proof (induction msgs arbitrary: u)
    case (Cons m msgs)
    have "pdus (fold pdu_write bs v) = pdus v @ bs" if "attached v" for bs and v :: "('a, 'b) transport"
      using that by (induction bs arbitrary: v) (simp_all add: pdu_write_def)
    with Cons show ?case by (simp add: sendData_def)
  qed simp
  show ?thesis
    using assms
    by (auto simp: process_peer_create on_create_def readVar_var_bytes Let_def sends pdu_write_def
        statusNotFound_def split: option.split prod.split)
qed

lemma create_answered_example:
  "pdus (dvc_process inbox_ops (peer_create 0 9 [98]) inbox) = [(0x10 OR 0) # [9] @ le32 0xC0000225]"
  using create_answered [of 0 9 "[98]" inbox inbox_ops]
  by (simp add: inbox_def var_fits_def Let_def idSize_def writeVar_def cmdCreate_def)

section \<open>The contract of a listener\<close>

text \<open>An invariant of the listener and of the world that its three methods keep
  is an invariant of every open channel.\<close>

definition chan_ok :: "('l \<Rightarrow> bool) \<Rightarrow> 'l channel \<Rightarrow> bool" where
  "chan_ok linv ch \<longleftrightarrow> linv (listener ch) \<and> (\<forall>b. buf ch = Some b \<longrightarrow> length b < total ch)"

definition transport_ok :: "('l \<Rightarrow> bool) \<Rightarrow> ('w \<Rightarrow> bool) \<Rightarrow> ('l, 'w) transport \<Rightarrow> bool" where
  "transport_ok linv winv t \<longleftrightarrow>
     (\<forall>n l. map_of (factories t) n = Some l \<longrightarrow> linv l) \<and>
     (\<forall>cid ch. map_of (chans t) cid = Some ch \<longrightarrow> chan_ok linv ch) \<and> winv (world t)"

locale dvc_listener =
  fixes ops :: "('l, 'w) listener_ops" and linv :: "'l \<Rightarrow> bool" and winv :: "'w \<Rightarrow> bool"
  assumes open_inv: "linv l \<Longrightarrow> winv w \<Longrightarrow> lopen ops l w = (l', w', ms) \<Longrightarrow> linv l' \<and> winv w'"
    and data_inv: "linv l \<Longrightarrow> winv w \<Longrightarrow> ldata ops b l w = (l', w', ms) \<Longrightarrow> linv l' \<and> winv w'"
    and close_inv: "linv l \<Longrightarrow> winv w \<Longrightarrow> winv (lclose ops l w)"
begin

lemma hand_over_ok:
  assumes "transport_ok linv winv t" "linv (listener ch)"
  shows "transport_ok linv winv (hand_over ops cid ch m t)"
  using assms data_inv [of "listener ch" "world t" m]
  by (auto simp: hand_over_def transport_ok_def chan_ok_def split: prod.split)

lemma set_chan_ok:
  "transport_ok linv winv t \<Longrightarrow> chan_ok linv ch \<Longrightarrow> transport_ok linv winv (set_chan cid ch t)"
  by (auto simp: transport_ok_def)

lemma create_ok:
  assumes "transport_ok linv winv t"
  shows "transport_ok linv winv (on_create ops k r t)"
proof (cases "readVar k r")
  case (Some a)
  then obtain cid r1 where a: "readVar k r = Some (cid, r1)" by (cases a) auto
  show ?thesis
  proof (cases "map_of (factories t) (readCString r1)")
    case None
    with a assms show ?thesis by (simp add: on_create_def transport_ok_def Let_def)
  next
    case (Some l0)
    with assms have "linv l0" "winv (world t)" by (auto simp: transport_ok_def)
    then have "\<And>l w ms. lopen ops l0 (world t) = (l, w, ms) \<Longrightarrow> linv l \<and> winv w"
      by (rule open_inv)
    with a Some assms show ?thesis
      by (auto simp: on_create_def transport_ok_def chan_ok_def Let_def split: prod.split)
  qed
qed (simp add: on_create_def assms)

lemma data_first_ok:
  assumes "transport_ok linv winv t"
  shows "transport_ok linv winv (on_data_first ops k sp r t)"
  using assms
  by (auto simp: on_data_first_def Let_def transport_ok_def [of _ _ t] chan_ok_def
      intro!: hand_over_ok set_chan_ok split: option.split prod.split)

lemma data_ok:
  assumes "transport_ok linv winv t"
  shows "transport_ok linv winv (on_data ops k r t)"
  using assms
  by (auto simp: on_data_def Let_def transport_ok_def [of _ _ t] chan_ok_def
      intro!: hand_over_ok set_chan_ok split: option.split prod.split)

lemma closing_ok:
  assumes "transport_ok linv winv t"
  shows "transport_ok linv winv (on_close ops k r t)"
  using assms close_inv
  by (auto simp: on_close_def transport_ok_def chan_ok_def delete_conv' split: option.split prod.split)

lemma process_ok: "transport_ok linv winv t \<Longrightarrow> transport_ok linv winv (dvc_process ops s t)"
  using create_ok [of t] data_first_ok [of t] data_ok [of t] closing_ok [of t]
  by (auto simp: dvc_process_def Let_def transport_ok_def [of _ _ "pdu_write _ t"]
      transport_ok_def [of _ _ t] split: list.split)

lemma process_all_ok: "transport_ok linv winv t \<Longrightarrow> transport_ok linv winv (dvc_process_all ops ss t)"
  unfolding dvc_process_all_def by (induction ss arbitrary: t) (simp_all add: process_ok)

end

end
