(* ===== verification/Audin.thy ===== *)
theory Audin
  imports Dvc AudioFormat
begin

text \<open>
  \<open>internal/dvc/audin.go\<close>: the microphone channel (\<open>AUDIO_INPUT\<close>,
  [MS-RDPEAI]) as a listener of the dynamic channel transport. The recorder is
  Go's interface \<open>Recorder\<close>: a state \<open>'w\<close> with \<open>Start\<close>, which may
  fail, and \<open>Stop\<close>; both are arguments. What the recording goroutine
  delivers is \<open>deliver\<close>.
\<close>

definition msgVersion :: byte where "msgVersion = 0x01"
definition msgFormats :: byte where "msgFormats = 0x02"
definition msgOpen :: byte where "msgOpen = 0x03"
definition msgOpenReply :: byte where "msgOpenReply = 0x04"
definition msgDataIncoming :: byte where "msgDataIncoming = 0x05"
definition msgData :: byte where "msgData = 0x06"
definition msgFormatChange :: byte where "msgFormatChange = 0x07"
definition audinVersion :: u32 where "audinVersion = 1"
definition defaultFrames :: int where "defaultFrames = 1024"
definition maxPacketSeconds :: int where "maxPacketSeconds = 1"

lemmas audin_msgs = msgVersion_def msgFormats_def msgOpen_def msgOpenReply_def
  msgDataIncoming_def msgData_def msgFormatChange_def

record audio_input =
  in_formats :: "format list"
  frames :: int

definition new_audio_input :: audio_input where
  "new_audio_input = \<lparr>in_formats = [], frames = 0\<rparr>"

record 'w recorder =
  rec_start :: "format \<Rightarrow> int \<Rightarrow> 'w \<Rightarrow> 'w \<times> bool"   \<comment> \<open>\<open>True\<close>: no error\<close>
  rec_stop :: "'w \<Rightarrow> 'w"

definition packet_bytes :: "format \<Rightarrow> int \<Rightarrow> int" where
  "packet_bytes f n =
     (let frames = (if n \<le> 0 \<or> n > uint (SamplesPerSec f) * maxPacketSeconds then defaultFrames else n)
      in go_div (frames * uint (Channels f) * uint (BitsPerSample f)) 8)"

definition startFormat ::
  "'w recorder \<Rightarrow> u32 \<Rightarrow> bool \<Rightarrow> audio_input \<Rightarrow> 'w \<Rightarrow> 'w \<times> bytes list" where
  "startFormat rcd idx opening a w =
     (let change = [msgFormatChange] @ le32 idx;
          (w', result) =
            (if length (in_formats a) \<le> unat idx then (w, 0x80004005 :: u32)
             else let f = in_formats a ! unat idx;
                      (w1, started) = rec_start rcd f (packet_bytes f (frames a)) w
                  in (w1, if started then 0 else 0x80004005))
      in (w', [change] @ (if opening then [[msgOpenReply] @ le32 result] else [])))"

definition formats_answer :: "format list \<Rightarrow> bytes" where
  "formats_answer fs =
     (let body = concat (map write_format fs)
      in [msgFormats] @ le32 (word_of_nat (length fs)) @ le32 (word_of_nat (9 + length body)) @ body)"

definition audin_data ::
  "'w recorder \<Rightarrow> bytes \<Rightarrow> audio_input \<Rightarrow> 'w \<Rightarrow> audio_input \<times> 'w \<times> bytes list" where
  "audin_data rcd b a w =
     (case b of [] \<Rightarrow> (a, w, [])
      | m # r \<Rightarrow>
        if m = msgVersion then (a, w, [[msgVersion] @ le32 audinVersion])
        else if m = msgFormats then
          let (n, r1) = (case rd_le32 r of None \<Rightarrow> (0, []) | Some p \<Rightarrow> p);
              r2 = (case rd_le32 r1 of None \<Rightarrow> [] | Some (_, r') \<Rightarrow> r');
              fs = filter playable (read_upto read_format (unat n) r2)
          in (a\<lparr>in_formats := fs\<rparr>, w, [formats_answer fs])
        else if m = msgOpen then
          (case rd_le32 r of None \<Rightarrow> (a, w, [])
           | Some (fpp, r1) \<Rightarrow>
             (case rd_le32 r1 of None \<Rightarrow> (a, w, [])
              | Some (idx, _) \<Rightarrow>
                let a1 = a\<lparr>frames := uint fpp\<rparr>; (w', ms) = startFormat rcd idx True a1 w
                in (a1, w', ms)))
        else if m = msgFormatChange then
          (case rd_le32 r of None \<Rightarrow> (a, w, [])
           | Some (idx, _) \<Rightarrow> let (w', ms) = startFormat rcd idx False a w in (a, w', ms))
        else (a, w, []))"

definition audin_ops :: "'w recorder \<Rightarrow> (audio_input, 'w) listener_ops" where
  "audin_ops rcd = \<lparr>lopen = \<lambda>a w. (a, w, []), ldata = audin_data rcd, lclose = \<lambda>_. rec_stop rcd\<rparr>"

definition deliver :: "bytes \<Rightarrow> bytes list" where
  "deliver samples = [[msgDataIncoming], msgData # samples]"

section \<open>Packets\<close>

lemma playable_cases:
  assumes "playable f"
  obtains c b where "uint (Channels f) = c" "uint (BitsPerSample f) = 8 * b" "c = 1 \<or> c = 2"
    "b = 1 \<or> b = 2" "8000 \<le> uint (SamplesPerSec f)" "uint (SamplesPerSec f) \<le> 192000"
  using assms by (auto simp: playable_def word_le_def intro: that [of 1 1] that [of 1 2] that [of 2 1] that [of 2 2])

lemma packet_within:
  assumes "playable f"
  shows "0 < packet_bytes f n \<and> packet_bytes f n \<le> bytes_per_second f \<and>
    packet_bytes f n mod (uint (Channels f) * (uint (BitsPerSample f) div 8)) = 0"
proof -
  obtain c b where f: "uint (Channels f) = c" "uint (BitsPerSample f) = 8 * b" "c = 1 \<or> c = 2"
    "b = 1 \<or> b = 2" "8000 \<le> uint (SamplesPerSec f)"
    using assms by (rule playable_cases)
  define k where "k = (if n \<le> 0 \<or> n > uint (SamplesPerSec f) then 1024 else n)"
  have k: "0 < k" "k \<le> uint (SamplesPerSec f)"
    using f(5) by (auto simp: k_def)
  have pb: "packet_bytes f n = k * (c * b)"
    using f(3,4) unfolding packet_bytes_def k_def f(1,2) maxPacketSeconds_def defaultFrames_def by auto
  have bps: "bytes_per_second f = uint (SamplesPerSec f) * (c * b)"
    using f(3,4) unfolding bytes_per_second_def f(1,2) by auto
  have cb: "0 < c * b" using f(3,4) by auto
  show ?thesis
    unfolding pb bps using k cb f(1,2) by (simp add: mult_right_mono)
qed

lemma playable_packet: "playable f \<Longrightarrow> 0 < packet_bytes f n \<and> packet_bytes f n \<le> bytes_per_second f"
  using packet_within [of f n] by simp

text \<open>A packet the recorder is asked for always fits the stream: it is some
  whole number of samples of all channels, never empty, and never more than one
  second of sound, whatever number of frames the server asks for.\<close>

theorem packet_bounds:
  assumes "playable f"
  shows "0 < packet_bytes f n \<and> packet_bytes f n \<le> bytes_per_second f \<and>
    packet_bytes f n mod (uint (Channels f) * (uint (BitsPerSample f) div 8)) = 0"
  using assms by (rule packet_within)

theorem packet_bounds_witness:
  "0 < packet_bytes (zero_format\<lparr>Tag := 1, Channels := 2, SamplesPerSec := 44100, BitsPerSample := 16\<rparr>) 5000"
  using packet_bounds [of "zero_format\<lparr>Tag := 1, Channels := 2, SamplesPerSec := 44100, BitsPerSample := 16\<rparr>" 5000]
  by (simp add: playable_def zero_format_def FormatPCM_def)

section \<open>The listener's contract\<close>

text \<open>Any invariant of the recorder that stopping keeps, and starting in a
  playable format with a packet in its bounds keeps, holds through every session:
  the channel is an instance of the transport's listener contract.\<close>

definition playable_formats :: "audio_input \<Rightarrow> bool" where
  "playable_formats a \<longleftrightarrow> (\<forall>f \<in> set (in_formats a). playable f)"

locale recording =
  fixes rcd :: "'w recorder" and winv :: "'w \<Rightarrow> bool"
  assumes start_inv: "winv w \<Longrightarrow> playable f \<Longrightarrow> 0 < n \<Longrightarrow> n \<le> bytes_per_second f \<Longrightarrow>
      winv (fst (rec_start rcd f n w))"
    and stop_inv: "winv w \<Longrightarrow> winv (rec_stop rcd w)"
begin

lemma startFormat_inv:
  assumes "winv w" "playable_formats a"
  shows "winv (fst (startFormat rcd idx opening a w))"
proof (cases "length (in_formats a) \<le> unat idx")
  case False
  let ?f = "in_formats a ! unat idx"
  have "playable ?f" using assms(2) False by (simp add: playable_formats_def)
  then have "winv (fst (rec_start rcd ?f (packet_bytes ?f (frames a)) w))"
    using assms(1) playable_packet [of ?f] by (intro start_inv) auto
  then show ?thesis
    using False by (auto simp: startFormat_def Let_def split: prod.split)
qed (simp add: startFormat_def assms)

lemma startFormat_keeps:
  "startFormat rcd idx opening a w = (w', ms) \<Longrightarrow> winv w \<Longrightarrow> playable_formats a \<Longrightarrow> winv w'"
  using startFormat_inv [of w a] by (metis fst_conv)

lemma data_keeps:
  assumes "winv w" "playable_formats a" "audin_data rcd b a w = (a', w', ms)"
  shows "playable_formats a' \<and> winv w'"
  using assms
  by (auto simp: audin_data_def Let_def playable_formats_def
      intro: startFormat_keeps [unfolded playable_formats_def]
      split: list.splits if_splits option.splits prod.splits)

end

sublocale recording \<subseteq> mic: dvc_listener "audin_ops rcd" playable_formats winv
  by unfold_locales (auto simp: audin_ops_def dest: data_keeps intro: stop_inv)

lemma new_input_playable [simp]: "playable_formats new_audio_input"
  by (simp add: new_audio_input_def playable_formats_def)

section \<open>What the server learns\<close>

text \<open>The server's choice of a format: an index the kiosk has announced
  starts the recorder in exactly that format, any other index reaches no
  recorder; the choice is always echoed, and the reply to an open is success
  exactly when the recorder has started.\<close>

lemma format_choice_answered:
  "startFormat rcd idx opening a w =
     (let picked = unat idx < length (in_formats a);
          f = in_formats a ! unat idx;
          (w1, started) = rec_start rcd f (packet_bytes f (frames a)) w;
          result = (if picked \<and> started then 0 else 0x80004005)
      in (if picked then w1 else w,
          (msgFormatChange # le32 idx) # (if opening then [msgOpenReply # le32 result] else [])))"
  by (simp add: startFormat_def Let_def not_less split: prod.split)

definition answered_formats :: "bytes \<Rightarrow> format list" where
  \<comment> \<open>how the server reads the answer\<close>
  "answered_formats b =
     (case rd_le32 (tl b) of None \<Rightarrow> [] | Some (n, r) \<Rightarrow>
        (case rd_le32 r of None \<Rightarrow> [] | Some (_, r') \<Rightarrow> read_upto read_format (unat n) r'))"

text \<open>The kiosk's view and the server's view of the formats agree: whatever
  bytes the server's list is, the answer to it carries exactly the formats the
  kiosk keeps, all of them playable, in the order the server gave them.\<close>

lemma audin_formats_agree:
  assumes "audin_data rcd (msgFormats # r) a w = (a', w', ms)"
  shows "\<exists>answer. ms = [answer] \<and> hd answer = msgFormats \<and> answered_formats answer = in_formats a' \<and>
    w' = w \<and> (\<forall>f \<in> set (in_formats a'). playable f)"
proof -
  define n where "n = fst (case rd_le32 r of None \<Rightarrow> (0, []) | Some p \<Rightarrow> p)"
  define r1 where "r1 = snd (case rd_le32 r of None \<Rightarrow> (0, []) | Some p \<Rightarrow> p)"
  define r2 where "r2 = (case rd_le32 r1 of None \<Rightarrow> [] | Some (_, r') \<Rightarrow> r')"
  define fs where "fs = filter playable (read_upto read_format (unat n) r2)"
  have "length fs \<le> unat n"
    unfolding fs_def using length_filter_le length_read_upto le_trans by blast
  then have len: "length fs < 2 ^ 32"
    using unsigned_less [of n, where 'a = nat] by simp
  have ok: "\<forall>f \<in> set fs. format_ok f"
    unfolding fs_def using read_formats_ok by auto
  have "read_upto read_format (length fs) (concat (map write_format fs) @ []) = fs"
    using ok by (rule wf.read_exact_enc)
  then have "answered_formats (formats_answer fs) = fs"
    using len by (simp add: answered_formats_def formats_answer_def Let_def unat_of_nat take_bit_nat_eq_self_iff)
  moreover have "a' = a\<lparr>in_formats := fs\<rparr> \<and> w' = w \<and> ms = [formats_answer fs]"
    using assms by (auto simp: audin_data_def audin_msgs fs_def r2_def r1_def n_def Let_def split: prod.splits)
  ultimately show ?thesis
    by (simp add: formats_answer_def Let_def fs_def)
qed

lemma audin_formats_agree_example:
  "\<exists>f answer. playable f \<and> formats_answer [f] = answer \<and> answered_formats answer = [f]"
proof -
  define f where "f = \<lparr>Tag = FormatPCM, Channels = 1, SamplesPerSec = 44100,
      AvgBytesPerSec = 88200, BlockAlign = 2, BitsPerSample = 16, Extra = []\<rparr>"
  have ok: "format_ok f" "playable f" by (simp_all add: f_def format_ok_def playable_def FormatPCM_def)
  have "read_upto read_format (length [f]) (concat (map write_format [f]) @ []) = [f]"
    by (rule wf.read_exact_enc) (simp add: ok)
  then have d: "audin_data rcd (msgFormats # le32 1 @ le32 9 @ write_format f) new_audio_input () =
      (new_audio_input\<lparr>in_formats := [f]\<rparr>, (), [formats_answer [f]])" for rcd :: "unit recorder"
    by (simp add: audin_data_def audin_msgs ok Let_def)
  show ?thesis
    using audin_formats_agree [OF d] ok by auto
qed

end
