(* ===== verification/BootEnv.thy ===== *)
theory BootEnv
  imports GoStrings
begin

text \<open>
  \<open>internal/bootenv/bootenv.go\<close>: the environment block GRUB and the kiosk
  share, what a boot was started with, and the changes the kiosk makes. Files
  are strings; the variables (Go's \<open>map[string]string\<close>) are an association
  list. What the operating system answers (whether a write, a sync or a rename
  works, and how far a failing write gets) is the argument \<open>io\<close>.
\<close>

type_synonym env = "(string \<times> string) list"

datatype env_error =
  NotGrubEnv | CannotStore string string | TooBig nat nat | IoError | NoEnv

definition env_get :: "env \<Rightarrow> string \<Rightarrow> string" where
  \<comment> \<open>\<open>env[k]\<close>, the empty string where there is none\<close>
  "env_get env k = (case map_of env k of Some v \<Rightarrow> v | None \<Rightarrow> [])"

definition env_set :: "string \<Rightarrow> string \<Rightarrow> env \<Rightarrow> env" where
  "env_set k v env = AList.update k v env"

definition env_del :: "string \<Rightarrow> env \<Rightarrow> env" where
  "env_del k env = AList.delete k env"

definition env_equal :: "env \<Rightarrow> env \<Rightarrow> bool" where
  \<comment> \<open>\<open>maps.Equal\<close>\<close>
  "env_equal a b \<longleftrightarrow>
     (\<forall>k \<in> set (map fst a @ map fst b). map_of a k = map_of b k)"

section \<open>The file\<close>

definition header :: string where
  "header = ''# GRUB Environment Block'' @ [newline]"

definition parse_line :: "env \<Rightarrow> string \<Rightarrow> env" where
  "parse_line env line =
     (if line = [] \<or> hd line = CHR ''#'' then env
      else (case cut_at CHR ''='' line of Some (k, v) \<Rightarrow> env_set k v env | None \<Rightarrow> env))"

definition env_parse :: "string \<Rightarrow> env_error + env" where
  "env_parse s =
     (if \<not> has_prefix s header then Inl NotGrubEnv
      else Inr (foldl parse_line [] (split_on newline (drop (length header) s))))"

definition contains_any :: "string \<Rightarrow> string \<Rightarrow> bool" where
  "contains_any s cs \<longleftrightarrow> list_ex (\<lambda>c. c \<in> set cs) s"

definition storable :: "string \<Rightarrow> string \<Rightarrow> bool" where
  "storable k v \<longleftrightarrow> k \<noteq> [] \<and> \<not> contains_any k [CHR ''='', newline, CHR 0x5C] \<and>
     \<not> contains_any v [newline, CHR 0x5C]"

definition env_line :: "env \<Rightarrow> string \<Rightarrow> string" where
  "env_line env k = k @ ''='' @ env_get env k @ [newline]"

definition env_encode :: "env \<Rightarrow> nat \<Rightarrow> env_error + string" where
  "env_encode env n =
     (let keys = sort (remdups (map fst env))
      in case find (\<lambda>k. \<not> storable k (env_get env k)) keys of
           Some k \<Rightarrow> Inl (CannotStore k (env_get env k))
         | None \<Rightarrow>
             let b = header @ concat (map (env_line env) keys)
             in if n < length b then Inl (TooBig (length b) n)
                else Inr (b @ replicate (n - length b) CHR ''#''))"

record env_io =
  io_read :: bool              \<comment> \<open>\<open>ReadFile\<close> works\<close>
  io_open :: bool
  io_wrote :: "nat option"     \<comment> \<open>\<open>Some n\<close>: \<open>WriteAt\<close> fails after \<open>n\<close> bytes\<close>
  io_sync :: bool
  io_close :: bool
  io_rename :: bool

definition io_works :: env_io where
  "io_works = \<lparr>io_read = True, io_open = True, io_wrote = None, io_sync = True, io_close = True,
     io_rename = True\<rparr>"

definition env_modify ::
  "env_io \<Rightarrow> string option \<Rightarrow> (env \<Rightarrow> env) \<Rightarrow> string option \<times> env_error option" where
  \<comment> \<open>\<open>Modify\<close>: the file afterwards and the error returned; \<open>None\<close> is no file\<close>
  "env_modify io file fn =
     (case file of
        None \<Rightarrow> (file, Some IoError)
      | Some old \<Rightarrow>
        if \<not> io_read io then (file, Some IoError)
        else case env_parse old of
          Inl e \<Rightarrow> (file, Some e)
        | Inr before \<Rightarrow>
          let env = fn before
          in if env_equal before env then (file, None)
             else case env_encode env (length old) of
               Inl e \<Rightarrow> (file, Some e)
             | Inr b \<Rightarrow>
               if \<not> io_open io then (file, Some IoError)
               else case io_wrote io of
                 Some n \<Rightarrow> (Some (take n b @ drop n old), Some IoError)
               | None \<Rightarrow> (Some b, if io_sync io \<and> io_close io then None else Some IoError))"

section \<open>What a boot was started with\<close>

record boot =
  Slot :: string
  Kernel :: string
  GfxSafe :: string
  ESP :: string

definition Installed :: "boot \<Rightarrow> bool" where "Installed b \<longleftrightarrow> Slot b \<noteq> []"

definition Other :: "boot \<Rightarrow> string" where
  "Other b = (if Slot b = ''A'' then ''B'' else ''A'')"

definition boot_arg :: "boot \<Rightarrow> string \<Rightarrow> boot" where
  "boot_arg b f =
     (let b1 = (case cut_prefix f ''sc.slot='' of Some v \<Rightarrow> b\<lparr>Slot := v\<rparr> | None \<Rightarrow> b);
          b2 = (case cut_prefix f ''sc.kernel='' of Some v \<Rightarrow> b1\<lparr>Kernel := v\<rparr> | None \<Rightarrow> b1);
          b3 = (case cut_prefix f ''sc.gfxsafe='' of Some v \<Rightarrow> b2\<lparr>GfxSafe := v\<rparr> | None \<Rightarrow> b2)
      in case cut_prefix f ''sc.esp='' of Some v \<Rightarrow> b3\<lparr>ESP := v\<rparr> | None \<Rightarrow> b3)"

definition current_boot :: "string \<Rightarrow> boot" where
  \<comment> \<open>\<open>Current\<close>, on the contents of \<open>/proc/cmdline\<close>\<close>
  "current_boot cmdline =
     foldl boot_arg \<lparr>Slot = [], Kernel = [], GfxSafe = [], ESP = []\<rparr> (str_fields cmdline)"

definition SafeGraphics :: "boot \<Rightarrow> string \<Rightarrow> bool" where
  "SafeGraphics b gpus \<longleftrightarrow>
     list_ex (\<lambda>s. s = ''once'' \<or> (s \<noteq> [] \<and> s = gpus)) (split_on CHR '','' (GfxSafe b))"

definition LeftSafe :: "boot \<Rightarrow> string \<Rightarrow> bool" where
  "LeftSafe b gpus \<longleftrightarrow>
     gpus \<noteq> [] \<and> \<not> list_ex (\<lambda>s. s = ''once'') (split_on CHR '','' (GfxSafe b)) \<and> SafeGraphics b gpus"

record pci_device =
  pci_class :: string
  pci_vendor :: string
  pci_device :: string

definition pci_read :: "string \<Rightarrow> string" where
  "pci_read s = trim_prefix (trim_space s) ''0x''"

definition GPUs :: "pci_device list \<Rightarrow> string" where
  "GPUs devs =
     join_with ''+'' (sort (map (\<lambda>d. pci_read (pci_vendor d) @ '':'' @ pci_read (pci_device d))
       (filter (\<lambda>d. has_prefix (pci_read (pci_class d)) ''03'') devs)))"

section \<open>The kiosk's changes\<close>

definition maxGPUSets :: nat where "maxGPUSets = 6"
definition safeRetryEvery :: int where "safeRetryEvery = 10"

fun keep_new :: "string list \<Rightarrow> string list \<Rightarrow> string list" where
  \<comment> \<open>the loop of \<open>compactGPUs\<close>: \<open>out\<close> and what is left of the list\<close>
  "keep_new out [] = out"
| "keep_new out (s # ss) =
     (if s \<noteq> [] \<and> s \<noteq> ''once'' \<and> s \<notin> set out then keep_new (out @ [s]) ss else keep_new out ss)"

definition compactGPUs :: "string \<Rightarrow> string" where
  "compactGPUs list =
     (let out = keep_new [] (split_on CHR '','' list)
      in join_with '','' (if maxGPUSets < length out then drop (length out - maxGPUSets) out else out))"

definition retryGPUs :: "string \<Rightarrow> env \<Rightarrow> env" where
  "retryGPUs gpus env =
     (let keep = filter (\<lambda>s. s \<noteq> [] \<and> s \<noteq> gpus) (split_on CHR '','' (env_get env ''sc_gfxsafe''))
      in env_del ''sc_gfxsafeboots''
           (env_set ''sc_gfxfail'' gpus (env_set ''sc_gfxsafe'' (join_with '','' keep) env)))"

definition markGood :: "boot \<Rightarrow> string \<Rightarrow> bool \<Rightarrow> env \<Rightarrow> env \<times> bool" where
  "markGood b gpus newLoader env0 =
     (let env1 = env_set ''sc_gfxtry'' [] (env_set ''sc_kpending'' ''0'' env0);
          env2 = (case map_of env1 ''sc_gfxsafe'' of
                    Some s \<Rightarrow> env_set ''sc_gfxsafe'' (compactGPUs s) env1 | None \<Rightarrow> env1);
          (env3, retry) =
            (if newLoader
             then (env_del ''sc_gfxsafeboots'' (env_set ''sc_gfxfail'' [] (env_set ''sc_gfxsafe'' [] env2)),
                   LeftSafe b gpus)
             else if LeftSafe b gpus
             then let n = atoi_or (env_get env2 ''sc_gfxsafeboots'')
                  in if safeRetryEvery \<le> n + 1 then (retryGPUs gpus env2, False)
                     else (env_set ''sc_gfxsafeboots'' (itoa (n + 1)) env2, False)
             else (env2, False));
          env4 = (if Kernel b = ''new'' \<or> Kernel b = ''lts'' then env_set ''sc_kernel'' (Kernel b) env3 else env3);
          env5 = (if Installed b then env_set ''sc_boot'' (Slot b) env4 else env4)
      in (env5, retry))"

section \<open>The medium\<close>

text \<open>The medium a boot came from: its grubenv and, on a disk install, the GRUB
  script beside it. \<open>None\<close> as a medium is one that cannot be found
  (\<open>errNoEnv\<close>).\<close>

record medium =
  grubenv :: "string option"
  grub_cfg :: "string option"

definition newLoader :: "string option \<Rightarrow> string option \<Rightarrow> string option" where
  \<comment> \<open>the release's script and the medium's\<close>
  "newLoader want have =
     (case want of None \<Rightarrow> None
      | Some w \<Rightarrow> if w = [] \<or> have = Some w then None else Some w)"

definition replaceFile :: "env_io \<Rightarrow> string \<Rightarrow> string option \<Rightarrow> string option \<times> env_error option" where
  "replaceFile io data old =
     (if io_open io \<and> io_wrote io = None \<and> io_sync io \<and> io_close io \<and> io_rename io
      then (Some data, None) else (old, Some IoError))"

definition withEnv ::
  "env_io \<Rightarrow> (env \<Rightarrow> env) \<Rightarrow> medium option \<Rightarrow> medium option \<times> env_error option" where
  "withEnv io fn med =
     (case med of None \<Rightarrow> (None, Some NoEnv)
      | Some m \<Rightarrow> let (f, e) = env_modify io (grubenv m) fn in (Some (m\<lparr>grubenv := f\<rparr>), e))"

definition MarkGood ::
  "env_io \<Rightarrow> env_io \<Rightarrow> boot \<Rightarrow> string \<Rightarrow> string option \<Rightarrow> medium option \<Rightarrow>
     medium option \<times> bool \<times> env_error option" where
  \<comment> \<open>\<open>io'\<close> is for the script's own file; the result is the medium, \<open>retry\<close>
    and the error\<close>
  "MarkGood io io' b gpus release med =
     (case med of None \<Rightarrow> (None, False, None)
      | Some m \<Rightarrow>
        let loader = (if Installed b then newLoader release (grub_cfg m) else None);
            fn = (\<lambda>env. fst (markGood b gpus (loader \<noteq> None) env));
            (f, e) = env_modify io (grubenv m) fn;
            retry = (case grubenv m of
                       Some old \<Rightarrow> (if io_read io then (case env_parse old of
                            Inr env \<Rightarrow> snd (markGood b gpus (loader \<noteq> None) env) | Inl _ \<Rightarrow> False) else False)
                     | None \<Rightarrow> False)
        in case (e, loader) of
             (None, Some l) \<Rightarrow>
               let (c, e') = replaceFile io' l (grub_cfg m)
               in (Some (m\<lparr>grubenv := f, grub_cfg := c\<rparr>), retry, e')
           | _ \<Rightarrow> (Some (m\<lparr>grubenv := f\<rparr>), retry, e))"

definition GraphicsTry :: "env_io \<Rightarrow> string \<Rightarrow> medium option \<Rightarrow> medium option \<times> bool" where
  "GraphicsTry io gpus med =
     (let (m, e) = withEnv io (env_set ''sc_gfxtry'' gpus) med in (m, e = None))"

definition GraphicsOK :: "env_io \<Rightarrow> medium option \<Rightarrow> medium option \<times> env_error option" where
  "GraphicsOK io = withEnv io (\<lambda>env. env_set ''sc_gfxfail'' [] (env_set ''sc_gfxtry'' [] env))"

definition RetryGraphics ::
  "env_io \<Rightarrow> boot \<Rightarrow> string \<Rightarrow> medium option \<Rightarrow> medium option \<times> env_error option" where
  "RetryGraphics io b gpus med =
     (if \<not> LeftSafe b gpus then (med, None) else withEnv io (retryGPUs gpus) med)"

definition TryOther :: "env_io \<Rightarrow> boot \<Rightarrow> medium option \<Rightarrow> medium option \<times> env_error option" where
  "TryOther io b med =
     (if \<not> Installed b then (med, Some NoEnv)
      else withEnv io (env_set ''sc_try'' (Other b)) med)"

text \<open>The file systems of the machine: what \<open>findfs\<close> finds by \<open>UUID=\<close> and
  \<open>LABEL=\<close>. \<open>SlotDevice\<close> and \<open>LiveDevice\<close> pick from them.\<close>

definition Find :: "(string \<Rightarrow> string option) \<Rightarrow> string \<Rightarrow> string \<Rightarrow> string option" where
  "Find findfs uuid label =
     findfs (if uuid = [] then ''LABEL='' @ label else ''UUID='' @ uuid)"

definition SlotDevice :: "(string \<Rightarrow> string option) \<Rightarrow> env \<Rightarrow> string \<Rightarrow> string option" where
  "SlotDevice findfs env slot = Find findfs (env_get env (''sc_'' @ to_lower slot)) (''SC_'' @ slot)"

definition LiveDevice :: "(string \<Rightarrow> string option) \<Rightarrow> string option" where
  "LiveDevice findfs =
     (case Find findfs [] ''SC_EFI'' of Some d \<Rightarrow> Some d | None \<Rightarrow> Find findfs [] ''SIMPLECLIEN'')"

definition medium_device :: "(string \<Rightarrow> string option) \<Rightarrow> boot \<Rightarrow> string option" where
  \<comment> \<open>the device \<open>withMedium\<close> mounts\<close>
  "medium_device findfs b =
     (if Installed b then Find findfs (ESP b) ''SC_ESP'' else LiveDevice findfs)"

section \<open>Lookups\<close>

lemma env_get_simps [simp]:
  "env_get (env_set k v env) k' = (if k' = k then v else env_get env k')"
  "env_get (env_del k env) k' = (if k' = k then [] else env_get env k')"
  "map_of (env_set k v env) k' = (if k' = k then Some v else map_of env k')"
  "map_of (env_del k env) k' = (if k' = k then None else map_of env k')"
  by (simp_all add: env_get_def env_set_def env_del_def update_conv' delete_conv')

lemma env_equal_iff: "env_equal a b \<longleftrightarrow> map_of a = map_of b"
proof
  assume eq: "env_equal a b"
  show "map_of a = map_of b"
  proof
    fix k
    show "map_of a k = map_of b k"
    proof (cases "k \<in> set (map fst a @ map fst b)")
      case True
      with eq show ?thesis by (simp add: env_equal_def)
    next
      case False
      then have "map_of a k = None" "map_of b k = None"
        by (auto simp: map_of_eq_None_iff)
      then show ?thesis by simp
    qed
  qed
qed (simp add: env_equal_def)

lemma env_get_map_of: "map_of a = map_of b \<Longrightarrow> env_get a = env_get b"
  by (auto simp: env_get_def)

section \<open>The file is written and read back\<close>

lemma split_lines:
  "\<forall>l \<in> set ls. newline \<notin> set l \<Longrightarrow>
   split_on newline (concat (map (\<lambda>l. l @ [newline]) ls) @ t) = ls @ split_on newline t"
  by (induction ls) simp_all

lemma storable_chars:
  assumes "storable k v"
  shows "k \<noteq> []" "CHR ''='' \<notin> set k" "newline \<notin> set k" "newline \<notin> set v"
  using assms by (auto simp: storable_def contains_any_def list_ex_iff)

lemma parse_env_line:
  assumes "storable k v" "hd k \<noteq> CHR ''#''"
  shows "parse_line env (k @ ''='' @ v) = env_set k v env"
  using storable_chars [OF assms(1)] assms(2) by (simp add: parse_line_def)

lemma foldl_env_set:
  "map_of (foldl (\<lambda>e k. env_set k (f k) e) e0 ks) x = (if x \<in> set ks then Some (f x) else map_of e0 x)"
  by (induction ks arbitrary: e0) auto

lemma parse_lines:
  assumes "\<forall>k \<in> set ks. storable k (f k) \<and> hd k \<noteq> CHR ''#''"
  shows "foldl parse_line e0 (map (\<lambda>k. k @ ''='' @ f k) ks) = foldl (\<lambda>e k. env_set k (f k) e) e0 ks"
  using assms
proof (induction ks arbitrary: e0)
  case (Cons k ks)
  then show ?case using parse_env_line [of k "f k" e0] by simp
qed simp

lemma parse_padding: "foldl parse_line e (split_on newline (replicate m CHR ''#'')) = e"
  by (cases m) (simp_all add: split_on_no_sep parse_line_def)

lemma encode_InrD:
  assumes "env_encode env n = Inr s"
  shows "length s = n" "\<forall>k \<in> fst ` set env. storable k (env_get env k)"
    "\<exists>m. s = header @ concat (map (env_line env) (sort (remdups (map fst env)))) @ replicate m CHR ''#''"
  using assms
  by (auto simp: env_encode_def Let_def find_None_iff split: option.splits if_splits)

text \<open>What the kiosk writes, GRUB and the kiosk read back: a grubenv that
  was encoded parses to exactly the variables it was encoded from, at exactly
  the size it had; an encoding that would change a variable is refused.\<close>

lemma env_round_trip:
  assumes "env_encode env n = Inr s" "\<forall>k \<in> fst ` set env. hd k \<noteq> CHR ''#''"
  shows "length s = n \<and> (\<exists>env'. env_parse s = Inr env' \<and> map_of env' = map_of env)"
proof -
  let ?ks = "sort (remdups (map fst env))"
  let ?l = "\<lambda>k. k @ ''='' @ env_get env k"
  obtain m where s: "s = header @ concat (map (env_line env) ?ks) @ replicate m CHR ''#''"
    using encode_InrD(3) [OF assms(1)] by blast
  have ok: "\<forall>k \<in> set ?ks. storable k (env_get env k) \<and> hd k \<noteq> CHR ''#''"
    using encode_InrD(2) [OF assms(1)] assms(2) by simp
  have "concat (map (env_line env) ?ks) = concat (map (\<lambda>l. l @ [newline]) (map ?l ?ks))"
    by (simp add: env_line_def [abs_def] comp_def)
  moreover have "\<forall>l \<in> set (map ?l ?ks). newline \<notin> set l"
    using ok storable_chars(3,4) by fastforce
  ultimately have "split_on newline (drop (length header) s) =
      map ?l ?ks @ split_on newline (replicate m CHR ''#'')"
    using split_lines [of "map ?l ?ks" "replicate m CHR ''#''"] unfolding s by (simp del: map_map)
  then have "env_parse s = Inr (foldl (\<lambda>e k. env_set k (env_get env k) e) [] ?ks)"
    using parse_lines [OF ok] by (simp add: env_parse_def s parse_padding)
  moreover have "map_of (foldl (\<lambda>e k. env_set k (env_get env k) e) [] ?ks) = map_of env"
  proof
    fix x
    have keys: "x \<in> set ?ks \<longleftrightarrow> (\<exists>v. map_of env x = Some v)"
      using map_of_eq_None_iff [of env x] by (cases "map_of env x") auto
    show "map_of (foldl (\<lambda>e k. env_set k (env_get env k) e) [] ?ks) x = map_of env x"
      unfolding foldl_env_set by (cases "x \<in> set ?ks") (use keys in \<open>auto simp: env_get_def\<close>)
  qed
  ultimately show ?thesis
    using encode_InrD(1) [OF assms(1)] by blast
qed

lemma env_round_trip_example:
  "\<exists>env'. env_parse (header @ ''sc_boot=A'' @ [newline] @ ''##'') = Inr env' \<and>
     map_of env' = map_of [(''sc_boot'', ''A'')]"
proof -
  have "env_encode [(''sc_boot'', ''A'')] 37 = Inr (header @ ''sc_boot=A'' @ [newline] @ ''##'')"
    by (simp add: env_encode_def storable_def contains_any_def env_line_def env_get_def header_def numeral_2_eq_2)
  then show ?thesis
    using env_round_trip [of "[(''sc_boot'', ''A'')]" 37] by simp
qed

text \<open>GRUB finds the file where it left it: whatever goes wrong, a change of
  the variables never changes the length of the file; a change reported as done
  has left exactly the encoding of the new variables, and one that changes no
  variable has left the file as it was.\<close>

lemma modify_in_place:
  assumes "env_modify io (Some old) fn = (file', err)"
  shows "\<exists>new. file' = Some new \<and> length new = length old \<and>
    (err = None \<longrightarrow> (\<exists>env. env_parse old = Inr env \<and>
        (map_of (fn env) = map_of env \<longrightarrow> new = old) \<and>
        (map_of (fn env) \<noteq> map_of env \<longrightarrow> env_encode (fn env) (length old) = Inr new)))"
proof (cases "io_read io")
  case True
  note io = this
  show ?thesis
  proof (cases "env_parse old")
    case (Inr env)
    note p = this
    show ?thesis
    proof (cases "env_encode (fn env) (length old)")
      case (Inr b)
      have "length b = length old" using encode_InrD(1) [OF Inr] .
      with io p Inr assms show ?thesis
        by (auto simp: env_modify_def env_equal_iff Let_def split: if_splits option.splits)
    next
      case (Inl e)
      with io p assms show ?thesis
        by (auto simp: env_modify_def env_equal_iff Let_def split: if_splits)
    qed
  qed (use io assms in \<open>auto simp: env_modify_def\<close>)
qed (use assms in \<open>auto simp: env_modify_def\<close>)

lemma modify_in_place_example:
  "\<exists>new. fst (env_modify (io_works\<lparr>io_wrote := Some 3\<rparr>) (Some (header @ ''######'')) (env_set ''a'' ''1'')) = Some new \<and>
     length new = length (header @ ''######'')"
proof -
  obtain f e where m: "env_modify (io_works\<lparr>io_wrote := Some 3\<rparr>) (Some (header @ ''######'')) (env_set ''a'' ''1'') = (f, e)"
    by fastforce
  from modify_in_place [OF m] m show ?thesis by auto
qed

section \<open>The remembered graphics adapters\<close>

text \<open>A list of GPU sets as the environment holds it, and the sets in it.\<close>

definition gpu_sets :: "string \<Rightarrow> string list" where
  "gpu_sets l = filter (\<lambda>s. s \<noteq> []) (split_on CHR '','' l)"

lemma keep_new_spec:
  "distinct out \<Longrightarrow> \<exists>new. keep_new out ss = out @ new \<and> distinct (out @ new) \<and>
     set (out @ new) = set out \<union> {s \<in> set ss. s \<noteq> [] \<and> s \<noteq> ''once''}"
proof (induction ss arbitrary: out)
  case (Cons s ss)
  show ?case
  proof (cases "s \<noteq> [] \<and> s \<noteq> ''once'' \<and> s \<notin> set out")
    case True
    then obtain new where "keep_new (out @ [s]) ss = (out @ [s]) @ new" "distinct ((out @ [s]) @ new)"
      "set ((out @ [s]) @ new) = set (out @ [s]) \<union> {s \<in> set ss. s \<noteq> [] \<and> s \<noteq> ''once''}"
      using Cons.IH [of "out @ [s]"] Cons.prems by auto
    with True show ?thesis
      by (intro exI [of _ "s # new"]) auto
  next
    case False
    then obtain new where "keep_new out ss = out @ new" "distinct (out @ new)"
      "set (out @ new) = set out \<union> {s \<in> set ss. s \<noteq> [] \<and> s \<noteq> ''once''}"
      using Cons.IH [OF Cons.prems] by auto
    moreover have "{x \<in> set (s # ss). x \<noteq> [] \<and> x \<noteq> ''once''} \<subseteq>
        set out \<union> {x \<in> set ss. x \<noteq> [] \<and> x \<noteq> ''once''}"
      using False by auto
    ultimately show ?thesis
      using False by (intro exI [of _ new]) (auto simp del: set_append)
  qed
qed simp

lemma keep_new_fixed:
  "distinct (out @ ss) \<Longrightarrow> \<forall>s \<in> set ss. s \<noteq> [] \<and> s \<noteq> ''once'' \<Longrightarrow> keep_new out ss = out @ ss"
  by (induction ss arbitrary: out) auto

lemma gpu_sets_join:
  assumes "\<forall>s \<in> set ss. s \<noteq> [] \<and> CHR '','' \<notin> set s"
  shows "gpu_sets (join_with '','' ss) = ss"
proof (cases "ss = []")
  case False
  then show ?thesis
    using assms by (simp add: gpu_sets_def split_join)
qed (simp add: gpu_sets_def)

lemma gpu_sets_members: "s \<in> set (gpu_sets l) \<Longrightarrow> s \<noteq> [] \<and> CHR '','' \<notin> set s"
  by (auto simp: gpu_sets_def dest: split_on_pieces)

lemma compact_sets:
  obtains out where "gpu_sets (compactGPUs l) = (if 6 < length out then drop (length out - 6) out else out)"
    "distinct out" "set out = set (gpu_sets l) - {''once''}"
    "compactGPUs l = join_with '','' (gpu_sets (compactGPUs l))"
proof -
  define out where "out = keep_new [] (split_on CHR '','' l)"
  obtain new where "out = new" "distinct new"
    "set new = {s \<in> set (split_on CHR '','' l). s \<noteq> [] \<and> s \<noteq> ''once''}"
    using keep_new_spec [of "[]" "split_on CHR '','' l"] by (auto simp: out_def)
  then have o: "distinct out" "set out = set (gpu_sets l) - {''once''}"
    by (auto simp: gpu_sets_def)
  let ?kept = "if 6 < length out then drop (length out - 6) out else out"
  have "set ?kept \<subseteq> set out" by (auto dest: in_set_dropD)
  with o have "\<forall>s \<in> set ?kept. s \<noteq> [] \<and> CHR '','' \<notin> set s"
    using gpu_sets_members by blast
  then have kept: "gpu_sets (join_with '','' ?kept) = ?kept" by (rule gpu_sets_join)
  have c: "compactGPUs l = join_with '','' ?kept"
    by (simp add: compactGPUs_def out_def [symmetric] maxGPUSets_def Let_def)
  show thesis
    by (rule that [OF _ o]) (simp_all only: c kept)
qed

lemma compactGPUs_fixed:
  assumes "distinct (gpu_sets l)" "length (gpu_sets l) \<le> 6" "''once'' \<notin> set (gpu_sets l)"
    "l = join_with '','' (gpu_sets l)"
  shows "compactGPUs l = l"
proof (cases "gpu_sets l = []")
  case True
  with assms(4) have "l = []" by simp
  then show ?thesis by (simp add: compactGPUs_def)
next
  case False
  then have "split_on CHR '','' l = gpu_sets l"
    using assms(4) gpu_sets_members [of _ l] by (metis split_join)
  moreover have "keep_new [] (gpu_sets l) = gpu_sets l"
    using assms gpu_sets_members [of _ l] by (subst keep_new_fixed) auto
  ultimately show ?thesis
    using assms by (simp add: compactGPUs_def maxGPUSets_def Let_def)
qed

text \<open>What GRUB appends stays bounded: the compacted list holds no set
  twice, none that was not in the list, at most six, all of them when there were
  no more, and compacting it again changes nothing.\<close>

theorem compactGPUs_bounded:
  "distinct (gpu_sets (compactGPUs l)) \<and> length (gpu_sets (compactGPUs l)) \<le> 6 \<and>
   set (gpu_sets (compactGPUs l)) \<subseteq> set (gpu_sets l) - {''once''} \<and>
   (card (set (gpu_sets l) - {''once''}) \<le> 6 \<longrightarrow>
     set (gpu_sets (compactGPUs l)) = set (gpu_sets l) - {''once''}) \<and>
   compactGPUs (compactGPUs l) = compactGPUs l"
proof -
  obtain out where o: "gpu_sets (compactGPUs l) = (if 6 < length out then drop (length out - 6) out else out)"
    "distinct out" "set out = set (gpu_sets l) - {''once''}"
    "compactGPUs l = join_with '','' (gpu_sets (compactGPUs l))"
    by (rule compact_sets)
  have d: "distinct (gpu_sets (compactGPUs l))" "length (gpu_sets (compactGPUs l)) \<le> 6"
    using o(1,2) by auto
  have sub: "set (gpu_sets (compactGPUs l)) \<subseteq> set (gpu_sets l) - {''once''}"
    using o(1-3) by (auto dest: in_set_dropD)
  have all: "card (set (gpu_sets l) - {''once''}) \<le> 6 \<Longrightarrow>
      set (gpu_sets (compactGPUs l)) = set (gpu_sets l) - {''once''}"
    using o(1,3) distinct_card [OF o(2)] by simp
  have "compactGPUs (compactGPUs l) = compactGPUs l"
    using d sub o(4) by (intro compactGPUs_fixed) auto
  with d sub all show ?thesis by blast
qed

theorem compactGPUs_bounded_witness:
  "gpu_sets (compactGPUs '',a,once,b,a'') = [''a'', ''b'']"
  using compactGPUs_bounded [of "'',a,once,b,a''"]
  by (simp add: compactGPUs_def gpu_sets_def maxGPUSets_def)

lemma gpu_sets_retry:
  "gpu_sets (env_get (retryGPUs g env) ''sc_gfxsafe'') =
   filter (\<lambda>s. s \<noteq> g) (gpu_sets (env_get env ''sc_gfxsafe''))"
proof -
  let ?l = "env_get env ''sc_gfxsafe''"
  have "gpu_sets (join_with '','' (filter (\<lambda>s. s \<noteq> [] \<and> s \<noteq> g) (split_on CHR '','' ?l))) =
      filter (\<lambda>s. s \<noteq> [] \<and> s \<noteq> g) (split_on CHR '','' ?l)"
    using split_on_pieces by (intro gpu_sets_join) auto
  then show ?thesis
    by (simp add: retryGPUs_def Let_def gpu_sets_def conj_commute)
qed

lemma SafeGraphics_sets:
  "SafeGraphics b g \<longleftrightarrow> ''once'' \<in> set (gpu_sets (GfxSafe b)) \<or> (g \<noteq> [] \<and> g \<in> set (gpu_sets (GfxSafe b)))"
  by (auto simp: SafeGraphics_def gpu_sets_def list_ex_iff)

lemma LeftSafe_sets:
  "LeftSafe b g \<longleftrightarrow> g \<noteq> [] \<and> g \<in> set (gpu_sets (GfxSafe b)) \<and> ''once'' \<notin> set (gpu_sets (GfxSafe b))"
  by (auto simp: LeftSafe_def SafeGraphics_sets gpu_sets_def list_ex_iff)

end
