(* ===== verification/BootLoader.thy ===== *)
theory BootLoader
  imports BootEnv
begin

text \<open>
  \<open>build/grub-disk.cfg\<close> and the command line of \<open>build/slot.cfg\<close>: what the
  boot loader does with the environment block, and the protocol it and the kiosk
  (\<open>BootEnv\<close>) run together across boots: updates tried once, kernels
  alternating until one comes up, graphics drivers given up after two failures
  in a row and retried later.
\<close>

section \<open>The GRUB script\<close>

text \<open>\<open>mem\<close> are the script's variables, \<open>file\<close> what is in the environment
  block. An unset variable is saved by removing it.\<close>

definition save_env :: "string list \<Rightarrow> env \<Rightarrow> env \<Rightarrow> env" where
  "save_env vs mem file =
     foldl (\<lambda>f v. case map_of mem v of Some x \<Rightarrow> env_set v x f | None \<Rightarrow> env_del v f) file vs"

definition grub_gfx :: "env \<Rightarrow> env \<times> env" where
  "grub_gfx file =
     (let try = env_get file ''sc_gfxtry'';
          m1 = (if try = env_get file ''sc_gfxfail''
                then env_set ''sc_gfxfail'' []
                       (env_set ''sc_gfxsafe'' (env_get file ''sc_gfxsafe'' @ '','' @ try) file)
                else env_set ''sc_gfxfail'' try file);
          m2 = env_set ''sc_kpending'' ''0'' (env_set ''sc_gfxtry'' [] m1)
      in if try \<noteq> [] then (m2, save_env [''sc_gfxsafe'', ''sc_gfxtry'', ''sc_gfxfail''] m2 file)
         else (file, file))"

definition other_kernel :: "string \<Rightarrow> string" where
  "other_kernel k = (if k = ''lts'' then ''new'' else ''lts'')"

definition grub_slot :: "env \<times> env \<Rightarrow> string \<times> env \<times> env" where
  "grub_slot mf =
     (let (mem, file) = mf
      in if env_get mem ''sc_try'' \<noteq> []
         then let m = env_set ''sc_try'' [] mem
              in (env_get mem ''sc_try'', m, save_env [''sc_try''] m file)
         else let m1 = (if env_get mem ''sc_kpending'' = ''1''
                        then env_set ''sc_kernel'' (other_kernel (env_get mem ''sc_kernel'')) mem else mem);
                  m2 = env_set ''sc_kpending'' ''1'' m1
              in (env_get mem ''sc_boot'', m2, save_env [''sc_kernel'', ''sc_kpending''] m2 file))"

datatype menu = Default | LtsKernel | SafeGfx | RetryDriver | PreviousVersion

record grub_choice =
  g_kernel :: string
  g_slot :: string
  g_gfxsafe :: string
  g_extra :: string

definition grub_start :: "menu \<Rightarrow> env \<Rightarrow> grub_choice \<times> env" where
  "grub_start choice file0 =
     (let (s0, mem, file) = grub_slot (grub_gfx file0);
          slot = (if s0 \<noteq> ''B'' then ''A'' else s0);
          other = (if slot = ''A'' then ''B'' else ''A'');
          kernel = (if env_get mem ''sc_kernel'' \<noteq> ''lts'' then ''new'' else env_get mem ''sc_kernel'');
          safe = env_get mem ''sc_gfxsafe''
      in case choice of
           Default \<Rightarrow> (\<lparr>g_kernel = kernel, g_slot = slot, g_gfxsafe = safe, g_extra = []\<rparr>, file)
         | LtsKernel \<Rightarrow> (\<lparr>g_kernel = ''lts'', g_slot = slot, g_gfxsafe = safe, g_extra = []\<rparr>, file)
         | SafeGfx \<Rightarrow> (\<lparr>g_kernel = kernel, g_slot = slot, g_gfxsafe = safe, g_extra = ''sc.gfxsafe=once''\<rparr>, file)
         | RetryDriver \<Rightarrow>
             (\<lparr>g_kernel = kernel, g_slot = slot, g_gfxsafe = [], g_extra = []\<rparr>,
              save_env [''sc_gfxsafe''] (env_set ''sc_gfxsafe'' [] mem) file)
         | PreviousVersion \<Rightarrow>
             (\<lparr>g_kernel = kernel, g_slot = other, g_gfxsafe = safe, g_extra = []\<rparr>, file))"

text \<open>The command line of a slot.\<close>

definition slot_words :: "string list" where
  "slot_words = [''quiet'', ''loglevel=0'', ''console=tty0'', ''console=ttyS0,115200'', ''panic=5'',
     ''random.trust_cpu=on'', ''net.ifnames=0'', ''vt.global_cursor_default=0'', ''vt.default_red=18'',
     ''vt.default_grn=19'', ''vt.default_blu=33'', ''video=efifb:1024x768'', ''rootfstype=ramfs'']"

definition cmdline :: "string \<Rightarrow> string \<Rightarrow> string \<Rightarrow> grub_choice \<Rightarrow> string" where
  "cmdline lang esp data g =
     join_with '' '' ((''BOOT_IMAGE=/vmlinuz-'' @ g_kernel g) # slot_words @
       [''lang='' @ lang, ''sc.slot='' @ g_slot g, ''sc.kernel='' @ g_kernel g,
        ''sc.gfxsafe='' @ g_gfxsafe g, ''sc.esp='' @ esp, ''sc.data='' @ data] @
       (if g_extra g = [] then [] else [g_extra g]))"

definition boot_of :: "string \<Rightarrow> grub_choice \<Rightarrow> boot" where
  "boot_of esp g = \<lparr>Slot = g_slot g, Kernel = g_kernel g,
     GfxSafe = (if g_extra g = [] then g_gfxsafe g else ''once''), ESP = esp\<rparr>"

section \<open>What a start reads and writes\<close>

lemma save_env_simps [simp]:
  "save_env [] mem file = file"
  "save_env (v # vs) mem file =
     save_env vs mem (case map_of mem v of Some x \<Rightarrow> env_set v x file | None \<Rightarrow> env_del v file)"
  by (simp_all add: save_env_def)

lemma env_get_save [simp]:
  "env_get (case map_of mem v of Some x \<Rightarrow> env_set v x file | None \<Rightarrow> env_del v file) w =
     (if w = v then env_get mem v else env_get file w)"
  by (simp add: env_get_def [of mem] split: option.split)

lemma menu_slot: "g_slot (fst (grub_start c file)) = ''A'' \<or> g_slot (fst (grub_start c file)) = ''B''"
  by (cases c) (auto simp: grub_start_def Let_def split: prod.split)

lemma gfx_mem:
  "env_get (fst (grub_gfx file)) ''sc_try'' = env_get file ''sc_try''"
  "env_get (fst (grub_gfx file)) ''sc_boot'' = env_get file ''sc_boot''"
  "env_get (fst (grub_gfx file)) ''sc_kernel'' = env_get file ''sc_kernel''"
  "env_get (fst (grub_gfx file)) ''sc_kpending'' =
     (if env_get file ''sc_gfxtry'' = [] then env_get file ''sc_kpending'' else ''0'')"
  by (simp_all add: grub_gfx_def Let_def)

lemma gfx_file:
  "env_get (snd (grub_gfx file)) ''sc_try'' = env_get file ''sc_try''"
  "env_get (snd (grub_gfx file)) ''sc_boot'' = env_get file ''sc_boot''"
  "env_get (snd (grub_gfx file)) ''sc_kernel'' = env_get file ''sc_kernel''"
  by (simp_all add: grub_gfx_def Let_def)

lemma gfx_vars:
  assumes "env_get file ''sc_gfxtry'' = t"
  shows "env_get (fst (grub_gfx file)) ''sc_gfxsafe'' =
      (if t \<noteq> [] \<and> t = env_get file ''sc_gfxfail'' then env_get file ''sc_gfxsafe'' @ '','' @ t
       else env_get file ''sc_gfxsafe'')"
    "env_get (snd (grub_gfx file)) ''sc_gfxsafe'' = env_get (fst (grub_gfx file)) ''sc_gfxsafe''"
    "env_get (snd (grub_gfx file)) ''sc_gfxtry'' = []"
    "env_get (snd (grub_gfx file)) ''sc_gfxfail'' =
      (if t = [] then env_get file ''sc_gfxfail'' else if t = env_get file ''sc_gfxfail'' then [] else t)"
  using assms by (simp_all add: grub_gfx_def Let_def)

lemma slot_picked:
  "fst (grub_slot (mem, file)) =
     (if env_get mem ''sc_try'' \<noteq> [] then env_get mem ''sc_try'' else env_get mem ''sc_boot'')"
  by (simp add: grub_slot_def Let_def)

lemma slot_mem:
  "env_get (fst (snd (grub_slot (mem, file)))) ''sc_gfxsafe'' = env_get mem ''sc_gfxsafe''"
  "env_get (fst (snd (grub_slot (mem, file)))) ''sc_kernel'' =
     (if env_get mem ''sc_try'' = [] \<and> env_get mem ''sc_kpending'' = ''1''
      then other_kernel (env_get mem ''sc_kernel'') else env_get mem ''sc_kernel'')"
  by (simp_all add: grub_slot_def Let_def)

lemma slot_file:
  "env_get (snd (snd (grub_slot (mem, file)))) ''sc_try'' =
     (if env_get mem ''sc_try'' \<noteq> [] then [] else env_get file ''sc_try'')"
  "env_get (snd (snd (grub_slot (mem, file)))) ''sc_boot'' = env_get file ''sc_boot''"
  "env_get (snd (snd (grub_slot (mem, file)))) ''sc_gfxsafe'' = env_get file ''sc_gfxsafe''"
  "env_get (snd (snd (grub_slot (mem, file)))) ''sc_gfxtry'' = env_get file ''sc_gfxtry''"
  "env_get (snd (snd (grub_slot (mem, file)))) ''sc_gfxfail'' = env_get file ''sc_gfxfail''"
  "env_get (snd (snd (grub_slot (mem, file)))) ''sc_kpending'' =
     (if env_get mem ''sc_try'' \<noteq> [] then env_get file ''sc_kpending'' else ''1'')"
  "env_get (snd (snd (grub_slot (mem, file)))) ''sc_kernel'' =
     (if env_get mem ''sc_try'' \<noteq> [] then env_get file ''sc_kernel''
      else if env_get mem ''sc_kpending'' = ''1'' then other_kernel (env_get mem ''sc_kernel'')
      else env_get mem ''sc_kernel'')"
  by (simp_all add: grub_slot_def Let_def)

lemmas gfx_rules = gfx_mem gfx_file
lemmas slot_rules = slot_picked slot_mem slot_file

lemma grub_slot_gfx: "grub_slot (grub_gfx file) = grub_slot (fst (grub_gfx file), snd (grub_gfx file))"
  by simp

text \<open>A default start: the slot and kernel it boots and the variables it leaves.\<close>

lemma start_boots:
  "g_slot (fst (grub_start Default file)) =
     (if (if env_get file ''sc_try'' \<noteq> [] then env_get file ''sc_try'' else env_get file ''sc_boot'') = ''B''
      then ''B'' else ''A'')"
  "g_kernel (fst (grub_start Default file)) =
     (if (if env_get file ''sc_try'' = [] \<and> env_get file ''sc_gfxtry'' = [] \<and> env_get file ''sc_kpending'' = ''1''
          then other_kernel (env_get file ''sc_kernel'') else env_get file ''sc_kernel'') = ''lts''
      then ''lts'' else ''new'')"
  "g_gfxsafe (fst (grub_start Default file)) = env_get (fst (grub_gfx file)) ''sc_gfxsafe''"
  "g_extra (fst (grub_start Default file)) = []"
proof -
  obtain s m f where g: "grub_slot (grub_gfx file) = (s, m, f)" by (metis prod_cases3)
  have s: "s = (if env_get file ''sc_try'' \<noteq> [] then env_get file ''sc_try'' else env_get file ''sc_boot'')"
    and m: "env_get m ''sc_gfxsafe'' = env_get (fst (grub_gfx file)) ''sc_gfxsafe''"
    "env_get m ''sc_kernel'' = (if env_get file ''sc_try'' = [] \<and> env_get file ''sc_gfxtry'' = [] \<and>
         env_get file ''sc_kpending'' = ''1''
       then other_kernel (env_get file ''sc_kernel'') else env_get file ''sc_kernel'')"
    using slot_picked [of "fst (grub_gfx file)" "snd (grub_gfx file)"]
      slot_mem [of "fst (grub_gfx file)" "snd (grub_gfx file)"] g
    by (simp_all add: gfx_mem)
  show "g_slot (fst (grub_start Default file)) =
     (if (if env_get file ''sc_try'' \<noteq> [] then env_get file ''sc_try'' else env_get file ''sc_boot'') = ''B''
      then ''B'' else ''A'')"
    unfolding s [symmetric] by (simp add: grub_start_def g Let_def)
  show "g_kernel (fst (grub_start Default file)) =
     (if (if env_get file ''sc_try'' = [] \<and> env_get file ''sc_gfxtry'' = [] \<and> env_get file ''sc_kpending'' = ''1''
          then other_kernel (env_get file ''sc_kernel'') else env_get file ''sc_kernel'') = ''lts''
      then ''lts'' else ''new'')"
    unfolding m(2) [symmetric] by (simp add: grub_start_def g Let_def)
  show "g_gfxsafe (fst (grub_start Default file)) = env_get (fst (grub_gfx file)) ''sc_gfxsafe''"
    "g_extra (fst (grub_start Default file)) = []"
    unfolding m(1) [symmetric] by (simp_all add: grub_start_def g Let_def)
qed

lemma start_file:
  "snd (grub_start c file) = (if c = RetryDriver
     then env_set ''sc_gfxsafe'' [] (snd (snd (grub_slot (grub_gfx file)))) else snd (snd (grub_slot (grub_gfx file))))"
  by (cases c) (simp_all add: grub_start_def Let_def split: prod.split)

lemma start_leaves:
  "env_get (snd (grub_start c file)) ''sc_try'' = []"
  "env_get (snd (grub_start c file)) ''sc_boot'' = env_get file ''sc_boot''"
  "env_get (snd (grub_start c file)) ''sc_gfxtry'' = []"
  using slot_file [of "fst (grub_gfx file)" "snd (grub_gfx file)"]
  by (simp_all add: start_file gfx_mem gfx_file gfx_vars(3) [OF refl])

section \<open>The boot arrives as chosen\<close>

definition plain_word :: "string \<Rightarrow> bool" where
  "plain_word w \<longleftrightarrow> (\<forall>c \<in> set w. \<not> is_space c)"

lemma boot_args:
  "boot_arg b (''BOOT_IMAGE=/vmlinuz-'' @ v) = b"
  "boot_arg b (''lang='' @ v) = b"
  "boot_arg b (''sc.data='' @ v) = b"
  "boot_arg b (''sc.slot='' @ v) = b\<lparr>Slot := v\<rparr>"
  "boot_arg b (''sc.kernel='' @ v) = b\<lparr>Kernel := v\<rparr>"
  "boot_arg b (''sc.gfxsafe='' @ v) = b\<lparr>GfxSafe := v\<rparr>"
  "boot_arg b (''sc.esp='' @ v) = b\<lparr>ESP := v\<rparr>"
  by (simp_all add: boot_arg_def cut_prefix_def Let_def)

lemma boot_arg_slot_words: "w \<in> set slot_words \<Longrightarrow> boot_arg b w = b"
  by (auto simp: slot_words_def boot_arg_def cut_prefix_def Let_def)

lemma foldl_boot_arg_slot_words: "foldl boot_arg b slot_words = b"
proof -
  have "set ws \<subseteq> set slot_words \<Longrightarrow> foldl boot_arg b ws = b" for ws
    by (induction ws) (auto simp: boot_arg_slot_words)
  then show ?thesis by blast
qed

lemma slot_words_plain: "w \<in> set slot_words \<Longrightarrow> w \<noteq> [] \<and> plain_word w"
  by (auto simp: slot_words_def plain_word_def is_space_def)

text \<open>C7. The boot arrives as GRUB chose it: from the command line the kiosk
  reads back exactly the slot, the kernel, the graphics adapters left alone and
  the disk GRUB booted from; safe graphics asked for in the menu stand for the
  whole list.\<close>

theorem boot_arrives:
  assumes "plain_word lang" "plain_word esp" "plain_word data" "plain_word (g_gfxsafe g)"
    "plain_word (g_slot g)" "plain_word (g_kernel g)" "g_extra g = [] \<or> g_extra g = ''sc.gfxsafe=once''"
  shows "current_boot (cmdline lang esp data g) = boot_of esp g"
proof -
  let ?ws = "(''BOOT_IMAGE=/vmlinuz-'' @ g_kernel g) # slot_words @
       [''lang='' @ lang, ''sc.slot='' @ g_slot g, ''sc.kernel='' @ g_kernel g,
        ''sc.gfxsafe='' @ g_gfxsafe g, ''sc.esp='' @ esp, ''sc.data='' @ data] @
       (if g_extra g = [] then [] else [g_extra g])"
  have "plain_word ''BOOT_IMAGE=/vmlinuz-''" "plain_word ''lang=''" "plain_word ''sc.slot=''"
    "plain_word ''sc.kernel=''" "plain_word ''sc.gfxsafe=''" "plain_word ''sc.esp=''"
    "plain_word ''sc.data=''" "plain_word ''sc.gfxsafe=once''"
    by (simp_all add: plain_word_def is_space_def)
  then have "\<forall>w \<in> set ?ws. w \<noteq> [] \<and> (\<forall>c \<in> set w. \<not> is_space c)"
    using assms slot_words_plain by (auto simp: plain_word_def)
  then have "str_fields (join_with '' '' ?ws) = ?ws" by (rule str_fields_words)
  moreover have "foldl boot_arg b ?ws = b\<lparr>Slot := g_slot g, Kernel := g_kernel g,
      GfxSafe := (if g_extra g = [] then g_gfxsafe g else ''once''), ESP := esp\<rparr>" for b
    using assms(7) boot_args(6) [of _ "''once''"]
    by (auto simp: foldl_boot_arg_slot_words boot_args [simplified])
  ultimately show ?thesis
    unfolding current_boot_def cmdline_def boot_of_def by simp
qed

theorem boot_arrives_witness:
  "current_boot (cmdline ''tr'' ''1A-2B'' ''x'' \<lparr>g_kernel = ''lts'', g_slot = ''B'', g_gfxsafe = ''8086:46a6'', g_extra = []\<rparr>) =
     \<lparr>Slot = ''B'', Kernel = ''lts'', GfxSafe = ''8086:46a6'', ESP = ''1A-2B''\<rparr>"
  using boot_arrives [of "''tr''" "''1A-2B''" "''x''"
      "\<lparr>g_kernel = ''lts'', g_slot = ''B'', g_gfxsafe = ''8086:46a6'', g_extra = []\<rparr>"]
  by (simp add: plain_word_def is_space_def boot_of_def)

section \<open>A disk install across its boots\<close>

text \<open>The machine: its environment block, the boot that is running, and the slots
  that hold a release that has come up on it. An event is a start of the machine
  at any time, whatever was running, or a change the running kiosk makes:
  \<open>SlotWritten\<close> is an update emptying the other slot and writing it,
  \<open>TryNext\<close> its last step; \<open>Install\<close> in \<open>internal/update\<close> takes
  both only on a boot that has proven itself.\<close>

record machine =
  block :: env
  up :: "boot option"
  proven :: "string set"

datatype mevent =
  PowerOn menu | UpAndGood string bool | SlotWritten | TryNext | GfxTry string | GfxUp | DriverRetry string

definition proven_boot :: "boot \<Rightarrow> machine \<Rightarrow> bool" where
  "proven_boot b m \<longleftrightarrow> Installed b \<and> env_get (block m) ''sc_boot'' = Slot b"

fun mstep :: "string \<Rightarrow> mevent \<Rightarrow> machine \<Rightarrow> machine option" where
  "mstep esp (PowerOn c) m =
     Some (m\<lparr>block := snd (grub_start c (block m)),
              up := Some (boot_of esp (fst (grub_start c (block m))))\<rparr>)"
| "mstep esp (UpAndGood gpus nl) m =
     (case up m of None \<Rightarrow> None
      | Some b \<Rightarrow> Some (m\<lparr>block := fst (markGood b gpus nl (block m)), proven := insert (Slot b) (proven m)\<rparr>))"
| "mstep esp SlotWritten m =
     (case up m of None \<Rightarrow> None
      | Some b \<Rightarrow> if proven_boot b m then Some (m\<lparr>proven := proven m - {Other b}\<rparr>) else None)"
| "mstep esp TryNext m =
     (case up m of None \<Rightarrow> None
      | Some b \<Rightarrow> if proven_boot b m then Some (m\<lparr>block := env_set ''sc_try'' (Other b) (block m)\<rparr>) else None)"
| "mstep esp (GfxTry gpus) m = Some (m\<lparr>block := env_set ''sc_gfxtry'' gpus (block m)\<rparr>)"
| "mstep esp GfxUp m =
     Some (m\<lparr>block := env_set ''sc_gfxfail'' [] (env_set ''sc_gfxtry'' [] (block m))\<rparr>)"
| "mstep esp (DriverRetry gpus) m = Some (m\<lparr>block := retryGPUs gpus (block m)\<rparr>)"

fun mrun :: "string \<Rightarrow> machine \<Rightarrow> mevent list \<Rightarrow> machine option" where
  "mrun esp m [] = Some m"
| "mrun esp m (e # es) = (case mstep esp e m of None \<Rightarrow> None | Some m' \<Rightarrow> mrun esp m' es)"

definition installed_machine :: machine where
  \<comment> \<open>as sc-install leaves it: slot A holds the release the machine runs\<close>
  "installed_machine = \<lparr>block = [(''sc_boot'', ''A'')], up = None, proven = {''A''}\<rparr>"

lemma retry_vars:
  "v \<noteq> ''sc_gfxsafe'' \<Longrightarrow> v \<noteq> ''sc_gfxfail'' \<Longrightarrow> v \<noteq> ''sc_gfxsafeboots'' \<Longrightarrow>
   env_get (retryGPUs g e) v = env_get e v"
  by (simp add: retryGPUs_def Let_def)

lemma markGood_boot:
  "env_get (fst (markGood b g nl e)) ''sc_boot'' = (if Installed b then Slot b else env_get e ''sc_boot'')"
  "env_get (fst (markGood b g nl e)) ''sc_try'' = env_get e ''sc_try''"
  "env_get (fst (markGood b g nl e)) ''sc_kpending'' = ''0''"
  "env_get (fst (markGood b g nl e)) ''sc_gfxtry'' = []"
  "env_get (fst (markGood b g nl e)) ''sc_kernel'' =
     (if Kernel b = ''new'' \<or> Kernel b = ''lts'' then Kernel b else env_get e ''sc_kernel'')"
  by (simp_all add: markGood_def Let_def retry_vars split: option.split)

definition machine_ok :: "machine \<Rightarrow> bool" where
  "machine_ok m \<longleftrightarrow>
     (env_get (block m) ''sc_boot'' = ''A'' \<or> env_get (block m) ''sc_boot'' = ''B'') \<and>
     env_get (block m) ''sc_boot'' \<in> proven m \<and>
     (\<forall>b. up m = Some b \<longrightarrow> Slot b = ''A'' \<or> Slot b = ''B'')"

lemma mstep_ok:
  assumes "machine_ok m" "mstep esp e m = Some m'"
  shows "machine_ok m'"
proof (cases e)
  case (PowerOn c)
  then show ?thesis
    using assms start_leaves(2) [of c "block m"] menu_slot [of c "block m"]
    by (auto simp: machine_ok_def boot_of_def)
next
  case (UpAndGood gpus nl)
  then show ?thesis
    using assms by (auto simp: machine_ok_def markGood_boot Installed_def split: option.splits)
next
  case (DriverRetry g)
  then show ?thesis
    using assms by (auto simp: machine_ok_def retry_vars)
qed (use assms in \<open>auto simp: machine_ok_def proven_boot_def Other_def split: option.splits if_splits\<close>)

lemma mrun_ok: "machine_ok m \<Longrightarrow> mrun esp m es = Some m' \<Longrightarrow> machine_ok m'"
  by (induction esp m es rule: mrun.induct) (auto dest: mstep_ok split: option.splits)

lemma mstep_no_try:
  assumes "env_get (block m) ''sc_try'' = []" "TryNext \<noteq> e" "mstep esp e m = Some m'"
  shows "env_get (block m') ''sc_try'' = []"
  using assms
  by (cases e) (auto simp: start_leaves markGood_boot retry_vars split: option.splits if_splits)

lemma mrun_no_try:
  "env_get (block m) ''sc_try'' = [] \<Longrightarrow> TryNext \<notin> set es \<Longrightarrow> mrun esp m es = Some m' \<Longrightarrow>
   env_get (block m') ''sc_try'' = []"
  by (induction esp m es rule: mrun.induct) (auto dest: mstep_no_try split: option.splits)

lemma mrun_append:
  "mrun esp m (es @ es') = (case mrun esp m es of None \<Rightarrow> None | Some m' \<Rightarrow> mrun esp m' es')"
  by (induction esp m es rule: mrun.induct) (auto split: option.split)



end
