(* ===== verification/BootPolicy.thy ===== *)
theory BootPolicy
  imports BootLoader
begin

text \<open>
  What the boot loader's script and the kiosk's marks do together for kernels
  that do not start and graphics drivers that take the machine down
  (\<open>build/grub-disk.cfg\<close> with \<open>bootenv.MarkGood\<close>,
  \<open>GraphicsTry\<close>, \<open>GraphicsOK\<close> and \<open>retryGPUs\<close>).
\<close>

section \<open>Kernels\<close>

lemma start_kernel_vars:
  assumes "env_get file ''sc_try'' = []"
  shows "env_get (snd (grub_start Default file)) ''sc_kpending'' = ''1''"
    "env_get (snd (grub_start Default file)) ''sc_kernel'' =
      (if env_get file ''sc_gfxtry'' = [] \<and> env_get file ''sc_kpending'' = ''1''
       then other_kernel (env_get file ''sc_kernel'') else env_get file ''sc_kernel'')"
  using slot_file [of "fst (grub_gfx file)" "snd (grub_gfx file)"] assms
  by (simp_all add: start_file gfx_mem gfx_file)

text \<open>A kernel that does not come up is not tried twice in a row: without a
  mark of the kiosk or of the graphics driver between them, two default starts in
  a row boot the two kernels of the slot, so one that works is running after at
  most two; once the kiosk has recorded it, every default start boots it until one
  does not come up.\<close>

lemma kernels_alternate:
  assumes "env_get file ''sc_try'' = []" "Kernel b = ''new'' \<or> Kernel b = ''lts''"
  shows "{g_kernel (fst (grub_start Default file)),
          g_kernel (fst (grub_start Default (snd (grub_start Default file))))} = {''new'', ''lts''} \<and>
    (env_get file' ''sc_try'' = [] \<longrightarrow>
      g_kernel (fst (grub_start Default (fst (markGood b gpus nl file')))) = Kernel b)"
proof -
  have tried: "env_get (snd (grub_start Default file)) ''sc_try'' = []"
    and gfx: "env_get (snd (grub_start Default file)) ''sc_gfxtry'' = []"
    by (rule start_leaves)+
  let ?k = "env_get (snd (grub_start Default file)) ''sc_kernel''"
  have "g_kernel (fst (grub_start Default file)) = (if ?k = ''lts'' then ''lts'' else ''new'')"
    using start_kernel_vars [OF assms(1)] start_boots(2) [of "file"] assms(1) by simp
  moreover have "g_kernel (fst (grub_start Default (snd (grub_start Default file)))) =
      (if other_kernel ?k = ''lts'' then ''lts'' else ''new'')"
    using start_kernel_vars(1) [OF assms(1)] start_boots(2) [of "snd (grub_start Default file)"] tried gfx
    by simp
  moreover have "g_kernel (fst (grub_start Default (fst (markGood b gpus nl file')))) = Kernel b"
    if "env_get file' ''sc_try'' = []"
    using assms(2) that start_boots(2) [of "fst (markGood b gpus nl file')"] by (auto simp: markGood_boot)
  ultimately show ?thesis
    by (auto simp: other_kernel_def)
qed

lemma kernels_alternate_example:
  "{g_kernel (fst (grub_start Default [])), g_kernel (fst (grub_start Default (snd (grub_start Default []))))} =
     {''new'', ''lts''}"
  using kernels_alternate [of "[]" "\<lparr>Slot = ''A'', Kernel = ''new'', GfxSafe = [], ESP = []\<rparr>"]
  by (simp add: env_get_def)

section \<open>Graphics drivers\<close>

text \<open>A boot that dies while the driver of \<open>gpus\<close> loads: the driver is loaded
  only where \<open>SafeGraphics\<close> allows it, after \<open>GraphicsTry\<close>.\<close>

definition boot_dies :: "string \<Rightarrow> env \<Rightarrow> env" where
  "boot_dies gpus file =
     (let (g, f) = grub_start Default file
      in if SafeGraphics (boot_of [] g) gpus then f else env_set ''sc_gfxtry'' gpus f)"

definition next_safe :: "string \<Rightarrow> env \<Rightarrow> bool" where
  \<comment> \<open>the next default start leaves \<open>gpus\<close> on the firmware framebuffer\<close>
  "next_safe gpus file = SafeGraphics (boot_of [] (fst (grub_start Default file))) gpus"

lemma gpu_sets_append: "gpu_sets (l @ '','' @ t) = gpu_sets l @ gpu_sets t"
proof -
  have "split_on CHR '','' (l @ CHR '','' # t) = split_on CHR '','' l @ split_on CHR '','' t"
  proof (induction l)
    case (Cons x l)
    then show ?case by (cases "split_on CHR '','' l") auto
  qed simp
  then show ?thesis by (simp add: gpu_sets_def)
qed

lemma gpu_sets_single: "g \<noteq> [] \<Longrightarrow> CHR '','' \<notin> set g \<Longrightarrow> gpu_sets g = [g]"
  by (simp add: gpu_sets_def split_on_no_sep)

lemma next_safe_iff:
  "next_safe gpus file \<longleftrightarrow>
     (let sets = set (gpu_sets (env_get (fst (grub_gfx file)) ''sc_gfxsafe''))
      in ''once'' \<in> sets \<or> (gpus \<noteq> [] \<and> gpus \<in> sets))"
  by (simp add: next_safe_def SafeGraphics_sets boot_of_def start_boots Let_def)

lemma start_gfx_vars:
  "env_get (snd (grub_start Default file)) ''sc_gfxsafe'' = env_get (fst (grub_gfx file)) ''sc_gfxsafe''"
  "env_get (snd (grub_start Default file)) ''sc_gfxfail'' = env_get (snd (grub_gfx file)) ''sc_gfxfail''"
  using slot_file [of "fst (grub_gfx file)" "snd (grub_gfx file)"] gfx_vars(2) [OF refl, of "file"]
  by (simp_all add: start_file)

lemma boot_dies_vars:
  "env_get (boot_dies g file) ''sc_gfxsafe'' = env_get (fst (grub_gfx file)) ''sc_gfxsafe''"
  "env_get (boot_dies g file) ''sc_gfxfail'' = env_get (snd (grub_gfx file)) ''sc_gfxfail''"
  "env_get (boot_dies g file) ''sc_gfxtry'' = (if next_safe g file then [] else g)"
  using start_gfx_vars [of "file"] start_leaves(3) [of Default "file"]
  by (simp_all add: boot_dies_def next_safe_def split: prod.split) auto

lemma next_safe_mono:
  assumes "next_safe g file"
  shows "next_safe g (boot_dies g file)"
proof -
  have "env_get (boot_dies g file) ''sc_gfxtry'' = []"
    using assms by (simp add: boot_dies_vars)
  from gfx_vars(1) [OF this] show ?thesis
    using assms by (simp add: next_safe_iff Let_def boot_dies_vars)
qed

text \<open>A driver that takes the machine down is given up after two boots in a
  row and not before: from whatever state, after two boots that died loading the
  driver the next default start leaves it alone, so the machine comes up; after
  one it does not, when nothing counted against it before.\<close>

lemma driver_given_up:
  assumes "g \<noteq> []" "CHR '','' \<notin> set g" "g \<noteq> ''once''"
  shows "next_safe g (boot_dies g (boot_dies g file)) \<and>
    (env_get file ''sc_gfxtry'' = [] \<and> env_get file ''sc_gfxfail'' \<noteq> g \<and> \<not> next_safe g file \<longrightarrow>
       \<not> next_safe g (boot_dies g file))"
proof -
  let ?f1 = "boot_dies g file"
  let ?f2 = "boot_dies g ?f1"
  have give: "next_safe g f" if "env_get f ''sc_gfxtry'' = g" "env_get f ''sc_gfxfail'' = g" for f
    using gfx_vars(1) [OF that(1)] that(2) assms
    by (simp add: next_safe_iff Let_def gpu_sets_append [simplified] gpu_sets_single)
  have "next_safe g ?f2"
  proof (cases "next_safe g file \<or> next_safe g ?f1")
    case True
    then show ?thesis using next_safe_mono by blast
  next
    case False
    have t: "env_get ?f1 ''sc_gfxtry'' = g" "env_get ?f2 ''sc_gfxtry'' = g"
      using False by (simp_all add: boot_dies_vars)
    have "env_get ?f1 ''sc_gfxfail'' \<noteq> g" using give t(1) False by blast
    then have "env_get ?f2 ''sc_gfxfail'' = g"
      using gfx_vars(4) [OF t(1)] assms(1) by (simp add: boot_dies_vars(2) [of g ?f1])
    with t(2) show ?thesis by (rule give)
  qed
  moreover have "\<not> next_safe g ?f1"
    if "env_get file ''sc_gfxtry'' = []" "env_get file ''sc_gfxfail'' \<noteq> g" "\<not> next_safe g file"
  proof -
    have t: "env_get ?f1 ''sc_gfxtry'' = g" using that(3) by (simp add: boot_dies_vars)
    have "env_get ?f1 ''sc_gfxfail'' \<noteq> g"
      using gfx_vars(4) [OF that(1)] that(2) by (simp add: boot_dies_vars)
    with gfx_vars(1) [OF t] show ?thesis
      using that(3) by (simp add: next_safe_iff Let_def boot_dies_vars)
  qed
  ultimately show ?thesis by blast
qed

lemma driver_given_up_example:
  "next_safe ''8086:46a6'' (boot_dies ''8086:46a6'' (boot_dies ''8086:46a6'' [])) \<and>
   \<not> next_safe ''8086:46a6'' (boot_dies ''8086:46a6'' [])"
proof -
  have "\<not> next_safe ''8086:46a6'' []"
    using gfx_vars(1) [of "[]"] by (simp add: next_safe_iff Let_def env_get_def gpu_sets_def)
  then show ?thesis
    using driver_given_up [of "''8086:46a6''" "[]"] by (simp add: env_get_def)
qed

text \<open>The boots a GPU has spent on the firmware framebuffer, as the kiosk counts
  them, and a boot that comes up.\<close>

definition safe_boots :: "env \<Rightarrow> int" where
  "safe_boots file = atoi_or (env_get file ''sc_gfxsafeboots'')"

definition good_boot :: "string \<Rightarrow> env \<Rightarrow> env" where
  "good_boot gpus file =
     (let (g, f) = grub_start Default file in fst (markGood (boot_of [] g) gpus False f))"

lemma compact_empty: "compactGPUs [] = []"
  by (simp add: compactGPUs_def)

lemma start_counts: "env_get (snd (grub_start Default file)) ''sc_gfxsafeboots'' = env_get file ''sc_gfxsafeboots''"
proof -
  have "env_get (snd (grub_gfx file)) ''sc_gfxsafeboots'' = env_get file ''sc_gfxsafeboots''"
    by (simp add: grub_gfx_def Let_def)
  moreover have "env_get (snd (snd (grub_slot (m, f)))) ''sc_gfxsafeboots'' = env_get f ''sc_gfxsafeboots''" for m f
    by (simp add: grub_slot_def Let_def)
  ultimately show ?thesis
    by (metis start_file menu.distinct(5) grub_slot_gfx)
qed

lemma mark_left_safe:
  assumes "LeftSafe b g" "0 \<le> safe_boots file"
  shows "safe_boots file + 1 < 10 \<Longrightarrow>
      safe_boots (fst (markGood b g False file)) = safe_boots file + 1 \<and>
      env_get (fst (markGood b g False file)) ''sc_gfxsafe'' = compactGPUs (env_get file ''sc_gfxsafe'')"
    and "10 \<le> safe_boots file + 1 \<Longrightarrow>
      gpu_sets (env_get (fst (markGood b g False file)) ''sc_gfxsafe'') =
        filter (\<lambda>s. s \<noteq> g) (gpu_sets (compactGPUs (env_get file ''sc_gfxsafe''))) \<and>
      env_get (fst (markGood b g False file)) ''sc_gfxfail'' = g \<and>
      env_get (fst (markGood b g False file)) ''sc_gfxtry'' = []"
proof -
  define e1 where "e1 = env_set ''sc_gfxtry'' [] (env_set ''sc_kpending'' ''0'' file)"
  define e2 where "e2 = (case map_of e1 ''sc_gfxsafe'' of
      Some s \<Rightarrow> env_set ''sc_gfxsafe'' (compactGPUs s) e1 | None \<Rightarrow> e1)"
  have e2: "env_get e2 ''sc_gfxsafe'' = compactGPUs (env_get file ''sc_gfxsafe'')"
    "env_get e2 ''sc_gfxsafeboots'' = env_get file ''sc_gfxsafeboots''"
    by (simp_all add: e2_def e1_def env_get_def compact_empty split: option.split)
  define e3 where "e3 = (if 10 \<le> safe_boots file + 1 then retryGPUs g e2
     else env_set ''sc_gfxsafeboots'' (itoa (safe_boots file + 1)) e2)"
  have e3: "v \<noteq> ''sc_kernel'' \<Longrightarrow> v \<noteq> ''sc_boot'' \<Longrightarrow> env_get (fst (markGood b g False file)) v = env_get e3 v" for v
    using assms(1) e2 by (simp add: markGood_def e3_def Let_def safe_boots_def safeRetryEvery_def
        flip: e1_def e2_def)
  show "safe_boots (fst (markGood b g False file)) = safe_boots file + 1 \<and>
      env_get (fst (markGood b g False file)) ''sc_gfxsafe'' = compactGPUs (env_get file ''sc_gfxsafe'')"
    if "safe_boots file + 1 < 10"
  proof -
    have "atoi_or (itoa (safe_boots file + 1)) = safe_boots file + 1"
      using assms(2) that by (intro atoi_or_itoa) (simp_all add: max_int_def)
    then show ?thesis
      using that e2 by (simp add: safe_boots_def [of "fst _"] e3) (simp add: e3_def)
  qed
  show "gpu_sets (env_get (fst (markGood b g False file)) ''sc_gfxsafe'') =
        filter (\<lambda>s. s \<noteq> g) (gpu_sets (compactGPUs (env_get file ''sc_gfxsafe''))) \<and>
      env_get (fst (markGood b g False file)) ''sc_gfxfail'' = g \<and>
      env_get (fst (markGood b g False file)) ''sc_gfxtry'' = []"
    if "10 \<le> safe_boots file + 1"
  proof -
    have "env_get (fst (markGood b g False file)) v = env_get (retryGPUs g e2) v"
      if "v \<noteq> ''sc_kernel''" "v \<noteq> ''sc_boot''" for v
      using e3 [OF that] \<open>10 \<le> safe_boots file + 1\<close> by (simp add: e3_def)
    moreover have "env_get (retryGPUs g e2) ''sc_gfxfail'' = g"
      by (simp add: retryGPUs_def Let_def)
    ultimately show ?thesis
      using e2 by (simp add: gpu_sets_retry markGood_boot)
  qed
qed

definition left_safe :: "string \<Rightarrow> int \<Rightarrow> env \<Rightarrow> bool" where
  \<comment> \<open>\<open>n\<close> boots into the firmware framebuffer\<close>
  "left_safe g n file \<longleftrightarrow>
     env_get file ''sc_gfxtry'' = [] \<and> safe_boots file = n \<and>
     g \<in> set (gpu_sets (compactGPUs (env_get file ''sc_gfxsafe''))) \<and>
     ''once'' \<notin> set (gpu_sets (env_get file ''sc_gfxsafe''))"

lemma compact_subset: "set (gpu_sets (compactGPUs l)) \<subseteq> set (gpu_sets l) - {''once''}"
  by (rule compact_sets [of l]) (auto dest: in_set_dropD)

lemma compact_twice: "compactGPUs (compactGPUs l) = compactGPUs l"
proof -
  obtain out where o: "gpu_sets (compactGPUs l) = (if 6 < length out then drop (length out - 6) out else out)"
    "distinct out" "compactGPUs l = join_with '','' (gpu_sets (compactGPUs l))"
    by (rule compact_sets)
  have "distinct (gpu_sets (compactGPUs l))" "length (gpu_sets (compactGPUs l)) \<le> 6"
    using o(1,2) by auto
  then show ?thesis
    using compact_subset [of l] o(3) by (intro compactGPUs_fixed) auto
qed

lemma left_safe_start:
  assumes "left_safe g n file" "g \<noteq> []"
  shows "next_safe g file" "LeftSafe (boot_of [] (fst (grub_start Default file))) g"
    "env_get (snd (grub_start Default file)) ''sc_gfxsafe'' = env_get file ''sc_gfxsafe''"
    "safe_boots (snd (grub_start Default file)) = n"
  using assms compact_subset gfx_vars(1) [of "file" "[]"]
  by (auto simp: next_safe_iff Let_def left_safe_def start_gfx_vars start_counts safe_boots_def
      LeftSafe_sets boot_of_def start_boots)

lemma good_boot_start:
  "good_boot g file = fst (markGood (boot_of [] (fst (grub_start Default file))) g False (snd (grub_start Default file)))"
  by (simp add: good_boot_def split: prod.split)

lemma left_safe_step:
  assumes "left_safe g n file" "g \<noteq> []" "0 \<le> n" "n < 9"
  shows "left_safe g (n + 1) (good_boot g file)"
  using mark_left_safe(1) [OF left_safe_start(2) [OF assms(1,2)], of "snd (grub_start Default file)"]
    left_safe_start [OF assms(1,2)] assms compact_subset [of "env_get file ''sc_gfxsafe''"]
  by (auto simp: left_safe_def good_boot_start markGood_boot compact_twice)

text \<open>C9. No GPU loses its driver for good: one left on the firmware framebuffer
  spends ten boots there that come up, then gets one boot with its driver; if
  that boot dies loading it, the next one leaves it alone again at once.\<close>

theorem driver_tried_again:
  assumes "left_safe g 0 file" "g \<noteq> []" "CHR '','' \<notin> set g"
  shows "(\<forall>n<10. next_safe g ((good_boot g ^^ n) file)) \<and>
    \<not> next_safe g ((good_boot g ^^ 10) file) \<and>
    next_safe g (boot_dies g ((good_boot g ^^ 10) file))"
proof -
  have steps: "n < 10 \<Longrightarrow> left_safe g (int n) ((good_boot g ^^ n) file)" for n
  proof (induction n)
    case (Suc n)
    then have "left_safe g (int n + 1) (good_boot g ((good_boot g ^^ n) file))"
      using assms(2) by (intro left_safe_step) auto
    then show ?case by (simp add: add.commute)
  qed (use assms in simp)
  let ?f = "(good_boot g ^^ 9) file"
  let ?s = "snd (grub_start Default ?f)"
  let ?t = "good_boot g ?f"
  have nine: "left_safe g 9 ?f" using steps [of 9] by simp
  note st = left_safe_start [OF nine assms(2)]
  have t: "gpu_sets (env_get ?t ''sc_gfxsafe'') = filter (\<lambda>s. s \<noteq> g) (gpu_sets (compactGPUs (env_get ?f ''sc_gfxsafe'')))"
    "env_get ?t ''sc_gfxfail'' = g" "env_get ?t ''sc_gfxtry'' = []"
    using mark_left_safe(2) [OF st(2), of ?s] st(3,4) by (simp_all add: good_boot_start)
  have sets: "gpu_sets (env_get (fst (grub_gfx ?t)) ''sc_gfxsafe'') = gpu_sets (env_get ?t ''sc_gfxsafe'')"
    using gfx_vars(1) [OF t(3)] by simp
  have "\<not> next_safe g ?t"
    using compact_subset [of "env_get ?f ''sc_gfxsafe''"] by (auto simp: next_safe_iff sets t(1) Let_def)
  moreover from this have "env_get (boot_dies g ?t) ''sc_gfxtry'' = g"
    by (simp add: boot_dies_vars)
  moreover have "env_get (boot_dies g ?t) ''sc_gfxfail'' = g"
    using gfx_vars(4) [OF t(3)] t(2) by (simp add: boot_dies_vars)
  ultimately have "\<not> next_safe g ?t" "next_safe g (boot_dies g ?t)"
    using gfx_vars(1) [of "boot_dies g ?t"] assms(2,3)
    by (simp_all add: next_safe_iff Let_def gpu_sets_append [simplified] gpu_sets_single)
  moreover have "(good_boot g ^^ 10) file = ?t" by (simp add: numeral_eq_Suc)
  moreover have "\<forall>n<10. next_safe g ((good_boot g ^^ n) file)"
    using steps left_safe_start(1) [OF _ assms(2)] by blast
  ultimately show ?thesis by simp
qed

theorem driver_tried_again_witness:
  "\<not> next_safe ''g'' ((good_boot ''g'' ^^ 10) [(''sc_gfxsafe'', '',g'')])"
proof -
  have "left_safe ''g'' 0 [(''sc_gfxsafe'', '',g'')]"
    by (simp add: left_safe_def env_get_def safe_boots_def gpu_sets_def compactGPUs_def maxGPUSets_def
        atoi_or_def strip_sign_def all_digits_def)
  then show ?thesis
    using driver_tried_again [of "''g''"] by simp
qed

end
