(* ===== verification/Update.thy ===== *)
theory Update
  imports BootEnv
begin

text \<open>
  \<open>internal/update/update.go\<close>: which release to install, and installing it
  into the system slot the kiosk does not run from. A slot's file system is an
  association list of file names and contents. The network is an argument: the
  server's answers, the archive \<open>archive/tar\<close> reads from the download, the
  SHA-256 of what came in; so is what the file system answers to each operation.
\<close>

section \<open>Releases\<close>

record release =
  Tag :: string
  Sum :: string
  Base :: string

datatype update_error =
    ErrNoUpdate | ErrDamaged | ErrStalled | ErrUnproven | ErrInsecure
  | NotInstalled | NoRelease | BadStatus | Unexpected string | Missing string
  | WrongTag string | IoFailed | Env env_error

definition DefaultBase :: string where
  "DefaultBase = ''https://github.com/diggyen/SimpleClient/releases''"

definition Asset :: string where "Asset = ''simpleclient-update.tar''"

definition base_url :: "string option \<Rightarrow> string" where
  \<comment> \<open>\<open>Base\<close>, on the file at \<open>basePath\<close>\<close>
  "base_url file =
     (case file of None \<Rightarrow> DefaultBase
      | Some b \<Rightarrow> let s = trim_space b
                 in if s \<noteq> [] then trim_right (\<lambda>c. c = CHR ''/'') s else DefaultBase)"

definition sum_of_line :: "string \<Rightarrow> string \<Rightarrow> string option" where
  "sum_of_line name line =
     (case str_fields line of
        [s, f] \<Rightarrow> if trim_prefix f ''*'' = name \<and> length s = 64 \<and> list_all is_hex s
                  then Some (to_lower s) else None
      | _ \<Rightarrow> None)"

fun first_sum :: "string \<Rightarrow> string list \<Rightarrow> string" where
  "first_sum name [] = []"
| "first_sum name (l # ls) = (case sum_of_line name l of Some s \<Rightarrow> s | None \<Rightarrow> first_sum name ls)"

definition findSum :: "string \<Rightarrow> string \<Rightarrow> string" where
  "findSum sums name = first_sum name (split_on newline sums)"

definition tag_char :: "char \<Rightarrow> bool" where
  "tag_char c \<longleftrightarrow> is_lower c \<or> is_upper c \<or> is_digit c \<or> c \<in> set ''.-_+''"

definition validTag :: "string \<Rightarrow> bool" where
  "validTag t \<longleftrightarrow> t \<noteq> [] \<and> length t \<le> 64 \<and> hd t \<noteq> CHR ''.'' \<and> list_all tag_char t"

fun path_unescape :: "string \<Rightarrow> string option" where
  \<comment> \<open>\<open>url.PathUnescape\<close>\<close>
  "path_unescape [] = Some []"
| "path_unescape (c # s) =
     (if c = CHR ''%''
      then (case s of a # b # r \<Rightarrow>
              if is_hex a \<and> is_hex b
              then map_option (Cons (char_of (hex_val a * 16 + hex_val b))) (path_unescape r) else None
            | _ \<Rightarrow> None)
      else map_option (Cons c) (path_unescape s))"

fun after_last :: "string \<Rightarrow> string \<Rightarrow> string option" where
  \<comment> \<open>what follows the last occurrence of \<open>p\<close> (\<open>strings.LastIndex\<close>)\<close>
  "after_last p [] = (if p = [] then Some [] else None)"
| "after_last p (c # s) =
     (case after_last p s of Some t \<Rightarrow> Some t
      | None \<Rightarrow> if has_prefix (c # s) p then Some (drop (length p) (c # s)) else None)"

record response =
  status :: int
  location :: string
  body :: string

definition latestTag :: "response \<Rightarrow> update_error + string" where
  "latestTag r =
     (let tag =
        (if go_div (status r) 100 = 3
         then Some (case after_last ''/tag/'' (location r) of
                None \<Rightarrow> [] | Some t \<Rightarrow> (case path_unescape t of Some u \<Rightarrow> u | None \<Rightarrow> []))
         else if status r = 200 then Some (trim_space (take 256 (body r)))
         else None)
      in case tag of None \<Rightarrow> Inl BadStatus
         | Some t \<Rightarrow> if validTag t then Inr t else Inl NoRelease)"

definition fetchSmall :: "response \<Rightarrow> update_error + string" where
  "fetchSmall r = (if status r \<noteq> 200 then Inl BadStatus else Inr (take 65536 (body r)))"

definition Latest ::
  "string \<Rightarrow> response \<Rightarrow> (string \<Rightarrow> response) \<Rightarrow> update_error option \<times> release" where
  \<comment> \<open>\<open>base\<close>, the answer to \<open>/latest\<close>, and to \<open>SHA256SUMS\<close> of a tag\<close>
  "Latest base latest sums =
     (let none = \<lparr>Tag = [], Sum = [], Base = []\<rparr>
      in case latestTag latest of Inl e \<Rightarrow> (Some e, none)
         | Inr tag \<Rightarrow>
           (case fetchSmall (sums tag) of Inl e \<Rightarrow> (Some e, none)
            | Inr s \<Rightarrow>
              let r = \<lparr>Tag = tag, Sum = findSum s Asset, Base = base\<rparr>
              in if Sum r = [] then (Some ErrNoUpdate, r) else (None, r)))"

definition get_allowed :: "string \<Rightarrow> bool" where
  \<comment> \<open>\<open>get\<close> and the redirect check, on the scheme of the URL asked for\<close>
  "get_allowed scheme \<longleftrightarrow> scheme = ''https''"

definition redirect_check :: "string \<Rightarrow> nat \<Rightarrow> bool" where
  "redirect_check scheme via \<longleftrightarrow> scheme = ''https'' \<and> via < 10"

definition tls_time :: "int \<Rightarrow> int \<Rightarrow> int" where
  "tls_time now built = (if now < built then built else now)"

section \<open>Versions\<close>

definition parse_number :: "string \<Rightarrow> (nat \<times> string) option" where
  \<comment> \<open>the digits a version part starts with\<close>
  "parse_number v =
     (let j = length (takeWhile is_digit v)
      in if j = 0 \<or> 6 < j then None else Some (digits_val (take j v), drop j v))"

definition parse_dot :: "string \<Rightarrow> string option" where
  "parse_dot v = cut_prefix v ''.''"

definition parse_version :: "string \<Rightarrow> nat list option" where
  "parse_version v0 =
     (case parse_number (trim_prefix v0 ''v'') of None \<Rightarrow> None | Some (a, r1) \<Rightarrow>
     (case parse_dot r1 of None \<Rightarrow> None | Some r2 \<Rightarrow>
     (case parse_number r2 of None \<Rightarrow> None | Some (b, r3) \<Rightarrow>
     (case parse_dot r3 of None \<Rightarrow> None | Some r4 \<Rightarrow>
     (case parse_number r4 of None \<Rightarrow> None | Some (c, _) \<Rightarrow> Some [a, b, c])))))"

fun compare_lists :: "nat list \<Rightarrow> nat list \<Rightarrow> int" where
  \<comment> \<open>\<open>slices.Compare\<close>\<close>
  "compare_lists [] [] = 0"
| "compare_lists [] (y # ys) = - 1"
| "compare_lists (x # xs) [] = 1"
| "compare_lists (x # xs) (y # ys) =
     (if x < y then - 1 else if y < x then 1 else compare_lists xs ys)"

definition Newer :: "string \<Rightarrow> string \<Rightarrow> bool" where
  "Newer tag current =
     (case parse_version tag of None \<Rightarrow> False
      | Some t \<Rightarrow>
        let c = (case parse_version current of Some c \<Rightarrow> c | None \<Rightarrow> [0, 0, 0])
        in 0 < compare_lists t c)"

section \<open>Writing a slot\<close>

type_synonym slot = "(string \<times> string) list"

datatype tar_type = TypeReg | TypeDir | TypeOther

record tar_entry =
  te_type :: tar_type
  te_name :: string
  te_size :: int
  te_data :: string
  te_whole :: bool        \<comment> \<open>all of it came in\<close>

definition maxFiles :: nat where "maxFiles = 32"
definition maxFile :: int where "maxFile = 512 * 2 ^ 20"
definition partial :: string where "partial = ''.part''"

definition name_char :: "char \<Rightarrow> bool" where
  "name_char c \<longleftrightarrow> is_lower c \<or> is_digit c \<or> c = CHR ''.'' \<or> c = CHR ''-'' \<or> c = CHR ''_''"

definition validName :: "string \<Rightarrow> bool" where
  "validName n \<longleftrightarrow> n \<noteq> [] \<and> length n \<le> 64 \<and> hd n \<noteq> CHR ''.'' \<and> hd n \<noteq> CHR ''-'' \<and>
     \<not> has_suffix n partial \<and> list_all name_char n"

text \<open>What the file system answers: whether the file of an entry can be written
  (if not, how much of it is), whether a file can be renamed, a directory read, an
  entry removed.\<close>

record slot_io =
  wrote :: "string \<Rightarrow> nat option"     \<comment> \<open>\<open>None\<close>: written, synced and closed\<close>
  renamed :: "string \<Rightarrow> bool"
  readable :: bool
  removed :: "string \<Rightarrow> bool"

definition write_file :: "slot_io \<Rightarrow> string \<Rightarrow> tar_entry \<Rightarrow> slot \<Rightarrow> slot \<times> bool" where
  "write_file io path h d =
     (case wrote io path of
        Some n \<Rightarrow> (AList.update path (take n (te_data h)) d, False)
      | None \<Rightarrow> (AList.update path (te_data h) d, te_whole h))"

fun extract_tar ::
  "slot_io \<Rightarrow> tar_entry list \<Rightarrow> bool \<Rightarrow> string list \<Rightarrow> slot \<Rightarrow> slot \<times> string list \<times> update_error option" where
  \<comment> \<open>\<open>eof\<close>: the archive ends where its entries do, rather than being broken\<close>
  "extract_tar io [] eof names d = (d, names, if eof then None else Some IoFailed)"
| "extract_tar io (h # hs) eof names d =
     (let name = trim_prefix (te_name h) ''./''
      in if te_type h = TypeDir \<and> name = [] then extract_tar io hs eof names d
         else if te_type h \<noteq> TypeReg \<or> \<not> validName name \<or> maxFile < te_size h \<or>
           length names = maxFiles \<or> name \<in> set names
         then (d, names, Some (Unexpected (te_name h)))
         else let (d1, ok) = write_file io (name @ partial) h d
              in if ok then extract_tar io hs eof (names @ [name]) d1
                 else (d1, names @ [name], Some IoFailed))"

definition check_slot :: "slot_io \<Rightarrow> slot \<Rightarrow> string list \<Rightarrow> string \<Rightarrow> update_error option" where
  "check_slot io d names tag =
     (if ''slot.cfg'' \<notin> set names then Some (Missing ''slot.cfg'')
      else if ''version'' \<notin> set names then Some (Missing ''version'')
      else case map_of d (''version'' @ partial) of
        None \<Rightarrow> Some IoFailed
      | Some v \<Rightarrow> if trim_space v = tag then None else Some (WrongTag (trim_space v)))"

fun rename_all :: "slot_io \<Rightarrow> string list \<Rightarrow> slot \<Rightarrow> slot \<times> update_error option" where
  "rename_all io [] d = (d, None)"
| "rename_all io (n # ns) d =
     (case map_of d (n @ partial) of
        Some v \<Rightarrow> if renamed io n
                  then rename_all io ns (AList.update n v (AList.delete (n @ partial) d))
                  else (d, Some IoFailed)
      | None \<Rightarrow> (d, Some IoFailed))"

definition lost_found :: string where "lost_found = ''lost+found''"

fun clear_entries :: "slot_io \<Rightarrow> string list \<Rightarrow> slot \<Rightarrow> slot \<times> bool" where
  "clear_entries io [] d = (d, True)"
| "clear_entries io (n # ns) d =
     (if n = lost_found then clear_entries io ns d
      else if removed io n then clear_entries io ns (AList.delete n d) else (d, False))"

definition clearSlot :: "slot_io \<Rightarrow> slot \<Rightarrow> slot \<times> bool" where
  "clearSlot io d = (if readable io then clear_entries io (sort (remdups (map fst d))) d else (d, False))"

record download =
  dl_status :: int
  dl_entries :: "tar_entry list"
  dl_eof :: bool
  dl_tail :: bool       \<comment> \<open>the rest of the stream came in\<close>
  dl_stalled :: bool    \<comment> \<open>the watchdog has fired\<close>
  dl_sum :: string      \<comment> \<open>hex of the SHA-256 of all that came in\<close>

definition verdict ::
  "slot_io \<Rightarrow> release \<Rightarrow> download \<Rightarrow> slot \<Rightarrow> string list \<Rightarrow> update_error option \<Rightarrow> update_error option" where
  \<comment> \<open>\<open>unpack\<close> from the end of \<open>extract\<close> to the renames\<close>
  "verdict io r dl d names e0 =
     (let e1 = (if e0 = None \<and> \<not> dl_tail dl then Some IoFailed else e0)
      in if e1 \<noteq> None \<and> dl_stalled dl then Some ErrStalled
         else if e1 = None \<and> dl_sum dl \<noteq> Sum r then Some ErrDamaged
         else if e1 = None then check_slot io d names (Tag r) else e1)"

definition unpack ::
  "slot_io \<Rightarrow> slot_io \<Rightarrow> release \<Rightarrow> download \<Rightarrow> slot \<Rightarrow> slot \<times> update_error option" where
  \<comment> \<open>\<open>io2\<close> is the file system when the slot is emptied again\<close>
  "unpack io io2 r dl d =
     (if dl_status dl \<noteq> 200 then (d, Some BadStatus)
      else let (d1, ok) = clearSlot io d
           in if \<not> ok then (d1, Some IoFailed)
              else let (d2, names, e0) = extract_tar io (dl_entries dl) (dl_eof dl) [] d1;
                       e2 = verdict io r dl d2 names e0;
                       (d3, e3) = (if e2 = None then rename_all io names d2 else (d2, e2))
                   in if e3 \<noteq> None then (fst (clearSlot io2 d3), e3) else (d3, None))"

section \<open>Progress and stalls\<close>

record counter =
  cdone :: int
  told :: int
  reports :: "int list"   \<comment> \<open>what \<open>progress\<close> has been told\<close>

definition report :: "counter \<Rightarrow> counter" where
  "report c = c\<lparr>told := cdone c, reports := reports c @ [cdone c]\<rparr>"

definition counter_read :: "int \<Rightarrow> counter \<Rightarrow> counter" where
  "counter_read n c =
     (let c1 = c\<lparr>cdone := cdone c + n\<rparr> in if 2 ^ 20 \<le> cdone c1 - told c1 then report c1 else c1)"

definition stallAfter :: int where "stallAfter = 60 * 10 ^ 9"

record watchdog =
  deadline :: int
  bit :: bool

definition watch :: "int \<Rightarrow> watchdog" where
  "watch now = \<lparr>deadline = now + stallAfter, bit = False\<rparr>"

definition dog_fires :: "int \<Rightarrow> watchdog \<Rightarrow> watchdog" where
  \<comment> \<open>the timer, looked at at time \<open>now\<close>\<close>
  "dog_fires now w = (if deadline w \<le> now then w\<lparr>bit := True\<rparr> else w)"

definition dog_read :: "int \<Rightarrow> int \<Rightarrow> watchdog \<Rightarrow> watchdog" where
  \<comment> \<open>a read of \<open>n\<close> bytes that returned at time \<open>now\<close>\<close>
  "dog_read now n w =
     (let w1 = dog_fires now w in if 0 < n then w1\<lparr>deadline := now + stallAfter\<rparr> else w1)"

section \<open>Installing\<close>

record kiosk =
  esp :: "medium option"                  \<comment> \<open>the medium this boot came from\<close>
  disks :: "(string \<times> slot) list"         \<comment> \<open>the file systems, by device\<close>
  triedFile :: "string option"
  failedFile :: "string option"

definition remember :: "string \<Rightarrow> string \<Rightarrow> kiosk \<Rightarrow> kiosk" where
  "remember tag sl k = k\<lparr>triedFile := Some (tag @ '' '' @ sl @ [newline])\<rparr>"

definition read_env :: "env_io \<Rightarrow> medium option \<Rightarrow> env_error + env" where
  "read_env io med =
     (case med of None \<Rightarrow> Inl NoEnv
      | Some m \<Rightarrow> (case grubenv m of None \<Rightarrow> Inl IoError
          | Some old \<Rightarrow> if io_read io then env_parse old else Inl IoError))"

definition Install ::
  "(string \<Rightarrow> string option) \<Rightarrow> env_io \<Rightarrow> slot_io \<Rightarrow> slot_io \<Rightarrow> release \<Rightarrow> download \<Rightarrow> boot \<Rightarrow> kiosk \<Rightarrow>
     kiosk \<times> update_error option" where
  "Install findfs eio io io2 r dl b k =
     (if \<not> Installed b then (k, Some NotInstalled)
      else if Sum r = [] then (k, Some ErrNoUpdate)
      else case read_env eio (esp k) of
        Inl e \<Rightarrow> (k, Some (Env e))
      | Inr env \<Rightarrow>
        if env_get env ''sc_boot'' \<noteq> Slot b then (k, Some ErrUnproven)
        else let sl = Other b
             in case SlotDevice findfs env sl of
                  None \<Rightarrow> (k, Some (Env NoEnv))
                | Some dev \<Rightarrow>
                  (case map_of (disks k) dev of
                     None \<Rightarrow> (k, Some IoFailed)     \<comment> \<open>it cannot be mounted\<close>
                   | Some d \<Rightarrow>
                     let (d', e) = unpack io io2 r dl d;
                         k1 = k\<lparr>disks := AList.update dev d' (disks k)\<rparr>
                     in if e \<noteq> None then (k1, e)
                        else let (m, e') = TryOther eio b (esp k1); k2 = k1\<lparr>esp := m\<rparr>
                             in case e' of Some x \<Rightarrow> (k2, Some (Env x))
                                | None \<Rightarrow> (remember (Tag r) sl k2, None)))"

definition tried :: "kiosk \<Rightarrow> string \<times> string" where
  "tried k =
     (case str_fields (case triedFile k of Some b \<Rightarrow> b | None \<Rightarrow> []) of
        [t, s] \<Rightarrow> (t, s) | _ \<Rightarrow> ([], []))"

definition Settle :: "boot \<Rightarrow> kiosk \<Rightarrow> kiosk \<times> string \<times> bool \<times> string" where
  "Settle b k =
     (let (tag, sl) = tried k;
          (ok, k1) = (if tag = [] then (False, k)
                      else if sl = Slot b then (True, k)
                      else (False, k\<lparr>triedFile := None, failedFile := Some (tag @ [newline])\<rparr>))
      in (k1, tag, ok, trim_space (case failedFile k1 of Some b \<Rightarrow> b | None \<Rightarrow> [])))"

definition Kept :: "boot \<Rightarrow> kiosk \<Rightarrow> kiosk" where
  "Kept b k =
     (let (tag, sl) = tried k
      in if tag \<noteq> [] \<and> sl = Slot b then k\<lparr>triedFile := None, failedFile := None\<rparr> else k)"

section \<open>A slot holds a whole release or none of it\<close>

lemma map_of_update [simp]: "map_of (AList.update k v xs) x = (if x = k then Some v else map_of xs x)"
  by (simp add: update_conv')

lemma map_of_delete [simp]: "map_of (AList.delete k xs) x = (if x = k then None else map_of xs x)"
  by (simp add: delete_conv')

lemma clear_entries_map:
  "clear_entries io ns d = (d', True) \<Longrightarrow>
     map_of d' x = (if x \<in> set ns \<and> x \<noteq> lost_found then None else map_of d x)"
  by (induction io ns d rule: clear_entries.induct) (auto split: if_splits)

lemma clear_entries_less: "map_of (fst (clear_entries io ns d)) x = None \<or>
    map_of (fst (clear_entries io ns d)) x = map_of d x"
  by (induction io ns d rule: clear_entries.induct) (auto split: if_splits)

lemma clearSlot_map:
  assumes "clearSlot io d = (d', True)"
  shows "map_of d' x = (if x = lost_found then map_of d x else None)"
proof -
  have "clear_entries io (sort (remdups (map fst d))) d = (d', True)"
    using assms by (simp add: clearSlot_def split: if_splits)
  from clear_entries_map [OF this, of x] show ?thesis
    by (auto simp: map_of_eq_None_iff)
qed

lemma clearSlot_less: "map_of (fst (clearSlot io d)) x = None \<or> map_of (fst (clearSlot io d)) x = map_of d x"
  by (simp add: clearSlot_def clear_entries_less)

text \<open>The files of an archive, and the shape of a name that is one of them.\<close>

definition archive_files :: "tar_entry list \<Rightarrow> slot" where
  "archive_files hs =
     map (\<lambda>h. (trim_prefix (te_name h) ''./'', te_data h))
       (filter (\<lambda>h. \<not> (te_type h = TypeDir \<and> trim_prefix (te_name h) ''./'' = [])) hs)"

definition part_file :: "string \<times> string \<Rightarrow> string \<times> string" where
  "part_file p = (fst p @ partial, snd p)"

lemma has_suffix_append [simp]: "has_suffix (m @ s) s"
  by (simp add: has_suffix_def)

lemma valid_not_part: "validName n \<Longrightarrow> n \<noteq> m @ partial"
  by (auto simp: validName_def)

lemma part_file_simps [simp]:
  "map_of (map part_file fs) (n @ partial) = map_of fs n"
  by (induction fs) (auto simp: part_file_def)

lemma map_of_part_None: "(\<And>n. x \<noteq> n @ partial) \<Longrightarrow> map_of (map part_file fs) x = None"
  by (induction fs) (auto simp: part_file_def)

lemma extract_files:
  assumes "extract_tar io hs eof names d = (d', names', None)" "distinct names"
  shows "names' = names @ map fst (archive_files hs) \<and> distinct names' \<and>
    (\<forall>n \<in> fst ` set (archive_files hs). validName n) \<and>
    map_of d' = map_of d ++ map_of (map part_file (archive_files hs))"
  using assms
proof (induction io hs eof names d rule: extract_tar.induct)
  case (1 io eof names d)
  then show ?case by (auto simp: archive_files_def split: if_splits)
next
  case (2 io h hs eof names d)
  let ?n = "trim_prefix (te_name h) ''./''"
  show ?case
  proof (cases "te_type h = TypeDir \<and> ?n = []")
    case True
    then have fs: "archive_files (h # hs) = archive_files hs"
      and rec: "extract_tar io hs eof names d = (d', names', None)"
      using "2.prems"(1) by (simp_all add: archive_files_def)
    show ?thesis
      unfolding fs by (rule "2.IH"(1) [OF refl True rec "2.prems"(2)])
  next
    case False
    note dir = this
    then have ok: "validName ?n" "?n \<notin> set names"
      using "2.prems"(1) by (auto simp: Let_def split: if_splits)
    obtain d1 where w: "write_file io (?n @ partial) h d = (d1, True)"
      using "2.prems"(1) dir by (auto simp: Let_def split: if_splits prod.splits)
    then have d1: "map_of d1 = (map_of d)(?n @ partial \<mapsto> te_data h)"
      by (auto simp: write_file_def split: option.splits)
    have rec: "extract_tar io hs eof (names @ [?n]) d1 = (d', names', None)"
      using "2.prems"(1) dir w by (simp add: Let_def split: if_splits)
    have good: "\<not> (te_type h \<noteq> TypeReg \<or> \<not> validName ?n \<or> maxFile < te_size h \<or>
        length names = maxFiles \<or> ?n \<in> set names)"
      using "2.prems"(1) dir by (auto simp: Let_def split: if_splits)
    have dn: "distinct (names @ [?n])" using "2.prems"(2) ok(2) by simp
    have IH: "names' = (names @ [?n]) @ map fst (archive_files hs)" "distinct names'"
      "\<forall>n \<in> fst ` set (archive_files hs). validName n"
      "map_of d' = map_of d1 ++ map_of (map part_file (archive_files hs))"
      using "2.IH"(2) [OF refl dir good w [symmetric] refl TrueI rec dn] by blast+
    have fs: "archive_files (h # hs) = (?n, te_data h) # archive_files hs"
      using dir by (simp add: archive_files_def)
    have "?n \<notin> fst ` set (archive_files hs)"
      using IH(1,2) by auto
    then have "map_of (map part_file (archive_files hs)) (?n @ partial) = None"
      by (simp add: map_of_eq_None_iff)
    then have mo: "map_of d' = map_of d ++ map_of (map part_file (archive_files (h # hs)))"
      unfolding IH(4) fs d1 by (auto simp: part_file_def map_add_def fun_eq_iff split: option.split)
    show ?thesis
      by (intro conjI mo IH(2)) (use IH(1,3) ok(1) in \<open>simp_all add: fs\<close>)
  qed
qed

lemma rename_all_map:
  assumes "rename_all io ns d = (d', None)" "distinct ns" "\<forall>n \<in> set ns. \<not> has_suffix n partial"
  shows "map_of d' x = (if x \<in> set ns then map_of d (x @ partial)
     else if x \<in> (\<lambda>n. n @ partial) ` set ns then None else map_of d x)"
  using assms
proof (induction io ns d rule: rename_all.induct)
  case (2 io n ns d)
  from "2.prems"(1) obtain v where v: "map_of d (n @ partial) = Some v" "renamed io n"
    "rename_all io ns (AList.update n v (AList.delete (n @ partial) d)) = (d', None)"
    by (auto split: option.splits if_splits)
  have ne: "m @ partial \<noteq> k" if "k \<in> set (n # ns)" for m k
    using "2.prems"(3) that by auto
  have "map_of d' x = (if x \<in> set ns then map_of (AList.update n v (AList.delete (n @ partial) d)) (x @ partial)
     else if x \<in> (\<lambda>n. n @ partial) ` set ns then None
     else map_of (AList.update n v (AList.delete (n @ partial) d)) x)"
    using "2.IH" [OF v(1,2,3)] "2.prems"(2,3) by simp
  then show ?case
    using v(1) ne "2.prems"(2) by auto
qed simp

lemma extract_frame:
  assumes "extract_tar io hs eof names d = (d', names', e)" "\<forall>n \<in> set names. validName n"
  shows "(\<forall>n \<in> set names'. validName n) \<and> ((\<forall>n. x \<noteq> n @ partial) \<longrightarrow> map_of d' x = map_of d x)"
  using assms
  by (induction io hs eof names d rule: extract_tar.induct)
    (auto simp: Let_def write_file_def split: if_splits prod.splits option.splits)

lemma rename_frame:
  "x \<notin> set ns \<Longrightarrow> (\<forall>n. x \<noteq> n @ partial) \<Longrightarrow> map_of (fst (rename_all io ns d)) x = map_of d x"
  by (induction io ns d rule: rename_all.induct) (auto split: option.splits)

lemma lost_found_name: "\<not> validName lost_found" "lost_found \<noteq> n @ partial"
proof -
  show "\<not> validName lost_found"
    by (simp add: validName_def lost_found_def name_char_def is_lower_def is_digit_def char_le_iff)
  have "last lost_found \<noteq> last (n @ partial)"
    by (simp add: lost_found_def partial_def)
  then show "lost_found \<noteq> n @ partial" by metis
qed

lemma slot_whole_lemma:
  assumes "unpack io io2 r dl d = (d', err)" "\<And>e. snd (clearSlot io2 e)"
  shows "if err = None
    then dl_sum dl = Sum r \<and>
      (\<forall>x. map_of d' x = (if x = lost_found then map_of d x else map_of (archive_files (dl_entries dl)) x)) \<and>
      map_of d' ''slot.cfg'' \<noteq> None \<and>
      (\<exists>v. map_of d' ''version'' = Some v \<and> trim_space v = Tag r)
    else \<forall>x. map_of d' x = None \<or> map_of d' x = map_of d x"
proof (cases "dl_status dl = 200 \<and> snd (clearSlot io d)")
  case False
  then show ?thesis
    using assms(1) clearSlot_less [of io d] by (auto simp: unpack_def split: prod.splits if_splits)
next
  case True
  then obtain d1 where d1: "clearSlot io d = (d1, True)" by (metis prod.collapse)
  obtain d2 names e0 where ex: "extract_tar io (dl_entries dl) (dl_eof dl) [] d1 = (d2, names, e0)"
    by (metis prod_cases3)
  obtain d3 e3 where r3: "(if verdict io r dl d2 names e0 = None then rename_all io names d2
      else (d2, verdict io r dl d2 names e0)) = (d3, e3)"
    by fastforce
  have res: "d' = (if e3 \<noteq> None then fst (clearSlot io2 d3) else d3)" "err = e3"
    using assms(1) True by (auto simp: unpack_def d1 ex r3 split: if_splits)
  have old: "map_of d1 lost_found = map_of d lost_found"
    using clearSlot_map [OF d1] by simp
  have names: "\<forall>n \<in> set names. validName n" "map_of d2 lost_found = map_of d1 lost_found"
    using extract_frame [OF ex] lost_found_name(2) by auto
  have kept: "map_of d3 lost_found = map_of d lost_found"
    using r3 names old rename_frame [of lost_found names io d2] lost_found_name
    by (auto split: if_splits)
  show ?thesis
  proof (cases "err = None")
    case False
    obtain d4 where "clearSlot io2 d3 = (d4, True)"
      using assms(2) [of d3] by (metis prod.collapse)
    then have "map_of d' x = (if x = lost_found then map_of d3 x else None)" for x
      using False res clearSlot_map by simp
    then show ?thesis using False kept by auto
  next
    case None: True
    then have v: "verdict io r dl d2 names e0 = None" and mv: "rename_all io names d2 = (d3, None)"
      using r3 res by (auto split: if_splits)
    then have e0: "e0 = None" and sum: "dl_sum dl = Sum r" and chk: "check_slot io d2 names (Tag r) = None"
      by (auto simp: verdict_def Let_def split: if_splits)
    let ?fs = "archive_files (dl_entries dl)"
    note files = extract_files [OF ex [unfolded e0], simplified]
    have dist: "distinct names" using files by blast
    have no_part: "\<forall>n \<in> set names. \<not> has_suffix n partial"
      using names(1) by (auto simp: validName_def)
    have final: "map_of d3 x = (if x = lost_found then map_of d x else map_of ?fs x)" for x
    proof (cases "x = lost_found")
      case False
      have r: "map_of d3 x = (if x \<in> set names then map_of d2 (x @ partial)
         else if x \<in> (\<lambda>n. n @ partial) ` set names then None else map_of d2 x)"
        by (rule rename_all_map [OF mv _ no_part]) (use files in blast)
      have d1x: "map_of d1 y = (if y = lost_found then map_of d y else None)" for y
        using clearSlot_map [OF d1] .
      show ?thesis
      proof (cases "x \<in> set names")
        case True
        then obtain v where "map_of ?fs x = Some v"
          using files by (metis map_of_eq_None_iff not_None_eq set_map)
        moreover have "map_of d2 (x @ partial) = Some v"
          using files calculation by (simp add: map_add_def)
        moreover have "map_of d3 x = map_of d2 (x @ partial)"
          using r True by (simp only: if_True)
        ultimately show ?thesis using False by simp
      next
        case out: False
        then have none: "map_of ?fs x = None"
          using files by (simp add: map_of_eq_None_iff)
        have "map_of d2 x = None" if "x \<notin> (\<lambda>n. n @ partial) ` set names"
        proof -
          have "x \<notin> fst ` set (map part_file ?fs)"
            using that files by (auto simp: part_file_def image_iff)
          then have "map_of (map part_file ?fs) x = None" by (simp add: map_of_eq_None_iff)
          then show ?thesis using files d1x [of x] False by (simp add: map_add_def)
        qed
        then have "map_of d3 x = None" using r out by (simp only: if_False split: if_split) simp
        then show ?thesis using none False by simp
      qed
    qed (simp add: kept)
    have ver: "''slot.cfg'' \<in> set names" "''version'' \<in> set names"
      "\<exists>v. map_of d2 (''version'' @ partial) = Some v \<and> trim_space v = Tag r"
      using chk by (auto simp: check_slot_def split: if_splits option.splits)
    have "map_of d3 ''version'' = map_of d2 (''version'' @ partial)"
      using rename_all_map [OF mv dist no_part, of "''version''"] ver(2) by simp
    moreover have "map_of d3 ''slot.cfg'' \<noteq> None"
      using final [of "''slot.cfg''"] ver(1) files
      by (auto simp: lost_found_def map_of_eq_None_iff)
    ultimately show ?thesis
      using None res sum final ver(3) by auto
  qed
qed


definition slot_works :: slot_io where
  "slot_works = \<lparr>wrote = \<lambda>_. None, renamed = \<lambda>_. True, readable = True, removed = \<lambda>_. True\<rparr>"

lemma clear_works: "snd (clearSlot slot_works d)"
proof -
  have "snd (clear_entries slot_works ns e)" for ns e
    by (induction ns arbitrary: e) (simp_all add: slot_works_def)
  then show ?thesis by (simp add: clearSlot_def slot_works_def)
qed


section \<open>Installing\<close>



section \<open>Which release is newer\<close>

lemma parse_version_length: "parse_version v = Some t \<Longrightarrow> length t = 3"
  by (auto simp: parse_version_def split: option.splits)

lemma compare_pos_iff: "length xs = length ys \<Longrightarrow> 0 < compare_lists xs ys \<longleftrightarrow> ys < xs"
  by (induction xs ys rule: compare_lists.induct) auto

definition version_of :: "string \<Rightarrow> nat list" where
  \<comment> \<open>what \<open>Newer\<close> takes a version for that is running\<close>
  "version_of v = (case parse_version v of Some c \<Rightarrow> c | None \<Rightarrow> [0, 0, 0])"

lemma Newer_iff: "Newer tag current \<longleftrightarrow> parse_version tag \<noteq> None \<and> version_of current < version_of tag"
proof (cases "parse_version tag")
  case (Some t)
  have "length (version_of current) = 3"
    using parse_version_length by (auto simp: version_of_def split: option.split)
  with Some parse_version_length [OF Some] show ?thesis
    using compare_pos_iff [of t "version_of current"] by (simp add: Newer_def version_of_def Let_def)
qed (simp add: Newer_def)

lemma takeWhile_digits:
  "\<not> is_digit c \<Longrightarrow> takeWhile is_digit (itoa_nat n @ c # r) = itoa_nat n"
  "(r = [] \<or> \<not> is_digit (hd r)) \<Longrightarrow> takeWhile is_digit (itoa_nat n @ r) = itoa_nat n"
proof -
  have d: "\<forall>c \<in> set (itoa_nat n). is_digit c"
    using itoa_nat_digits [of n] by (simp add: all_digits_def list_all_iff)
  show "\<not> is_digit c \<Longrightarrow> takeWhile is_digit (itoa_nat n @ c # r) = itoa_nat n"
    using d by (simp add: takeWhile_append2)
  show "(r = [] \<or> \<not> is_digit (hd r)) \<Longrightarrow> takeWhile is_digit (itoa_nat n @ r) = itoa_nat n"
    using d by (cases r) (simp_all add: takeWhile_append2)
qed

lemma length_itoa: "n < 10 ^ k \<Longrightarrow> 0 < k \<Longrightarrow> length (itoa_nat n) \<le> k"
proof (induction n arbitrary: k rule: itoa_nat.induct)
  case (1 n)
  show ?case
  proof (cases "n < 10")
    case False
    then obtain j where "k = Suc j" "0 < j" using 1 by (cases k; cases "k - 1") auto
    with 1 False have "length (itoa_nat (n div 10)) \<le> j" by simp
    with False \<open>k = Suc j\<close> show ?thesis by (subst itoa_nat.simps) simp
  qed (use 1 in \<open>simp add: itoa_nat.simps\<close>)
qed

lemma parse_number_itoa:
  assumes "n < 10 ^ 6" "r = [] \<or> \<not> is_digit (hd r)"
  shows "parse_number (itoa_nat n @ r) = Some (n, r)"
proof -
  have "itoa_nat n \<noteq> []" using itoa_nat_digits [of n] by (simp add: all_digits_def)
  then show ?thesis
    using length_itoa [of n 6] assms takeWhile_digits(2) [OF assms(2)] by (simp add: parse_number_def)
qed

definition version_tag :: "nat \<Rightarrow> nat \<Rightarrow> nat \<Rightarrow> string \<Rightarrow> string" where
  "version_tag a b c rest = ''v'' @ itoa_nat a @ ''.'' @ itoa_nat b @ ''.'' @ itoa_nat c @ rest"

lemma parse_version_tag:
  assumes "a < 10 ^ 6" "b < 10 ^ 6" "c < 10 ^ 6" "rest = [] \<or> \<not> is_digit (hd rest)"
  shows "parse_version (version_tag a b c rest) = Some [a, b, c]"
proof -
  have dot: "\<not> is_digit CHR ''.''" by (simp add: is_digit_iff)
  show ?thesis
    using assms parse_number_itoa [of _ "CHR ''.'' # _"] dot
    by (simp add: parse_version_def version_tag_def trim_prefix_def has_prefix_def parse_dot_def
        cut_prefix_def parse_number_itoa)
qed

text \<open>The kiosk never goes back by updating: \<open>Newer\<close> is a strict order on
  what the server announces, by the three numbers as numbers, and whatever follows
  them does not count; what is no release number is never newer than anything.\<close>

lemma Newer_order:
  assumes "a < 10 ^ 6" "b < 10 ^ 6" "c < 10 ^ 6" "a' < 10 ^ 6" "b' < 10 ^ 6" "c' < 10 ^ 6"
    "rest = [] \<or> \<not> is_digit (hd rest)" "rest' = [] \<or> \<not> is_digit (hd rest')"
  shows "(Newer (version_tag a b c rest) (version_tag a' b' c' rest') \<longleftrightarrow>
      a' < a \<or> (a' = a \<and> (b' < b \<or> (b' = b \<and> c' < c)))) \<and>
    \<not> Newer v v \<and> (Newer u v \<longrightarrow> Newer v w \<longrightarrow> Newer u w) \<and>
    (parse_version v = None \<longrightarrow> \<not> Newer v w)"
  using assms
  by (auto simp: Newer_iff version_of_def [of "version_tag _ _ _ _"] parse_version_tag)

lemma Newer_order_example:
  "Newer (version_tag 0 10 0 []) (version_tag 0 9 3 ''-3-g1a2b3c4'')"
  using Newer_order [of 0 10 0 0 9 3 "[]" "''-3-g1a2b3c4''"] by (simp add: is_digit_iff)

section \<open>Names and checksums\<close>

text \<open>Nothing the server sends leads out of the slot or changes a URL: a name
  that is accepted has no slash and is not the directory itself or the one above,
  and a tag that is accepted has none of the characters that mean something in a
  URL.\<close>

lemma names_contained:
  "(validName n \<longrightarrow> CHR ''/'' \<notin> set n \<and> CHR 0x00 \<notin> set n \<and> n \<noteq> ''.'' \<and> n \<noteq> ''..'' \<and> n \<noteq> [] \<and>
      n \<noteq> lost_found \<and> \<not> has_suffix n partial) \<and>
   (validTag t \<longrightarrow> set t \<inter> set ''/%?#&:@ '' = {} \<and> t \<noteq> ''.'' \<and> t \<noteq> ''..'' \<and> t \<noteq> [] \<and>
      newline \<notin> set t)"
proof -
  have n: "\<not> name_char CHR ''/''" "\<not> name_char CHR 0x00"
    by (simp_all add: name_char_def is_lower_def is_digit_def char_le_iff)
  have "list_all (\<lambda>c. \<not> tag_char c) (newline # ''/%?#&:@ '')"
    by (simp add: tag_char_def is_lower_def is_upper_def is_digit_def char_le_iff)
  then have t: "\<not> tag_char c" if "c \<in> set ''/%?#&:@ '' \<or> c = newline" for c
    using that unfolding list_all_iff by (metis list.set_intros)
  have "CHR ''/'' \<notin> set n" "CHR 0x00 \<notin> set n" "hd n \<noteq> CHR ''.''" "n \<noteq> []" "\<not> has_suffix n partial"
    if "validName n"
    using that n by (auto simp: validName_def list_all_iff)
  moreover have "set t \<inter> set ''/%?#&:@ '' = {}" "newline \<notin> set t" "hd t \<noteq> CHR ''.''" "t \<noteq> []"
    if "validTag t"
    using that t unfolding validTag_def list_all_iff by blast+
  ultimately show ?thesis
    using lost_found_name(1) by (metis list.sel(1))
qed

lemma names_contained_example: "CHR ''/'' \<notin> set ''slot.cfg''"
proof -
  have "validName ''slot.cfg''"
    by (simp add: validName_def partial_def has_suffix_def name_char_def is_lower_def is_digit_def char_le_iff)
  then show ?thesis using names_contained by blast
qed

text \<open>A line of \<open>SHA256SUMS\<close>, as \<open>sha256sum\<close> writes it.\<close>

definition sums_line :: "string \<times> string \<Rightarrow> string" where
  "sums_line p = snd p @ ''  '' @ fst p"

definition sums_entry :: "string \<times> string \<Rightarrow> bool" where
  "sums_entry p \<longleftrightarrow> length (snd p) = 64 \<and> list_all is_hex (snd p) \<and> fst p \<noteq> [] \<and> hd (fst p) \<noteq> CHR ''*'' \<and>
     (\<forall>c \<in> set (fst p). \<not> is_space c)"

lemma hex_not_space: "is_hex c \<Longrightarrow> \<not> is_space c"
  by (auto simp: is_hex_def is_space_def is_digit_def char_le_iff)

lemma hex_no_newline: "is_hex c \<Longrightarrow> c \<noteq> newline"
  using hex_not_space [of c] by (auto simp: is_space_def)

lemma sum_of_sums_line:
  assumes "sums_entry p"
  shows "sum_of_line name (sums_line p) = (if fst p = name then Some (to_lower (snd p)) else None)"
proof -
  have "\<forall>c \<in> set (snd p). \<not> is_space c" "snd p \<noteq> []"
    using assms hex_not_space by (auto simp: sums_entry_def list_all_iff)
  then have "str_fields (sums_line p) = snd p # str_fields (CHR '' '' # fst p)"
    using str_fields_word(2) [of "snd p" "CHR '' ''" "CHR '' '' # fst p"]
    by (simp add: sums_line_def is_space_def)
  also have "str_fields (CHR '' '' # fst p) = [fst p]"
    using assms str_fields_word(1) [of "fst p"] by (simp add: sums_entry_def is_space_def)
  finally have f: "str_fields (sums_line p) = [snd p, fst p]" .
  have "trim_prefix (fst p) ''*'' = fst p"
    using assms by (cases "fst p") (auto simp: trim_prefix_def sums_entry_def)
  with f assms show ?thesis
    by (simp add: sum_of_line_def sums_entry_def)
qed

lemma first_sum_lines:
  "\<forall>p \<in> set ps. sums_entry p \<Longrightarrow>
   first_sum name (map sums_line ps @ [[]]) = (case map_of ps name of Some h \<Rightarrow> to_lower h | None \<Rightarrow> [])"
proof (induction ps)
  case Nil
  show ?case by (simp add: sum_of_line_def)
qed (auto simp: sum_of_sums_line)

lemma lower_hex: "is_hex c \<Longrightarrow> is_hex (lower_char c) \<and> \<not> is_upper (lower_char c)"
proof -
  assume h: "is_hex c"
  show ?thesis
  proof (cases "is_upper c")
    case True
    then have "of_char c + (32 :: nat) < 256" "65 \<le> (of_char c :: nat)" "of_char c \<le> (90 :: nat)"
      by (simp_all add: is_upper_def char_le_iff)
    then have "of_char (char_of (of_char c + 32 :: nat)) = of_char c + (32 :: nat)"
      by simp
    with True h show ?thesis
      by (auto simp: lower_char_def is_hex_def is_digit_def is_upper_def char_le_iff)
  qed (use h in \<open>simp add: lower_char_def\<close>)
qed

lemma first_sum_shape:
  "first_sum name ls = [] \<or> (length (first_sum name ls) = 64 \<and>
     list_all (\<lambda>c. is_hex c \<and> \<not> is_upper c) (first_sum name ls))"
proof (induction ls)
  case (Cons l ls)
  have "length s = 64 \<and> list_all (\<lambda>c. is_hex c \<and> \<not> is_upper c) s" if "sum_of_line name l = Some s" for s
    using that lower_hex
    by (auto simp: sum_of_line_def to_lower_def list_all_iff split: list.splits if_splits)
  with Cons show ?case by (auto split: option.split)
qed simp

text \<open>From a checksum file the kiosk takes the checksum of its own file and of
  no other, in the form \<open>hex.EncodeToString\<close> gives, with which it is
  compared; whatever the server sends instead, the result is 64 lower-case hex
  digits or nothing.\<close>

theorem checksum_found:
  assumes "\<forall>p \<in> set ps. sums_entry p"
  shows "findSum (concat (map (\<lambda>p. sums_line p @ [newline]) ps)) name =
      (case map_of ps name of Some h \<Rightarrow> to_lower h | None \<Rightarrow> []) \<and>
    (findSum junk name = [] \<or> (length (findSum junk name) = 64 \<and>
       list_all (\<lambda>c. is_hex c \<and> \<not> is_upper c) (findSum junk name)))"
proof -
  have nl: "newline \<notin> set (sums_line p)" if "sums_entry p" for p
    using that hex_no_newline by (auto simp: sums_line_def sums_entry_def list_all_iff is_space_def)
  have "split_on newline (concat (map (\<lambda>p. sums_line p @ [newline]) ps)) = map sums_line ps @ [[]]"
    using assms by (induction ps) (simp_all add: nl)
  then show ?thesis
    using first_sum_lines [OF assms] first_sum_shape by (simp add: findSum_def)
qed

theorem checksum_found_witness:
  "findSum (replicate 64 CHR ''A'' @ ''  '' @ ''f'' @ [newline]) ''f'' = replicate 64 CHR ''a''"
proof -
  have "sums_entry (''f'', replicate 64 CHR ''A'')"
    by (simp add: sums_entry_def is_hex_def list_all_iff is_digit_def is_space_def char_le_iff)
  moreover have lower: "char_of (97 :: nat) = CHR ''a''" by code_simp
  ultimately show ?thesis
    using checksum_found [of "[(''f'', replicate 64 CHR ''A'')]" "''f''"] lower
    by (simp add: sums_line_def to_lower_def lower_char_def is_upper_def char_le_iff)
qed

section \<open>How the try went\<close>

lemma tried_remember:
  assumes "validTag tag" "sl = ''A'' \<or> sl = ''B''"
  shows "tried (remember tag sl k) = (tag, sl)"
proof -
  have "\<not> tag_char c" if "is_space c" for c
    using that by (auto simp: is_space_def tag_char_def is_lower_def is_upper_def is_digit_def char_le_iff)
  then have "\<forall>c \<in> set tag. \<not> is_space c" "tag \<noteq> []"
    using assms(1) by (auto simp: validTag_def list_all_iff)
  then have "str_fields (tag @ CHR '' '' # sl @ [newline]) = tag # str_fields (sl @ [newline])"
    by (intro str_fields_word) (simp_all add: is_space_def)
  also have "str_fields (sl @ [newline]) = sl # str_fields []"
    using assms(2) by (intro str_fields_word) (auto simp: is_space_def)
  finally show ?thesis
    by (simp add: tried_def remember_def)
qed

text \<open>The kiosk knows how its update went: after an update to a release, a
  boot of the slot it went into reports it up, and once that boot has proven
  itself nothing is left to report; a boot of any other slot reports it failed,
  once, and goes on naming it until an update has come up.\<close>

lemma try_settled:
  assumes "validTag tag" "sl = ''A'' \<or> sl = ''B''"
  shows "let k1 = remember tag sl k; (k2, tag', ok, failed) = Settle b k1
    in tag' = tag \<and> (ok \<longleftrightarrow> sl = Slot b) \<and>
      (sl = Slot b \<longrightarrow> k2 = k1 \<and> failedFile (Kept b k2) = None \<and>
         Settle b' (Kept b k2) = (Kept b k2, [], False, [])) \<and>
      (sl \<noteq> Slot b \<longrightarrow> failed = tag \<and> Kept b k2 = k2 \<and> Settle b' k2 = (k2, [], False, tag))"
proof -
  have "\<not> tag_char c" if "is_space c" for c
    using that by (auto simp: is_space_def tag_char_def is_lower_def is_upper_def is_digit_def char_le_iff)
  then have "\<forall>c \<in> set tag. \<not> is_space c" and ne: "tag \<noteq> []"
    using assms(1) by (auto simp: validTag_def list_all_iff)
  then have "trim_space (tag @ [newline]) = tag" by simp
  then show ?thesis
    using tried_remember [OF assms, of k] ne
    by (auto simp: Settle_def Kept_def Let_def tried_def [of "_\<lparr>triedFile := None\<rparr>"]
        tried_def [of "_\<lparr>triedFile := None, failedFile := _\<rparr>"] trim_space_def trim_left_def trim_right_def)
qed

lemma try_settled_example:
  "fst (snd (Settle \<lparr>Slot = ''B'', Kernel = [], GfxSafe = [], ESP = []\<rparr> (remember ''v1.0.0'' ''B''
      \<lparr>esp = None, disks = [], triedFile = None, failedFile = None\<rparr>))) = ''v1.0.0''"
proof -
  have "validTag ''v1.0.0''"
    by (simp add: validTag_def tag_char_def is_lower_def is_upper_def is_digit_def char_le_iff)
  then show ?thesis
    using try_settled [of "''v1.0.0''" "''B''" "\<lparr>esp = None, disks = [], triedFile = None, failedFile = None\<rparr>" "\<lparr>Slot = ''B'', Kernel = [], GfxSafe = [], ESP = []\<rparr>"]
    by (simp add: Let_def case_prod_unfold)
qed

end
