(* ===== verification/UsbDevice.thy ===== *)
theory UsbDevice
  imports GoStrings GoBytes
begin

text \<open>
  \<open>internal/usb/device.go\<close> and the wire format of \<open>usbip.go\<close>: USB
  devices as sysfs describes them, which of them are the server's, and the USB/IP
  records that describe them. sysfs is an argument: for each entry under
  \<open>/sys/bus/usb/devices\<close> its attributes, its driver and its interfaces.
\<close>

section \<open>Devices\<close>

datatype kind = Local | Storage | Redirect

definition classAudio :: byte where "classAudio = 0x01"
definition classHID :: byte where "classHID = 0x03"
definition classStorage :: byte where "classStorage = 0x08"
definition classHub :: byte where "classHub = 0x09"
definition classSmartCard :: byte where "classSmartCard = 0x0b"
definition classVideo :: byte where "classVideo = 0x0e"
definition classWireless :: byte where "classWireless = 0xe0"

lemmas usb_classes = classAudio_def classHID_def classStorage_def classHub_def
  classSmartCard_def classVideo_def classWireless_def

record usb_interface =
  if_class :: byte
  if_subclass :: byte
  if_protocol :: byte

record usb_device =
  BusID :: string
  dev_path :: string
  Bus :: u32
  Dev :: u32
  Speed :: u32
  Vendor :: u16
  Product :: u16
  BCD :: u16
  dev_class :: byte
  dev_subclass :: byte
  dev_protocol :: byte
  Config :: byte
  NumConfigs :: byte
  Interfaces :: "usb_interface list"
  Net :: bool
  Driver :: string
  Name :: string

fun sort_interfaces :: "bool \<Rightarrow> bool \<Rightarrow> byte list \<Rightarrow> (bool \<times> bool) option" where
  \<comment> \<open>the second loop of \<open>Kind\<close>: \<open>storage\<close> and \<open>other\<close>, or
    \<open>None\<close> where it returns \<open>Local\<close>\<close>
  "sort_interfaces storage oth [] = Some (storage, oth)"
| "sort_interfaces storage oth (c # cs) =
     (if c = classAudio \<or> c = classHID \<or> c = classHub \<or> c = classWireless then None
      else if c = classStorage then sort_interfaces True oth cs
      else sort_interfaces storage True cs)"

definition Kind :: "usb_device \<Rightarrow> kind" where
  "Kind d =
     (if Net d \<or> dev_class d = classHub \<or> dev_class d = classWireless then Local
      else if list_ex (\<lambda>i. if_class i = classVideo) (Interfaces d) then Redirect
      else case sort_interfaces False False (map if_class (Interfaces d)) of
             None \<Rightarrow> Local
           | Some (storage, oth) \<Rightarrow> if oth then Redirect else if storage then Storage else Local)"

definition SmartCard :: "usb_device \<Rightarrow> bool" where
  "SmartCard d = list_ex (\<lambda>i. if_class i = classSmartCard) (Interfaces d)"

definition isBusID :: "string \<Rightarrow> bool" where
  "isBusID name =
     (case cut_at CHR ''-'' name of None \<Rightarrow> False
      | Some (bus, port) \<Rightarrow>
        bus \<noteq> [] \<and> port \<noteq> [] \<and> CHR '':'' \<notin> set port \<and>
        list_all (\<lambda>s. parse_uint 10 16 s \<noteq> None) (bus # split_on CHR ''.'' port))"

definition speedEnum :: "string \<Rightarrow> u32" where
  "speedEnum s =
     (if s = ''1.5'' then 1 else if s = ''12'' then 2 else if s = ''480'' then 3
      else if s = ''53.3-480'' then 4 else if s = ''5000'' then 5
      else if s = ''10000'' \<or> s = ''20000'' then 6 else 0)"

section \<open>sysfs\<close>

record sys_interface =
  sif_name :: string
  sif_attrs :: "(string \<times> string) list"
  sif_net :: bool

record sys_device =
  sd_name :: string
  sd_path :: "string option"                \<comment> \<open>where its link leads\<close>
  sd_attrs :: "(string \<times> string) list"      \<comment> \<open>contents of its attribute files\<close>
  sd_driver :: "string option"
  sd_entries :: "sys_interface list"        \<comment> \<open>the entries of its directory\<close>

definition sys_attr :: "(string \<times> string) list \<Rightarrow> string \<Rightarrow> string" where
  "sys_attr as name = (case map_of as name of None \<Rightarrow> [] | Some b \<Rightarrow> trim_space b)"

definition attrUint :: "(string \<times> string) list \<Rightarrow> string \<Rightarrow> nat \<Rightarrow> nat" where
  "attrUint as name base = parse_uint_or base 32 (sys_attr as name)"

definition readDevice :: "sys_device \<Rightarrow> usb_device option" where
  "readDevice e =
     (case sd_path e of None \<Rightarrow> None
      | Some path \<Rightarrow>
        let as = sd_attrs e; bus = word_of_nat (attrUint as ''busnum'' 10);
            dev = word_of_nat (attrUint as ''devnum'' 10);
            ifs = filter (\<lambda>i. has_prefix (sif_name i) (sd_name e @ '':'')) (sd_entries e)
        in if bus = 0 \<or> dev = 0 then None
           else Some
             \<lparr>BusID = sd_name e, dev_path = path, Bus = bus, Dev = dev,
              Speed = speedEnum (sys_attr as ''speed''),
              Vendor = word_of_nat (attrUint as ''idVendor'' 16),
              Product = word_of_nat (attrUint as ''idProduct'' 16),
              BCD = word_of_nat (attrUint as ''bcdDevice'' 16),
              dev_class = word_of_nat (attrUint as ''bDeviceClass'' 16),
              dev_subclass = word_of_nat (attrUint as ''bDeviceSubClass'' 16),
              dev_protocol = word_of_nat (attrUint as ''bDeviceProtocol'' 16),
              Config = word_of_nat (attrUint as ''bConfigurationValue'' 10),
              NumConfigs = word_of_nat (attrUint as ''bNumConfigurations'' 10),
              Interfaces = map (\<lambda>i. \<lparr>if_class = word_of_nat (attrUint (sif_attrs i) ''bInterfaceClass'' 16),
                 if_subclass = word_of_nat (attrUint (sif_attrs i) ''bInterfaceSubClass'' 16),
                 if_protocol = word_of_nat (attrUint (sif_attrs i) ''bInterfaceProtocol'' 16)\<rparr>) ifs,
              Net = list_ex sif_net ifs,
              Driver = (case sd_driver e of Some l \<Rightarrow> l | None \<Rightarrow> []),
              Name = trim_space (sys_attr as ''manufacturer'' @ '' '' @ sys_attr as ''product'')\<rparr>)"

definition ScanUsb :: "sys_device list \<Rightarrow> usb_device list" where
  \<comment> \<open>\<open>Scan\<close>\<close>
  "ScanUsb sys =
     sort_key BusID (List.map_filter readDevice (filter (\<lambda>e. isBusID (sd_name e)) sys))"

section \<open>USB/IP records\<close>

definition usbipVersion :: u16 where "usbipVersion = 0x0111"
definition opReqDevlist :: u16 where "opReqDevlist = 0x8005"
definition opRepDevlist :: u16 where "opRepDevlist = 0x0005"
definition opReqImport :: u16 where "opReqImport = 0x8003"
definition opRepImport :: u16 where "opRepImport = 0x0003"
definition stOK :: u32 where "stOK = 0x00"
definition stNA :: u32 where "stNA = 0x01"
definition stNoDev :: u32 where "stNoDev = 0x04"

definition opHeader :: "u16 \<Rightarrow> u32 \<Rightarrow> bytes" where
  "opHeader code st = be16 usbipVersion @ be16 code @ be32 st"

definition fixed_field :: "nat \<Rightarrow> bytes \<Rightarrow> bytes" where
  \<comment> \<open>an array of \<open>n\<close> bytes after \<open>copy(a[:n-1], s)\<close>\<close>
  "fixed_field n s = take (n - 1) s @ replicate (n - length (take (n - 1) s)) 0"

definition deviceRecord :: "usb_device \<Rightarrow> bytes" where
  "deviceRecord d =
     fixed_field 256 (bytes_of (dev_path d)) @ fixed_field 32 (bytes_of (BusID d)) @
     be32 (Bus d) @ be32 (Dev d) @ be32 (Speed d) @ be16 (Vendor d) @ be16 (Product d) @ be16 (BCD d) @
     [dev_class d, dev_subclass d, dev_protocol d, Config d, NumConfigs d,
      word_of_nat (length (Interfaces d))]"

definition interface_record :: "usb_interface \<Rightarrow> bytes" where
  "interface_record i = [if_class i, if_subclass i, if_protocol i, 0]"

definition devlistReply :: "usb_device list \<Rightarrow> bytes" where
  "devlistReply devs =
     opHeader opRepDevlist stOK @ be32 (word_of_nat (length devs)) @
     concat (map (\<lambda>d. deviceRecord d @ concat (map interface_record (Interfaces d))) devs)"

section \<open>The records are read back\<close>

text \<open>What a USB/IP client takes from a record: the port, the numbers and the
  interfaces; the path is a string it shows.\<close>

record usb_listed =
  l_busid :: bytes
  l_numbers :: "u32 \<times> u32 \<times> u32"
  l_ids :: "u16 \<times> u16 \<times> u16"
  l_class :: "byte \<times> byte \<times> byte"
  l_config :: "byte \<times> byte"
  l_interfaces :: "usb_interface list"

fun read_interface :: "bytes \<Rightarrow> (usb_interface \<times> bytes) option" where
  "read_interface (a # b # c # _ # r) = Some (\<lparr>if_class = a, if_subclass = b, if_protocol = c\<rparr>, r)"
| "read_interface _ = None"

definition read_listed :: "bytes \<Rightarrow> (usb_listed \<times> bytes) option" where
  "read_listed r =
     (case rd_full 256 r of None \<Rightarrow> None | Some (_, r1) \<Rightarrow>
     (case rd_full 32 r1 of None \<Rightarrow> None | Some (busid, r2) \<Rightarrow>
     (case rd_be32 r2 of None \<Rightarrow> None | Some (bus, r3) \<Rightarrow>
     (case rd_be32 r3 of None \<Rightarrow> None | Some (dev, r4) \<Rightarrow>
     (case rd_be32 r4 of None \<Rightarrow> None | Some (speed, r5) \<Rightarrow>
     (case rd_be16 r5 of None \<Rightarrow> None | Some (vendor, r6) \<Rightarrow>
     (case rd_be16 r6 of None \<Rightarrow> None | Some (prd, r7) \<Rightarrow>
     (case rd_be16 r7 of None \<Rightarrow> None | Some (bcd, r8) \<Rightarrow>
     (case r8 of c # s # p # cfg # ncfg # nifs # r9 \<Rightarrow>
        Some (\<lparr>l_busid = takeWhile (\<lambda>b. b \<noteq> 0) busid, l_numbers = (bus, dev, speed),
          l_ids = (vendor, prd, bcd), l_class = (c, s, p), l_config = (cfg, ncfg),
          l_interfaces = read_upto read_interface (unat nifs) r9\<rparr>,
          drop (4 * length (read_upto read_interface (unat nifs) r9)) r9)
      | _ \<Rightarrow> None)))))))))"

definition usb_listing :: "usb_device \<Rightarrow> usb_listed" where
  "usb_listing d = \<lparr>l_busid = bytes_of (BusID d), l_numbers = (Bus d, Dev d, Speed d),
     l_ids = (Vendor d, Product d, BCD d), l_class = (dev_class d, dev_subclass d, dev_protocol d),
     l_config = (Config d, NumConfigs d),
     l_interfaces = Interfaces d\<rparr>"

definition listable :: "usb_device \<Rightarrow> bool" where
  \<comment> \<open>a port fits its field, the interfaces their count; sysfs names and USB
    descriptors are within both\<close>
  "listable d \<longleftrightarrow> length (BusID d) < 32 \<and> (\<forall>c \<in> set (BusID d). c \<noteq> CHR 0x00) \<and> length (Interfaces d) < 256"

lemma length_fixed_field [simp, wire_simps]: "0 < n \<Longrightarrow> length (fixed_field n s) = n"
  by (auto simp: fixed_field_def)

lemma length_deviceRecord [wire_simps]: "length (deviceRecord d) = 312"
  by (simp add: deviceRecord_def)

lemma char_byte_zero: "(word_of_nat (of_char c) :: byte) = 0 \<longleftrightarrow> c = CHR 0x00"
proof
  assume "(word_of_nat (of_char c) :: byte) = 0"
  then have "unat (word_of_nat (of_char c) :: byte) = 0" by simp
  then have "(of_char c :: nat) = 0" by simp
  then have "char_of (of_char c :: nat) = (char_of (0 :: nat) :: char)" by simp
  moreover have "(char_of (0 :: nat) :: char) = CHR 0x00" by code_simp
  ultimately show "c = CHR 0x00" by simp
qed simp

lemma fixed_field_string:
  assumes "length s < n" "\<forall>c \<in> set s. c \<noteq> CHR 0x00"
  shows "takeWhile (\<lambda>b. b \<noteq> 0) (fixed_field n (bytes_of s)) = bytes_of s"
proof -
  have "\<forall>b \<in> set (bytes_of s). b \<noteq> 0"
    using assms(2) char_byte_zero by (auto simp: bytes_of_def)
  moreover have "fixed_field n (bytes_of s) = bytes_of s @ replicate (n - length s) 0"
    using assms(1) by (simp add: fixed_field_def)
  ultimately show ?thesis
    using assms(1) by (cases "n - length s") (simp_all add: takeWhile_append2)
qed

interpretation iface: codec interface_record read_interface "\<lambda>_. True"
  by unfold_locales (simp add: interface_record_def)

lemma length_interfaces: "length (concat (map interface_record is)) = 4 * length is"
  by (induction "is") (simp_all add: interface_record_def)

lemma read_listed_record:
  assumes "listable d"
  shows "read_listed (deviceRecord d @ concat (map interface_record (Interfaces d)) @ r) =
    Some (usb_listing d, r)"
proof -
  have n: "unat (word_of_nat (length (Interfaces d)) :: byte) = length (Interfaces d)"
    using assms by (simp add: listable_def unat_of_nat take_bit_nat_eq_self_iff)
  have ifs: "read_upto read_interface (length (Interfaces d)) (concat (map interface_record (Interfaces d)) @ r) =
      Interfaces d"
    by (rule iface.read_exact_enc) simp
  have busid: "takeWhile (\<lambda>b. b \<noteq> 0) (fixed_field 32 (bytes_of (BusID d))) = bytes_of (BusID d)"
    using assms by (intro fixed_field_string) (auto simp: listable_def)
  show ?thesis
    by (simp add: read_listed_def deviceRecord_def n ifs busid usb_listing_def length_interfaces)
qed

text \<open>The list of devices a server gets is the list of the devices offered: the
  reply decodes to as many entries as there are devices, each with its own port,
  numbers, identity and interfaces, and every record is the 312 bytes the kernel's
  structure has, however long the names.\<close>

lemma devlist_decodes:
  assumes "\<forall>d \<in> set devs. listable d" "length devs < 2 ^ 32"
  shows "take 8 (devlistReply devs) = opHeader opRepDevlist stOK \<and>
    (\<exists>n r. rd_be32 (drop 8 (devlistReply devs)) = Some (n, r) \<and> unat n = length devs \<and>
       read_upto read_listed (unat n) r = map usb_listing devs) \<and>
    (\<forall>d. length (deviceRecord d) = 312)"
proof -
  have "read_upto read_listed (length devs)
      (concat (map (\<lambda>d. deviceRecord d @ concat (map interface_record (Interfaces d))) devs)) = map usb_listing devs"
    using assms(1) by (induction devs) (simp_all add: read_listed_record)
  moreover have "unat (word_of_nat (length devs) :: u32) = length devs"
    using assms(2) by (simp add: unat_of_nat take_bit_nat_eq_self_iff)
  ultimately show ?thesis
    by (simp add: devlistReply_def opHeader_def length_deviceRecord)
qed

definition sample_printer :: usb_device where
  "sample_printer = \<lparr>BusID = ''1-2'', dev_path = ''/sys/devices/1-2'', Bus = 1, Dev = 5, Speed = 3,
     Vendor = 0x04f9, Product = 0x0042, BCD = 0, dev_class = 0, dev_subclass = 0, dev_protocol = 0,
     Config = 1, NumConfigs = 1,
     Interfaces = [\<lparr>if_class = 7, if_subclass = 1, if_protocol = 2\<rparr>,
       \<lparr>if_class = 8, if_subclass = 6, if_protocol = 80\<rparr>],
     Net = False, Driver = ''usb'', Name = ''Printer''\<rparr>"

lemma devlist_decodes_example:
  "\<exists>r. rd_be32 (drop 8 (devlistReply [sample_printer])) = Some (1, r) \<and>
     read_upto read_listed 1 r = [usb_listing sample_printer]"
proof -
  have "listable sample_printer" by (simp add: listable_def sample_printer_def)
  then obtain n r where n: "rd_be32 (drop 8 (devlistReply [sample_printer])) = Some (n, r)" "unat n = 1"
    "read_upto read_listed (unat n) r = [usb_listing sample_printer]"
    using devlist_decodes [of "[sample_printer]"] by auto
  then have "n = 1" by (simp add: word_unat_eq_iff)
  with n show ?thesis by auto
qed

section \<open>What goes to the server\<close>

lemma sort_interfaces_Some:
  "sort_interfaces st oth cs = Some (st', oth') \<longleftrightarrow>
     (\<forall>c \<in> set cs. c \<notin> {classAudio, classHID, classHub, classWireless}) \<and>
     st' = (st \<or> classStorage \<in> set cs) \<and> oth' = (oth \<or> (\<exists>c \<in> set cs. c \<noteq> classStorage))"
  by (induction st oth cs rule: sort_interfaces.induct) (auto simp: usb_classes)

text \<open>The kiosk keeps what it needs: a device with a keyboard, mouse, sound,
  hub or Bluetooth function or a network adapter never goes to the server unless
  it is a camera, and then only if it is no network adapter, hub or radio as a
  whole; a device is mounted as a drive exactly when drives are all it is, and a
  device that says nothing about itself stays.\<close>

theorem device_kinds:
  "(Kind d = Redirect \<longleftrightarrow>
      \<not> Net d \<and> dev_class d \<notin> {classHub, classWireless} \<and>
      (classVideo \<in> if_class ` set (Interfaces d) \<or>
       (if_class ` set (Interfaces d) \<inter> {classAudio, classHID, classHub, classWireless} = {} \<and>
        \<not> if_class ` set (Interfaces d) \<subseteq> {classStorage}))) \<and>
   (Kind d = Storage \<longleftrightarrow>
      \<not> Net d \<and> dev_class d \<notin> {classHub, classWireless} \<and>
      if_class ` set (Interfaces d) = {classStorage})"
proof -
  define S where "S = if_class ` set (Interfaces d)"
  have S: "set (map if_class (Interfaces d)) = S" by (simp add: S_def)
  have video: "list_ex (\<lambda>i. if_class i = classVideo) (Interfaces d) \<longleftrightarrow> classVideo \<in> S"
    unfolding list_ex_iff S_def by force
  have ne: "classVideo \<noteq> classStorage" "classStorage \<notin> {classAudio, classHID, classHub, classWireless}"
    by (simp_all add: usb_classes)
  show ?thesis
  proof (cases "Net d \<or> dev_class d = classHub \<or> dev_class d = classWireless \<or> classVideo \<in> S")
    case True
    then have "Kind d = (if Net d \<or> dev_class d = classHub \<or> dev_class d = classWireless then Local else Redirect)"
      by (auto simp: Kind_def video)
    with True ne(1) show ?thesis
      unfolding S_def [symmetric] by auto
  next
    case False
    show ?thesis
    proof (cases "sort_interfaces False False (map if_class (Interfaces d))")
      case None
      then have "\<exists>c \<in> S. c \<in> {classAudio, classHID, classHub, classWireless}"
        using sort_interfaces_Some [of False False "map if_class (Interfaces d)"] unfolding S
        by (metis option.distinct(1))
      moreover have "Kind d = Local" using False None by (simp add: Kind_def video)
      ultimately show ?thesis
        unfolding S_def [symmetric] using False ne by auto
    next
      case (Some p)
      then obtain st oth where p: "sort_interfaces False False (map if_class (Interfaces d)) = Some (st, oth)"
        by (cases p) auto
      then have c: "\<forall>c \<in> S. c \<notin> {classAudio, classHID, classHub, classWireless}"
        "st \<longleftrightarrow> classStorage \<in> S" "oth \<longleftrightarrow> (\<exists>c \<in> S. c \<noteq> classStorage)"
        by (simp_all only: sort_interfaces_Some S) simp_all
      moreover have "Kind d = (if oth then Redirect else if st then Storage else Local)"
        using False p by (simp add: Kind_def video)
      ultimately show ?thesis
        unfolding S_def [symmetric] using False ne by auto
    qed
  qed
qed

end
