(* ===== verification/UsbIp.thy ===== *)
theory UsbIp
  imports UsbDevice
begin

text \<open>
  \<open>internal/usb/usbip.go\<close>: the exporter that offers the kiosk's devices to
  the one server a session is with. Connections are served concurrently; a step
  is what runs under the exporter's lock. Writes to sysfs are recorded in order,
  with what the kernel answered: \<open>sys_ok\<close> is the answer to a write, asked at
  its place in the record; what \<open>usbip_status\<close> reads as is \<open>poll\<close>.
\<close>

section \<open>State\<close>

datatype sys_write =
    Unbind string string      \<comment> \<open>driver, port: the driver's \<open>unbind\<close>\<close>
  | MatchAdd string           \<comment> \<open>usbip-host's \<open>match_busid\<close>, \<open>add\<close> and \<open>del\<close>\<close>
  | MatchDel string
  | HostBind string
  | HostUnbind string
  | HostRebind string

record exporter =
  server :: string                             \<comment> \<open>the session's server, an address\<close>
  bound :: "(string \<times> usb_device) list"
  exp_closed :: bool
  writes :: "(sys_write \<times> bool) list"         \<comment> \<open>and whether they worked\<close>

definition new_exporter :: "string \<Rightarrow> exporter" where
  "new_exporter srv = \<lparr>server = srv, bound = [], exp_closed = False, writes = []\<rparr>"

type_synonym sys_answers = "nat \<Rightarrow> bool"   \<comment> \<open>the answer to the \<open>n\<close>-th write\<close>

definition write_attr :: "sys_answers \<Rightarrow> sys_write \<Rightarrow> exporter \<Rightarrow> exporter \<times> bool" where
  "write_attr sys_ok w e =
     (let ok = sys_ok (length (writes e)) in (e\<lparr>writes := writes e @ [(w, ok)]\<rparr>, ok))"

definition usbipHost :: string where "usbipHost = ''usbip-host''"

definition accepts :: "exporter \<Rightarrow> string option \<Rightarrow> bool" where
  \<comment> \<open>\<open>accept\<close>: the address a connection comes from, if it parses\<close>
  "accepts e from = (case from of None \<Rightarrow> False | Some ip \<Rightarrow> ip = server e)"

definition Offered :: "usb_device list \<Rightarrow> exporter \<Rightarrow> usb_device list" where
  \<comment> \<open>on what \<open>Scan\<close> returns\<close>
  "Offered devs e =
     List.map_filter (\<lambda>d.
       case map_of (bound e) (BusID d) of
         Some b \<Rightarrow>
           if Driver d = usbipHost then Some (b\<lparr>Bus := Bus d, Dev := Dev d, dev_path := dev_path d\<rparr>)
           else if Kind d = Redirect then Some d else None
       | None \<Rightarrow> if Kind d = Redirect then Some d else None) devs"

definition release_port :: "sys_answers \<Rightarrow> string \<Rightarrow> exporter \<Rightarrow> exporter" where
  "release_port sys_ok busID e =
     (let (e1, _) = write_attr sys_ok (HostUnbind busID) e;
          (e2, _) = write_attr sys_ok (MatchDel busID) e1;
          (e3, _) = write_attr sys_ok (HostRebind busID) e2
      in e3)"

datatype usbip_error = SessionEnded | UnbindFailed | HostFailed | BindFailed | InUse | NotTaken | NoSuchDevice

fun poll_status :: "(nat \<Rightarrow> string) \<Rightarrow> nat \<Rightarrow> nat \<Rightarrow> usbip_error option" where
  \<comment> \<open>40 looks at \<open>usbip_status\<close>, 50 ms apart\<close>
  "poll_status poll i 0 = Some NotTaken"
| "poll_status poll i (Suc n) =
     (if poll i = ''1'' then None else if poll i = ''2'' then Some InUse else poll_status poll (Suc i) n)"

definition bind_device ::
  "sys_answers \<Rightarrow> (nat \<Rightarrow> string) \<Rightarrow> usb_device \<Rightarrow> exporter \<Rightarrow> exporter \<times> usbip_error option" where
  \<comment> \<open>\<open>bind\<close>\<close>
  "bind_device sys_ok poll d e =
     (if exp_closed e then (e, Some SessionEnded)
      else if map_of (bound e) (BusID d) \<noteq> None then (e, poll_status poll 0 40)
      else let (e1, ok1) = (if Driver d \<noteq> [] \<and> Driver d \<noteq> usbipHost
                            then write_attr sys_ok (Unbind (Driver d) (BusID d)) e else (e, True))
           in if \<not> ok1 then (e1, Some UnbindFailed)
              else let (e2, ok2) = write_attr sys_ok (MatchAdd (BusID d)) e1
                   in if \<not> ok2 then (e2, Some HostFailed)
                      else let (e3, ok3) = write_attr sys_ok (HostBind (BusID d)) e2
                           in if \<not> ok3 then (release_port sys_ok (BusID d) e3, Some BindFailed)
                              else (e3\<lparr>bound := AList.update (BusID d) d (bound e3)\<rparr>, poll_status poll 0 40))"

definition find_offered :: "string \<Rightarrow> usb_device list \<Rightarrow> usb_device option" where
  \<comment> \<open>the last one with that port, as the loop leaves it\<close>
  "find_offered busID devs = find (\<lambda>d. BusID d = busID) (rev devs)"

definition import_answer ::
  "(usb_device \<times> usbip_error option) option \<Rightarrow> bool \<Rightarrow> bytes list" where
  \<comment> \<open>what is written to the connection; \<open>fd\<close>: the socket went to the kernel\<close>
  "import_answer r fd =
     (case r of None \<Rightarrow> [opHeader opRepImport stNoDev]
      | Some (d, Some _) \<Rightarrow> [opHeader opRepImport stNA]
      | Some (d, None) \<Rightarrow>
          if \<not> fd then [opHeader opRepImport stNA] else [opHeader opRepImport stOK @ deviceRecord d])"

definition importDevice ::
  "sys_answers \<Rightarrow> (nat \<Rightarrow> string) \<Rightarrow> bool \<Rightarrow> string \<Rightarrow> usb_device list \<Rightarrow> exporter \<Rightarrow> exporter \<times> bytes list" where
  "importDevice sys_ok poll fd busID offered e =
     (case find_offered busID offered of
        None \<Rightarrow> (e, import_answer None fd)
      | Some d \<Rightarrow>
        let (e1, err) = bind_device sys_ok poll d e
        in (e1, import_answer (Some (d, err)) fd))"

definition serve_request ::
  "sys_answers \<Rightarrow> (nat \<Rightarrow> string) \<Rightarrow> bool \<Rightarrow> usb_device list \<Rightarrow> bytes \<Rightarrow> exporter \<Rightarrow> exporter \<times> bytes list" where
  \<comment> \<open>\<open>serve\<close>, on the bytes the client sends\<close>
  "serve_request sys_ok poll fd devs req e =
     (case rd_full 8 req of
        None \<Rightarrow> (e, [])
      | Some (hdr, r) \<Rightarrow>
        let code = join16 (hdr ! 3) (hdr ! 2)
        in if code = opReqDevlist then (e, [devlistReply (Offered devs e)])
           else if code = opReqImport
           then (case rd_full 32 r of
                   None \<Rightarrow> (e, [])
                 | Some (i, _) \<Rightarrow>
                   importDevice sys_ok poll fd (trim_right (\<lambda>c. c = CHR 0x00) (string_of i)) (Offered devs e) e)
           else (e, []))"

fun check_bound :: "sys_answers \<Rightarrow> usb_device list \<Rightarrow> (string \<times> usb_device) list \<Rightarrow> exporter \<Rightarrow> exporter" where
  \<comment> \<open>the loop of \<open>Check\<close> over \<open>e.bound\<close>\<close>
  "check_bound sys_ok devs [] e = e"
| "check_bound sys_ok devs ((p, b) # bs) e =
     (let gone = (case map_of (rev (map (\<lambda>d. (BusID d, d)) devs)) p of
                    None \<Rightarrow> True | Some d \<Rightarrow> Vendor d \<noteq> Vendor b \<or> Product d \<noteq> Product b)
      in check_bound sys_ok devs bs
           (if gone then (release_port sys_ok p e)\<lparr>bound := AList.delete p (bound e)\<rparr> else e))"

definition Check :: "sys_answers \<Rightarrow> usb_device list \<Rightarrow> exporter \<Rightarrow> exporter" where
  "Check sys_ok devs e = check_bound sys_ok devs (bound e) e"

fun release_all :: "sys_answers \<Rightarrow> string list \<Rightarrow> exporter \<Rightarrow> exporter" where
  "release_all sys_ok [] e = e"
| "release_all sys_ok (p # ps) e =
     release_all sys_ok ps ((release_port sys_ok p e)\<lparr>bound := AList.delete p (bound e)\<rparr>)"

definition CloseExporter :: "sys_answers \<Rightarrow> exporter \<Rightarrow> exporter" where
  "CloseExporter sys_ok e = release_all sys_ok (map fst (bound e)) (e\<lparr>exp_closed := True\<rparr>)"

definition ReleaseStale :: "sys_answers \<Rightarrow> string \<Rightarrow> exporter \<Rightarrow> exporter" where
  \<comment> \<open>on what \<open>match_busid\<close> reads as\<close>
  "ReleaseStale sys_ok matched e = fold (release_port sys_ok) (str_fields matched) e"

section \<open>Ports given to the server\<close>

text \<open>The ports usbip-host has been told to claim and has not let go of, and those
  it would not let go of when told to.\<close>

fun claim :: "sys_write \<times> bool \<Rightarrow> string set \<Rightarrow> string set" where
  "claim (MatchAdd p, ok) s = (if ok then insert p s else s)"
| "claim (MatchDel p, ok) s = (if ok then s - {p} else s)"
| "claim _ s = s"

definition claimed :: "exporter \<Rightarrow> string set" where
  "claimed e = fold claim (writes e) {}"

definition stuck :: "exporter \<Rightarrow> string set" where
  "stuck e = {p. (MatchDel p, False) \<in> set (writes e)}"

definition bound_ports :: "exporter \<Rightarrow> string set" where
  "bound_ports e = dom (map_of (bound e))"

text \<open>The exporter with its connections: \<open>pending\<close> are the devices that
  \<open>importDevice\<close> has found on offer for a client and not bound yet, which it
  does under the lock at some later time.\<close>

record usb_session =
  exporter_of :: exporter
  pending :: "usb_device list"

datatype usb_event =
    Ask "usb_device list" string   \<comment> \<open>what is plugged in, the port asked for\<close>
  | Grant nat
  | Look "usb_device list"         \<comment> \<open>\<open>Check\<close>\<close>
  | EndSession

definition usb_step ::
  "sys_answers \<Rightarrow> (nat \<Rightarrow> string) \<Rightarrow> usb_event \<Rightarrow> usb_session \<Rightarrow> usb_session" where
  "usb_step sys_ok poll ev s =
     (case ev of
        Ask devs busID \<Rightarrow>
          (case find_offered busID (Offered devs (exporter_of s)) of
             None \<Rightarrow> s | Some d \<Rightarrow> s\<lparr>pending := pending s @ [d]\<rparr>)
      | Grant n \<Rightarrow>
          if n < length (pending s)
          then s\<lparr>exporter_of := fst (bind_device sys_ok poll (pending s ! n) (exporter_of s)),
                 pending := take n (pending s) @ drop (Suc n) (pending s)\<rparr>
          else s
      | Look devs \<Rightarrow> s\<lparr>exporter_of := Check sys_ok devs (exporter_of s)\<rparr>
      | EndSession \<Rightarrow> s\<lparr>exporter_of := CloseExporter sys_ok (exporter_of s)\<rparr>)"

definition usb_run ::
  "sys_answers \<Rightarrow> (nat \<Rightarrow> string) \<Rightarrow> usb_event list \<Rightarrow> usb_session \<Rightarrow> usb_session" where
  "usb_run sys_ok poll evs s = fold (usb_step sys_ok poll) evs s"

lemma write_attr_frame [simp]:
  "bound (fst (write_attr sys_ok w e)) = bound e" "exp_closed (fst (write_attr sys_ok w e)) = exp_closed e"
  by (simp_all add: write_attr_def Let_def)

lemma release_frame [simp]:
  "bound (release_port sys_ok p e) = bound e" "exp_closed (release_port sys_ok p e) = exp_closed e"
  by (simp_all add: release_port_def write_attr_def Let_def)

lemma claimed_update [simp]:
  "claimed (e\<lparr>bound := b\<rparr>) = claimed e" "claimed (e\<lparr>exp_closed := x\<rparr>) = claimed e"
  "stuck (e\<lparr>bound := b\<rparr>) = stuck e" "stuck (e\<lparr>exp_closed := x\<rparr>) = stuck e"
  by (simp_all add: claimed_def stuck_def)

lemma claimed_write [simp]:
  "claimed (fst (write_attr sys_ok w e)) = claim (w, sys_ok (length (writes e))) (claimed e)"
  by (simp add: claimed_def write_attr_def Let_def)

lemma write_attr_facts:
  assumes "write_attr sys_ok w e = (e', ok)"
  shows "bound e' = bound e" "exp_closed e' = exp_closed e" "claimed e' = claim (w, ok) (claimed e)"
    "stuck e \<subseteq> stuck e'"
  using assms by (auto simp: write_attr_def Let_def claimed_def stuck_def)

lemma stuck_write: "stuck e \<subseteq> stuck (fst (write_attr sys_ok w e))"
  by (auto simp: stuck_def write_attr_def Let_def)

lemma release_claimed:
  "claimed (release_port sys_ok p e) \<subseteq> claimed e" "stuck e \<subseteq> stuck (release_port sys_ok p e)"
  "p \<in> claimed (release_port sys_ok p e) \<Longrightarrow> p \<in> stuck (release_port sys_ok p e)"
proof -
  have "claimed (release_port sys_ok p e) = claim (MatchDel p, sys_ok (Suc (length (writes e)))) (claimed e)"
    by (simp add: release_port_def claimed_def write_attr_def Let_def)
  moreover have "stuck (release_port sys_ok p e) = stuck e \<union> (if sys_ok (Suc (length (writes e))) then {} else {p})"
    by (auto simp: release_port_def stuck_def write_attr_def Let_def)
  ultimately show "claimed (release_port sys_ok p e) \<subseteq> claimed e" "stuck e \<subseteq> stuck (release_port sys_ok p e)"
    "p \<in> claimed (release_port sys_ok p e) \<Longrightarrow> p \<in> stuck (release_port sys_ok p e)"
    by (auto split: if_splits)
qed

definition exporter_ok :: "exporter \<Rightarrow> bool" where
  "exporter_ok e \<longleftrightarrow>
     claimed e \<subseteq> bound_ports e \<union> stuck e \<and>
     (\<forall>p b. map_of (bound e) p = Some b \<longrightarrow> p = BusID b \<and> Kind b = Redirect)"

lemma Kind_place [simp]: "Kind (b\<lparr>Bus := x, Dev := y, dev_path := z\<rparr>) = Kind b"
  by (simp add: Kind_def)

lemma map_filter_set: "set (List.map_filter f xs) = {y. \<exists>x \<in> set xs. f x = Some y}"
  by (induction xs) (auto simp: List.map_filter_simps split: option.split)

lemma offered_redirect:
  assumes "exporter_ok e" "d \<in> set (Offered devs e)"
  shows "Kind d = Redirect"
proof -
  obtain x where x: "x \<in> set devs" "(case map_of (bound e) (BusID x) of
      Some b \<Rightarrow> if Driver x = usbipHost then Some (b\<lparr>Bus := Bus x, Dev := Dev x, dev_path := dev_path x\<rparr>)
        else if Kind x = Redirect then Some x else None
    | None \<Rightarrow> if Kind x = Redirect then Some x else None) = Some d"
    using assms(2) by (auto simp: Offered_def map_filter_set)
  then show ?thesis
    using assms(1) unfolding exporter_ok_def by (force split: option.splits if_splits)
qed

lemma found_offered: "find_offered p devs = Some d \<Longrightarrow> d \<in> set devs \<and> BusID d = p"
  by (auto simp: find_offered_def find_Some_iff in_set_conv_nth rev_nth)
    (metis (no_types, lifting) diff_Suc_less length_greater_0_conv list.size(3) not_less0)

lemma release_ok:
  assumes "exporter_ok e"
  shows "exporter_ok ((release_port sys_ok p e)\<lparr>bound := AList.delete p (bound e)\<rparr>)"
proof -
  have "x \<in> bound_ports e - {p} \<union> stuck (release_port sys_ok p e)" if "x \<in> claimed (release_port sys_ok p e)" for x
    using that release_claimed(1,3) [where p = p and sys_ok = sys_ok and e = e] release_claimed(2) [where p = p and sys_ok = sys_ok and e = e] assms
    unfolding exporter_ok_def by blast
  then show ?thesis
    using assms by (auto simp: exporter_ok_def bound_ports_def delete_conv')
qed

lemma check_ok: "exporter_ok e \<Longrightarrow> exporter_ok (check_bound sys_ok devs bs e)"
  by (induction sys_ok devs bs e rule: check_bound.induct) (auto simp: Let_def release_ok)

lemma release_all_ok: "exporter_ok e \<Longrightarrow> exporter_ok (release_all sys_ok ps e)"
  by (induction sys_ok ps e rule: release_all.induct) (auto simp: release_ok)

lemma release_all_bound: "map_of (bound (release_all sys_ok ps e)) p = (if p \<in> set ps then None else map_of (bound e) p)"
  by (induction sys_ok ps e rule: release_all.induct) (auto simp: delete_conv')

lemma release_all_closed [simp]: "exp_closed (release_all sys_ok ps e) = exp_closed e"
  by (induction sys_ok ps e rule: release_all.induct) auto

lemma bind_ok:
  assumes "exporter_ok e" "Kind d = Redirect"
  shows "exporter_ok (fst (bind_device sys_ok poll d e))"
proof (cases "exp_closed e \<or> map_of (bound e) (BusID d) \<noteq> None")
  case True
  with assms(1) show ?thesis by (auto simp: bind_device_def)
next
  case False
  let ?p = "BusID d"
  obtain e1 ok1 where e1: "(if Driver d \<noteq> [] \<and> Driver d \<noteq> usbipHost
      then write_attr sys_ok (Unbind (Driver d) ?p) e else (e, True)) = (e1, ok1)" by fastforce
  obtain e2 ok2 where e2: "write_attr sys_ok (MatchAdd ?p) e1 = (e2, ok2)" by fastforce
  obtain e3 ok3 where e3: "write_attr sys_ok (HostBind ?p) e2 = (e3, ok3)" by fastforce
  have one: "exporter_ok e1" "bound e1 = bound e"
    using e1 assms(1) write_attr_facts [of sys_ok "Unbind (Driver d) ?p" e e1 ok1]
    by (auto simp: exporter_ok_def bound_ports_def split: if_splits)
  note two = write_attr_facts [OF e2] and three = write_attr_facts [OF e3]
  have sub: "claimed e3 \<subseteq> insert ?p (bound_ports e \<union> stuck e3)"
    using one two three unfolding exporter_ok_def bound_ports_def by (auto split: if_splits)
  let ?r = "release_port sys_ok ?p e3"
  have res: "fst (bind_device sys_ok poll d e) =
      (if \<not> ok1 then e1 else if \<not> ok2 then e2 else if \<not> ok3 then ?r
       else e3\<lparr>bound := AList.update ?p d (bound e3)\<rparr>)"
    using False by (simp add: bind_device_def e1 e2 e3)
  have "exporter_ok e2" if "\<not> ok2"
    using one two that unfolding exporter_ok_def bound_ports_def by auto
  moreover have "exporter_ok ?r"
  proof -
    have "bound ?r = bound e" using one two three by simp
    moreover have "claimed ?r \<subseteq> bound_ports e \<union> stuck ?r"
      using sub release_claimed [where p = ?p and sys_ok = sys_ok and e = e3] by blast
    ultimately show ?thesis
      using assms(1) by (simp add: exporter_ok_def bound_ports_def)
  qed
  moreover have "exporter_ok (e3\<lparr>bound := AList.update ?p d (bound e3)\<rparr>)"
    using one two three sub assms by (auto simp: exporter_ok_def bound_ports_def update_conv')
  ultimately show ?thesis
    using one(1) unfolding res by simp
qed

definition session_ok :: "usb_session \<Rightarrow> bool" where
  "session_ok s \<longleftrightarrow> exporter_ok (exporter_of s) \<and> (\<forall>d \<in> set (pending s). Kind d = Redirect)"

lemma close_ok:
  assumes "exporter_ok e"
  shows "exporter_ok (CloseExporter sys_ok e)" "bound (CloseExporter sys_ok e) = []"
    "exp_closed (CloseExporter sys_ok e)"
proof -
  have "exporter_ok (e\<lparr>exp_closed := True\<rparr>)"
    using assms by (simp add: exporter_ok_def bound_ports_def)
  then show "exporter_ok (CloseExporter sys_ok e)"
    unfolding CloseExporter_def by (rule release_all_ok)
  have "map_of (bound (CloseExporter sys_ok e)) p = None" for p
    by (simp add: CloseExporter_def release_all_bound map_of_eq_None_iff)
  then show "bound (CloseExporter sys_ok e) = []"
    by (metis list.exhaust map_of_Cons_code(2) option.distinct(1) prod.exhaust)
  show "exp_closed (CloseExporter sys_ok e)"
    by (simp add: CloseExporter_def)
qed

lemma step_ok: "session_ok s \<Longrightarrow> session_ok (usb_step sys_ok poll ev s)"
proof (cases ev)
  case (Ask devs p)
  then show "session_ok s \<Longrightarrow> session_ok (usb_step sys_ok poll ev s)"
    using offered_redirect [of "exporter_of s" _ devs] found_offered [of p "Offered devs (exporter_of s)"]
    by (auto simp: usb_step_def session_ok_def split: option.split)
qed (auto simp: usb_step_def session_ok_def Check_def bind_ok check_ok close_ok
    dest: in_set_takeD in_set_dropD)

lemma closed_stays:
  assumes "exp_closed (exporter_of s)" "bound (exporter_of s) = []"
  shows "exp_closed (exporter_of (usb_step sys_ok poll ev s)) \<and> bound (exporter_of (usb_step sys_ok poll ev s)) = []"
  using assms
  by (cases ev) (auto simp: usb_step_def bind_device_def Check_def CloseExporter_def split: option.split)

text \<open>C12. No device outlives its session. Whatever requests come in, in whatever
  order with devices being plugged and unplugged and the session ending, the only
  ports the USB/IP driver claims are those the exporter knows it has given away
  (or ones the kernel refused to give back), all of them held by devices that are
  the server's to have; once the session has ended none is given away, and none is
  given away again by a request that was still under way.\<close>

theorem devices_returned:
  assumes "s = usb_run sys_ok poll evs \<lparr>exporter_of = new_exporter srv, pending = []\<rparr>"
  shows "claimed (exporter_of s) \<subseteq> bound_ports (exporter_of s) \<union> stuck (exporter_of s) \<and>
    (\<forall>p b. map_of (bound (exporter_of s)) p = Some b \<longrightarrow> p = BusID b \<and> Kind b = Redirect) \<and>
    (EndSession \<in> set evs \<longrightarrow>
      bound (exporter_of s) = [] \<and> claimed (exporter_of s) \<subseteq> stuck (exporter_of s))"
proof -
  let ?s0 = "\<lparr>exporter_of = new_exporter srv, pending = []\<rparr>"
  have s0: "session_ok ?s0"
    by (simp add: session_ok_def exporter_ok_def new_exporter_def claimed_def)
  have ok: "session_ok (usb_run sys_ok poll es t)" if "session_ok t" for es t
    using that by (induction es arbitrary: t) (simp_all add: usb_run_def step_ok)
  have closed: "exp_closed (exporter_of (usb_run sys_ok poll es t)) \<and> bound (exporter_of (usb_run sys_ok poll es t)) = []"
    if "exp_closed (exporter_of t)" "bound (exporter_of t) = []" for es t
    using that by (induction es arbitrary: t) (simp_all add: usb_run_def closed_stays)
  have "bound (exporter_of s) = []" if ended: "EndSession \<in> set evs"
  proof -
    obtain es1 es2 where es: "evs = es1 @ EndSession # es2" using ended by (meson split_list)
    let ?t = "usb_run sys_ok poll es1 ?s0"
    have "exporter_ok (exporter_of ?t)" using ok [OF s0] by (simp add: session_ok_def)
    note c = close_ok [OF this, of sys_ok]
    have "usb_run sys_ok poll evs ?s0 = usb_run sys_ok poll es2 (usb_step sys_ok poll EndSession ?t)"
      by (simp add: es usb_run_def)
    moreover have "exp_closed (exporter_of (usb_step sys_ok poll EndSession ?t)) \<and>
        bound (exporter_of (usb_step sys_ok poll EndSession ?t)) = []"
      using c by (simp add: usb_step_def)
    ultimately show ?thesis using closed assms by simp
  qed
  with ok [OF s0, of evs] show ?thesis
    using assms by (auto simp: session_ok_def exporter_ok_def bound_ports_def)
qed

theorem devices_returned_witness:
  "claimed (exporter_of (usb_run (\<lambda>_. True) (\<lambda>_. ''1'') [Ask [sample_printer] ''1-2'', Grant 0]
     \<lparr>exporter_of = new_exporter ''10.0.0.9'', pending = []\<rparr>)) = {''1-2''} \<and>
   claimed (exporter_of (usb_run (\<lambda>_. True) (\<lambda>_. ''1'') [Ask [sample_printer] ''1-2'', Grant 0, EndSession]
     \<lparr>exporter_of = new_exporter ''10.0.0.9'', pending = []\<rparr>)) = {}"
proof
  let ?s = "\<lparr>exporter_of = new_exporter ''10.0.0.9'', pending = []\<rparr>"
  have off: "find_offered ''1-2'' (Offered [sample_printer] (new_exporter srv)) = Some sample_printer" for srv
    by (simp add: Offered_def List.map_filter_simps new_exporter_def sample_printer_def Kind_def usb_classes
        find_offered_def)
  show "claimed (exporter_of (usb_run (\<lambda>_. True) (\<lambda>_. ''1'') [Ask [sample_printer] ''1-2'', Grant 0] ?s)) = {''1-2''}"
    by (simp add: usb_run_def usb_step_def off)
      (simp add: bind_device_def new_exporter_def sample_printer_def write_attr_def claimed_def usbipHost_def Let_def)
  have st: "stuck (exporter_of (usb_run (\<lambda>_. True) (\<lambda>_. ''1'') [Ask [sample_printer] ''1-2'', Grant 0, EndSession] ?s)) = {}"
    by (simp add: usb_run_def usb_step_def off)
      (simp add: bind_device_def new_exporter_def sample_printer_def write_attr_def stuck_def usbipHost_def Let_def
        CloseExporter_def release_port_def)
  show "claimed (exporter_of (usb_run (\<lambda>_. True) (\<lambda>_. ''1'') [Ask [sample_printer] ''1-2'', Grant 0, EndSession] ?s)) = {}"
    using devices_returned [OF refl, of "\<lambda>_. True" "\<lambda>_. ''1''"
        "[Ask [sample_printer] ''1-2'', Grant 0, EndSession]" "''10.0.0.9''"] st by simp
qed

section \<open>What is plugged into a given port\<close>

definition plugged :: "usb_device list \<Rightarrow> string \<Rightarrow> usb_device option" where
  \<comment> \<open>\<open>present\<close> in \<open>Check\<close>: the last device scanned in that port\<close>
  "plugged devs p = map_of (rev (map (\<lambda>d. (BusID d, d)) devs)) p"

lemma check_bound_keeps:
  assumes "map_of (bound (check_bound sys_ok devs bs e)) p = Some b"
  shows "map_of (bound e) p = Some b \<and>
    (\<forall>b'. (p, b') \<in> set bs \<longrightarrow> (\<exists>d. plugged devs p = Some d \<and> Vendor d = Vendor b' \<and> Product d = Product b'))"
  using assms
proof (induction sys_ok devs bs e rule: check_bound.induct)
  case (2 sys_ok devs q b0 bs e)
  define gone where "gone = (case plugged devs q of None \<Rightarrow> True | Some d \<Rightarrow> Vendor d \<noteq> Vendor b0 \<or> Product d \<noteq> Product b0)"
  let ?e = "if gone then (release_port sys_ok q e)\<lparr>bound := AList.delete q (bound e)\<rparr> else e"
  have step: "check_bound sys_ok devs ((q, b0) # bs) e = check_bound sys_ok devs bs ?e"
    by (simp add: gone_def plugged_def)
  have "map_of (bound ?e) p = Some b \<and>
      (\<forall>b'. (p, b') \<in> set bs \<longrightarrow> (\<exists>d. plugged devs p = Some d \<and> Vendor d = Vendor b' \<and> Product d = Product b'))"
    using "2.IH" [OF refl] "2.prems" unfolding step by (simp add: gone_def plugged_def)
  moreover have "\<not> (gone \<and> p = q)"
    using calculation by (auto simp: delete_conv')
  ultimately show ?case
    by (auto simp: gone_def delete_conv' split: option.splits if_splits)
qed simp

text \<open>A port is not the server's for good: after the exporter has looked, every
  device it has given away is still in its port, the one that was given and no
  other; a keyboard plugged in where a printer was is the kiosk's.\<close>

lemma swapped_device_returned:
  assumes "map_of (bound (Check sys_ok devs e)) p = Some b"
  shows "map_of (bound e) p = Some b \<and>
    (\<exists>d. plugged devs p = Some d \<and> Vendor d = Vendor b \<and> Product d = Product b)"
  using check_bound_keeps [OF assms [unfolded Check_def]] assms map_of_SomeD [of "bound e" p b]
  unfolding Check_def by blast

lemma swapped_device_returned_example:
  "\<exists>d. plugged [sample_printer] ''1-2'' = Some d \<and> Vendor d = 0x04f9"
proof -
  have "map_of (bound (Check (\<lambda>_. True) [sample_printer]
      ((new_exporter [])\<lparr>bound := [(''1-2'', sample_printer)]\<rparr>))) ''1-2'' = Some sample_printer"
    by (simp add: Check_def sample_printer_def)
  moreover have "Vendor sample_printer = 0x04f9"
    by (simp add: sample_printer_def)
  ultimately show ?thesis
    using swapped_device_returned by metis
qed

end
