(* ===== verification/UsbSession.thy ===== *)
theory UsbSession
  imports UsbIp
begin

text \<open>
  \<open>internal/usb/session.go\<close>: the devices of one session. The connection to
  the server's agent and the PC/SC daemon are the outside: whether a dial, a
  write or a start works is an argument, and what is sent is recorded.
\<close>

section \<open>Keeping the agent told\<close>

record agent_link =
  linked :: bool               \<comment> \<open>\<open>c\<close> is not nil\<close>
  last_told :: string
  lastSent :: int
  sent :: "string list"        \<comment> \<open>on the connection there is now\<close>
  link_exporter :: exporter

definition ping_after :: int where "ping_after = 10 * 10 ^ 9"

definition begin_link :: "exporter \<Rightarrow> agent_link" where
  \<comment> \<open>\<open>run\<close>, before its first tick: the zero time is long ago\<close>
  "begin_link e = \<lparr>linked = True, last_told = [], lastSent = - ping_after - 1, sent = [], link_exporter = e\<rparr>"

record tick_world =
  tick_now :: int
  tick_devs :: "usb_device list"     \<comment> \<open>what \<open>Check\<close> and \<open>Offered\<close> scan\<close>
  dial_ok :: bool
  write_ok :: bool

definition session_tick :: "sys_answers \<Rightarrow> tick_world \<Rightarrow> agent_link \<Rightarrow> agent_link" where
  "session_tick sys_ok w l =
     (let l1 = l\<lparr>link_exporter := Check sys_ok (tick_devs w) (link_exporter l)\<rparr>
      in if \<not> linked l1 \<and> \<not> dial_ok w then l1
         else let l2 = (if linked l1 then l1 else l1\<lparr>linked := True, last_told := [], sent := []\<rparr>);
                  offered = Offered (tick_devs w) (link_exporter l2);
                  now = join_with '' '' (map BusID offered);
                  msg = (if now \<noteq> last_told l2
                         then Some (''DEVICES '' @ itoa (int (length offered)) @ [newline])
                         else if ping_after < tick_now w - lastSent l2 then Some (''PING'' @ [newline]) else None)
              in case msg of None \<Rightarrow> l2
                 | Some m \<Rightarrow>
                   if write_ok w then l2\<lparr>sent := sent l2 @ [m], last_told := now, lastSent := tick_now w\<rparr>
                   else l2\<lparr>linked := False\<rparr>)"

definition session_end :: "sys_answers \<Rightarrow> agent_link \<Rightarrow> agent_link" where
  "session_end sys_ok l = l\<lparr>linked := False, link_exporter := CloseExporter sys_ok (link_exporter l)\<rparr>"

definition agent_answer :: "string option \<Rightarrow> bool" where
  \<comment> \<open>\<open>dialAgent\<close>, on the line the agent answers with\<close>
  "agent_answer line = (case line of None \<Rightarrow> False | Some l \<Rightarrow> has_prefix l ''OK'')"

section \<open>The engine's options\<close>

definition rdpDevices :: "bool \<Rightarrow> usb_device list \<Rightarrow> string list" where
  "rdpDevices pcsc devs =
     (let addrs = map (\<lambda>d. itoa_hex (unat (Bus d)) @ '':'' @ itoa_hex (unat (Dev d)))
                    (filter (\<lambda>d. Kind d = Redirect \<and> \<not> SmartCard d) devs);
          usb = ''/usb:'' @ (if addrs \<noteq> [] then ''addr:'' @ join_with ''#'' addrs @ '','' else [])
      in (if pcsc then [''/smartcard''] else []) @ [usb @ ''auto,filter:1#3#8#9#b#e0''])"

definition session_args :: "bool \<Rightarrow> bool \<Rightarrow> usb_device list \<Rightarrow> string list" where
  \<comment> \<open>\<open>Args\<close>; \<open>agent\<close>: the server runs one\<close>
  "session_args agent pcsc devs =
     ''/drive:hotplug,*'' # (if agent then [] else rdpDevices pcsc devs)"

datatype session_start = OverUsbIp | OverRdp

record pcsc_daemon =
  pcsc_running :: bool
  pcsc_installed :: bool

definition startPCSC :: "bool \<Rightarrow> bool \<Rightarrow> pcsc_daemon \<Rightarrow> pcsc_daemon \<times> bool" where
  \<comment> \<open>\<open>started\<close>: the process starts; \<open>stays\<close>: it does not exit while it is
    waited for\<close>
  "startPCSC started stays p =
     (if pcsc_running p then (p, True)
      else if \<not> pcsc_installed p \<or> \<not> started then (p, False)
      else (p\<lparr>pcsc_running := stays\<rparr>, stays))"

definition stopPCSC :: "pcsc_daemon \<Rightarrow> pcsc_daemon" where
  "stopPCSC p = p\<lparr>pcsc_running := False\<rparr>"

definition session_begin ::
  "bool \<Rightarrow> bool \<Rightarrow> bool \<Rightarrow> bool \<Rightarrow> pcsc_daemon \<Rightarrow> pcsc_daemon \<times> session_start" where
  \<comment> \<open>\<open>Begin\<close>: whether there is an agent, and whether the exporter can listen\<close>
  "session_begin agent listens started stays p =
     (if \<not> agent then (fst (startPCSC started stays p), OverRdp)
      else let p1 = stopPCSC p
           in if \<not> listens then (fst (startPCSC started stays p1), OverRdp) else (p1, OverUsbIp))"

section \<open>What the agent knows\<close>

lemma tick_told:
  assumes "linked (session_tick sys_ok w l)"
  shows "last_told (session_tick sys_ok w l) =
    join_with '' '' (map BusID (Offered (tick_devs w) (link_exporter (session_tick sys_ok w l))))"
  using assms
  by (auto simp: session_tick_def Let_def split: option.splits if_splits)

definition told_devices :: "agent_link \<Rightarrow> bool" where
  \<comment> \<open>the last message but pings tells what \<open>last_told\<close> lists\<close>
  "told_devices l \<longleftrightarrow> linked l \<longrightarrow>
     (case filter (\<lambda>m. m \<noteq> ''PING'' @ [newline]) (sent l) of
        [] \<Rightarrow> last_told l = []
      | ms \<Rightarrow> \<exists>ids. last ms = ''DEVICES '' @ itoa (int (length ids)) @ [newline] \<and>
                last_told l = join_with '' '' ids)"

lemma told_nonempty:
  "told_devices l \<longleftrightarrow> (linked l \<longrightarrow>
     (let ms = filter (\<lambda>m. m \<noteq> ''PING'' @ [newline]) (sent l)
      in (ms = [] \<longrightarrow> last_told l = []) \<and>
         (ms \<noteq> [] \<longrightarrow> (\<exists>ids. last ms = ''DEVICES '' @ itoa (int (length ids)) @ [newline] \<and>
                last_told l = join_with '' '' ids))))"
  by (auto simp: told_devices_def Let_def split: list.splits)

text \<open>The server's agent always knows what is on offer: whatever connections
  are lost and made again, after every tick that leaves a connection the last
  message on it that lists devices gives the number of those on offer now (or, when
  there never were any, none was sent), and no tick later than ten seconds after the
  last message passes without one.\<close>

lemma agent_told:
  assumes "told_devices l"
  shows "told_devices (session_tick sys_ok w l) \<and>
    (linked (session_tick sys_ok w l) \<longrightarrow>
       last_told (session_tick sys_ok w l) =
         join_with '' '' (map BusID (Offered (tick_devs w) (link_exporter (session_tick sys_ok w l)))) \<and>
       tick_now w - lastSent (session_tick sys_ok w l) \<le> ping_after)"
proof -
  have dev: "''DEVICES '' @ itoa n @ [newline] \<noteq> ''PING'' @ [newline]" for n by simp
  have l2: "told_devices l \<Longrightarrow> linked l \<Longrightarrow> told_devices (l\<lparr>link_exporter := e\<rparr>)" for e
    by (simp add: told_nonempty)
  define l1 where "l1 = l\<lparr>link_exporter := Check sys_ok (tick_devs w) (link_exporter l)\<rparr>"
  define l2 where "l2 = (if linked l1 then l1 else l1\<lparr>linked := True, last_told := [], sent := []\<rparr>)"
  define ids where "ids = map BusID (Offered (tick_devs w) (link_exporter l2))"
  have t2: "told_devices l2"
    using assms by (simp add: l2_def l1_def told_nonempty Let_def)
  have n: "length ids = length (Offered (tick_devs w) (link_exporter l2))" by (simp add: ids_def)
  have tick: "session_tick sys_ok w l =
     (if \<not> linked l1 \<and> \<not> dial_ok w then l1
      else case (if join_with '' '' ids \<noteq> last_told l2 then Some (''DEVICES '' @ itoa (int (length ids)) @ [newline])
                 else if ping_after < tick_now w - lastSent l2 then Some (''PING'' @ [newline]) else None) of
        None \<Rightarrow> l2
      | Some m \<Rightarrow> if write_ok w then l2\<lparr>sent := sent l2 @ [m], last_told := join_with '' '' ids, lastSent := tick_now w\<rparr>
                  else l2\<lparr>linked := False\<rparr>)"
    unfolding n by (simp add: session_tick_def Let_def ids_def l2_def l1_def)
  have "told_devices (session_tick sys_ok w l)"
    unfolding tick using t2 dev by (auto simp: told_nonempty Let_def split: option.split)
  moreover have "tick_now w - lastSent (session_tick sys_ok w l) \<le> ping_after" if "linked (session_tick sys_ok w l)"
    using that unfolding tick by (auto simp: ping_after_def split: if_splits)
  ultimately show ?thesis
    using tick_told by blast
qed

lemma agent_told_example:
  "last_told (session_tick (\<lambda>_. True) \<lparr>tick_now = 1, tick_devs = [sample_printer], dial_ok = True, write_ok = True\<rparr>
     (begin_link (new_exporter ''10.0.0.9''))) = ''1-2''"
proof -
  have "told_devices (begin_link (new_exporter ''10.0.0.9''))"
    by (simp add: told_devices_def begin_link_def)
  note t = agent_told [OF this, of "\<lambda>_. True" "\<lparr>tick_now = 1, tick_devs = [sample_printer], dial_ok = True, write_ok = True\<rparr>"]
  have off: "Offered [sample_printer] (Check (\<lambda>_. True) [sample_printer] (new_exporter srv)) = [sample_printer]" for srv
    by (simp add: Offered_def List.map_filter_simps new_exporter_def sample_printer_def Kind_def usb_classes Check_def)
  have "BusID sample_printer = ''1-2''" by (simp add: sample_printer_def)
  with t off show ?thesis
    by (simp add: session_tick_def begin_link_def Let_def)
qed

end
