(* ===== verification/Drives.thy ===== *)
theory Drives
  imports UsbDevice
begin

text \<open>
  \<open>internal/usb/drives.go\<close>: the kiosk's USB drives, mounted under
  \<open>/media\<close> for the session to offer. What sysfs, \<open>blkid\<close> and the mounts
  answer at a poll is the argument \<open>view\<close>; Go's maps are association lists,
  and a poll takes the devices wanted in the order of its list, which may be any.
  A label is the list of its runes, each a string, since which runes are letters is
  Unicode's: \<open>letter\<close> and \<open>digit\<close> say.
\<close>

section \<open>State\<close>

record drive =
  on_disk :: string
  on_medium :: string
  mount_dir :: string      \<comment> \<open>its name under \<open>/media\<close>\<close>

record failure =
  f_medium :: string
  f_count :: nat

record verdict_entry =
  v_key :: string
  v_own :: bool

record drives =
  disks_held :: "string list"
  mounts :: "(string \<times> drive) list"
  failed :: "(string \<times> failure) list"
  own :: "(string \<times> verdict_entry) list"
  unmounted :: "string list"                  \<comment> \<open>directories, in order\<close>
  attempts :: "(string \<times> string) list"       \<comment> \<open>devices and media a mount was tried for\<close>

definition NewDrives :: drives where
  "NewDrives = \<lparr>disks_held = [], mounts = [], failed = [], own = [], unmounted = [], attempts = []\<rparr>"

definition mountAttempts :: nat where "mountAttempts = 3"

record filesystem =
  fstype :: string
  fs_opts :: string
  fs_ro :: bool

definition filesystems :: "(string \<times> filesystem) list" where
  "filesystems =
     [(''vfat'', \<lparr>fstype = ''vfat'', fs_opts = ''uid=0,gid=0,fmask=0133,dmask=0022,iocharset=utf8,shortname=mixed,flush,errors=remount-ro'', fs_ro = False\<rparr>),
      (''exfat'', \<lparr>fstype = ''exfat'', fs_opts = ''uid=0,gid=0,fmask=0133,dmask=0022,iocharset=utf8,errors=remount-ro'', fs_ro = False\<rparr>),
      (''ntfs'', \<lparr>fstype = ''ntfs3'', fs_opts = ''uid=0,gid=0,fmask=0133,dmask=0022,iocharset=utf8'', fs_ro = False\<rparr>),
      (''ext2'', \<lparr>fstype = ''ext4'', fs_opts = ''errors=remount-ro'', fs_ro = False\<rparr>),
      (''ext3'', \<lparr>fstype = ''ext4'', fs_opts = ''errors=remount-ro'', fs_ro = False\<rparr>),
      (''ext4'', \<lparr>fstype = ''ext4'', fs_opts = ''errors=remount-ro'', fs_ro = False\<rparr>),
      (''iso9660'', \<lparr>fstype = ''iso9660'', fs_opts = ''iocharset=utf8'', fs_ro = True\<rparr>)]"

section \<open>What a poll sees\<close>

record disk_view =
  dk_name :: string
  dk_path :: "string option"                     \<comment> \<open>where its sysfs link leads\<close>
  dk_type :: string                              \<comment> \<open>of an mmc card\<close>
  dk_attrs :: "(string \<times> string) list"
  dk_entries :: "(string \<times> bool) list"           \<comment> \<open>its directory; is it a partition\<close>

record drive_view =
  vw_disks :: "disk_view list"
  vw_device :: "string \<Rightarrow> usb_device option"       \<comment> \<open>\<open>readDevice\<close>\<close>
  vw_medium :: "string \<Rightarrow> bool"                   \<comment> \<open>is the disk the install medium\<close>
  vw_probe :: "string \<Rightarrow> string \<times> string list"   \<comment> \<open>\<open>blkid\<close>: type and label\<close>
  vw_letter :: "string \<Rightarrow> bool"
  vw_digit :: "string \<Rightarrow> bool"
  vw_mkdir :: "string \<Rightarrow> bool"
  vw_mount :: "string \<Rightarrow> bool \<Rightarrow> bool"             \<comment> \<open>of a device, read-only or not\<close>

definition usbDeviceOf :: "string \<Rightarrow> string" where
  "usbDeviceOf path = foldl (\<lambda>i c. if isBusID c then c else i) [] (split_on CHR ''/'' path)"

definition removable :: "drive_view \<Rightarrow> disk_view \<Rightarrow> bool" where
  "removable v d =
     (case dk_path d of None \<Rightarrow> False
      | Some path \<Rightarrow>
        if has_prefix (dk_name d) ''mmcblk'' then dk_type d = ''SD''
        else let busID = usbDeviceOf path
             in busID \<noteq> [] \<and> (case vw_device v busID of None \<Rightarrow> False | Some u \<Rightarrow> Kind u = Storage))"

definition mediumOf :: "disk_view \<Rightarrow> string" where
  "mediumOf d =
     (let sz = sys_attr (dk_attrs d) ''size''; seq = sys_attr (dk_attrs d) ''diskseq''
      in if sz = [] \<or> sz = ''0'' then []
         else if seq \<noteq> [] then seq
         else sys_attr (dk_attrs d) ''dev'' @ ''/'' @ sz)"

definition partitions :: "disk_view \<Rightarrow> string list" where
  "partitions d = map fst (filter snd (dk_entries d))"

definition diskOf :: "drive_view \<Rightarrow> string \<Rightarrow> string" where
  "diskOf v dev =
     (case find (\<lambda>d. dk_name d = dev \<or> (dev, True) \<in> set (dk_entries d)) (vw_disks v) of
        None \<Rightarrow> dev | Some d \<Rightarrow> dk_name d)"

definition ownDisk ::
  "drive_view \<Rightarrow> string \<Rightarrow> string \<Rightarrow> string list \<Rightarrow> drives \<Rightarrow> drives \<times> bool" where
  "ownDisk v disk medium devs s =
     (let key = medium @ '' '' @ join_with '' '' devs
      in case map_of (own s) disk of
           Some e \<Rightarrow> if v_key e = key then (s, v_own e)
                     else let o1 = vw_medium v disk \<or> list_ex (\<lambda>dev. has_prefix (concat (snd (vw_probe v dev))) ''SC_'') devs
                          in (s\<lparr>own := AList.update disk \<lparr>v_key = key, v_own = o1\<rparr> (own s)\<rparr>, o1)
         | None \<Rightarrow> let o1 = vw_medium v disk \<or> list_ex (\<lambda>dev. has_prefix (concat (snd (vw_probe v dev))) ''SC_'') devs
                   in (s\<lparr>own := AList.update disk \<lparr>v_key = key, v_own = o1\<rparr> (own s)\<rparr>, o1))"

fun present_loop ::
  "drive_view \<Rightarrow> disk_view list \<Rightarrow> (string \<times> string) list \<Rightarrow> drives \<Rightarrow> drives \<times> (string \<times> string) list" where
  "present_loop v [] want s = (s, want)"
| "present_loop v (d # ds) want s =
     (let medium = mediumOf d;
          ps = partitions d;
          devs = (if ps = [] then [dk_name d] else ps)
      in if \<not> removable v d \<or> medium = [] then present_loop v ds want s
         else let (s1, mine) = ownDisk v (dk_name d) medium devs s
              in present_loop v ds
                   (if mine then want else foldl (\<lambda>w dev. AList.update dev medium w) want devs) s1)"

definition present :: "drive_view \<Rightarrow> drives \<Rightarrow> drives \<times> (string \<times> string) list" where
  "present v s = present_loop v (vw_disks v) [] s"

section \<open>Names\<close>

fun dir_runes :: "(string \<Rightarrow> bool) \<Rightarrow> (string \<Rightarrow> bool) \<Rightarrow> nat \<Rightarrow> string list \<Rightarrow> string" where
  "dir_runes letter digit n [] = []"
| "dir_runes letter digit n (r # rs) =
     (if n = 32 then []
      else if letter r \<or> digit r \<or> r = ''-'' \<or> r = ''_'' \<or> r = ''.''
           then r @ dir_runes letter digit (Suc n) rs
      else if r = '' '' then ''_'' @ dir_runes letter digit (Suc n) rs
      else dir_runes letter digit n rs)"

definition dir_mark :: "char \<Rightarrow> bool" where
  "dir_mark c \<longleftrightarrow> c = CHR ''.'' \<or> c = CHR ''_'' \<or> c = CHR ''-''"

definition dirName :: "(string \<Rightarrow> bool) \<Rightarrow> (string \<Rightarrow> bool) \<Rightarrow> string list \<Rightarrow> string" where
  "dirName letter digit label =
     (let s = trim_right dir_mark (trim_left dir_mark (dir_runes letter digit 0 label))
      in if s \<noteq> [] then s else ''USB'')"

definition numbered :: "string \<Rightarrow> nat \<Rightarrow> string" where
  "numbered name i = name @ ''-'' @ itoa_nat i"

fun free_from :: "string list \<Rightarrow> string \<Rightarrow> string \<Rightarrow> nat \<Rightarrow> nat \<Rightarrow> string option" where
  \<comment> \<open>\<open>for i := 2; taken[n]; i++\<close>, at most \<open>fuel\<close> names\<close>
  "free_from taken name n i 0 = None"
| "free_from taken name n i (Suc fuel) =
     (if n \<notin> set taken then Some n else free_from taken name (numbered name i) (Suc i) fuel)"

definition freeName :: "string \<Rightarrow> drives \<Rightarrow> string option" where
  "freeName name s =
     (let taken = map (\<lambda>(_, m). mount_dir m) (mounts s)
      in free_from taken name name 2 (length taken + 1))"

section \<open>Mounting\<close>

datatype mount_error = NoFileSystem | Unsupported string | NoDirectory | NotMounted

definition mount_drive ::
  "drive_view \<Rightarrow> string \<Rightarrow> string \<Rightarrow> string \<Rightarrow> drives \<Rightarrow> drives \<times> mount_error option" where
  "mount_drive v dev disk medium s =
     (let (fsName, label) = vw_probe v dev
      in case map_of filesystems fsName of
           None \<Rightarrow> (s, Some (if fsName = [] then NoFileSystem else Unsupported fsName))
         | Some fs \<Rightarrow>
           (case freeName (dirName (vw_letter v) (vw_digit v) label) s of
              None \<Rightarrow> (s, Some NoDirectory)
            | Some dir \<Rightarrow>
              if \<not> vw_mkdir v dir then (s, Some NoDirectory)
              else let ro = fs_ro fs \<or>
                         (case find (\<lambda>d. dk_name d = disk) (vw_disks v) of
                            None \<Rightarrow> False | Some d \<Rightarrow> sys_attr (dk_attrs d) ''ro'' = ''1'');
                       ok = vw_mount v dev ro \<or> (\<not> ro \<and> vw_mount v dev True)
                   in if \<not> ok then (s, Some NotMounted)
                      else (s\<lparr>mounts := AList.update dev
                               \<lparr>on_disk = disk, on_medium = medium, mount_dir = dir\<rparr> (mounts s)\<rparr>, None)))"

definition unmount_drive :: "string \<Rightarrow> drive \<Rightarrow> drives \<Rightarrow> drives" where
  "unmount_drive dev m s =
     s\<lparr>mounts := AList.delete dev (mounts s), unmounted := unmounted s @ [mount_dir m]\<rparr>"

definition Hold :: "string \<Rightarrow> drives \<Rightarrow> drives" where
  "Hold disk s =
     foldl (\<lambda>t (dev, m). if on_disk m = disk then unmount_drive dev m t else t)
       (s\<lparr>disks_held := disk # disks_held s\<rparr>) (mounts s)"

definition want_medium :: "(string \<times> string) list \<Rightarrow> string \<Rightarrow> string" where
  "want_medium want dev = (case map_of want dev of Some m \<Rightarrow> m | None \<Rightarrow> [])"

definition drop_gone :: "(string \<times> string) list \<Rightarrow> drives \<Rightarrow> drives" where
  \<comment> \<open>the first loop of \<open>Poll\<close>\<close>
  "drop_gone want s =
     foldl (\<lambda>t (dev, m). if want_medium want dev \<noteq> on_medium m \<or> on_disk m \<in> set (disks_held s)
                         then unmount_drive dev m t else t) s (mounts s)"

definition try_mount :: "drive_view \<Rightarrow> string \<Rightarrow> string \<Rightarrow> drives \<Rightarrow> drives" where
  \<comment> \<open>the body of its second\<close>
  "try_mount v dev medium s =
     (if map_of (mounts s) dev \<noteq> None then s
      else let f0 = (case map_of (failed s) dev of Some f \<Rightarrow> f | None \<Rightarrow> \<lparr>f_medium = [], f_count = 0\<rparr>);
               f = (if f_medium f0 \<noteq> medium then \<lparr>f_medium = medium, f_count = 0\<rparr> else f0);
               disk = diskOf v dev
           in if mountAttempts \<le> f_count f \<or> disk \<in> set (disks_held s) then s
              else let (s1, err) = mount_drive v dev disk medium (s\<lparr>attempts := attempts s @ [(dev, medium)]\<rparr>)
                   in if err \<noteq> None
                      then s1\<lparr>failed := AList.update dev (f\<lparr>f_count := Suc (f_count f)\<rparr>) (failed s1)\<rparr>
                      else s1\<lparr>failed := AList.delete dev (failed s1)\<rparr>)"

definition mount_new :: "drive_view \<Rightarrow> (string \<times> string) list \<Rightarrow> drives \<Rightarrow> drives" where
  "mount_new v want s = foldl (\<lambda>s (dev, medium). try_mount v dev medium s) s want"

definition Poll :: "drive_view \<Rightarrow> drives \<Rightarrow> drives" where
  "Poll v s = (let (s1, want) = present v s in mount_new v want (drop_gone want s1))"

section \<open>A free name is found\<close>

lemma itoa_nat_inj: "itoa_nat m = itoa_nat n \<Longrightarrow> m = n"
  by (metis digits_val_itoa)

lemma free_from_Some: "free_from taken name n i fuel = Some m \<Longrightarrow> m \<notin> set taken"
  by (induction taken name n i fuel rule: free_from.induct) (auto split: if_splits)

lemma free_from_tried:
  "free_from taken name n i fuel = None \<Longrightarrow>
   (0 < fuel \<longrightarrow> n \<in> set taken) \<and> (\<forall>j. i \<le> j \<and> j + 1 < i + fuel \<longrightarrow> numbered name j \<in> set taken)"
proof (induction taken name n i fuel rule: free_from.induct)
  case (2 taken name n i fuel)
  then have n: "n \<in> set taken"
    and IH: "(0 < fuel \<longrightarrow> numbered name i \<in> set taken) \<and>
      (\<forall>j. Suc i \<le> j \<and> j + 1 < Suc i + fuel \<longrightarrow> numbered name j \<in> set taken)"
    by (auto split: if_splits)
  have "numbered name j \<in> set taken" if "i \<le> j" "j + 1 < i + Suc fuel" for j
    using IH that by (cases "j = i") auto
  with n show ?case by auto
qed (intro conjI allI impI; linarith)

text \<open>The fuel of \<open>freeName\<close> is enough: there are more names to try than
  drives mounted.\<close>

lemma freeName_found: "\<exists>n. freeName name s = Some n \<and> n \<notin> (\<lambda>(_, m). mount_dir m) ` set (mounts s)"
proof -
  let ?taken = "map (\<lambda>(_, m). mount_dir m) (mounts s)"
  have "freeName name s \<noteq> None"
  proof
    assume none: "freeName name s = None"
    then have all: "name \<in> set ?taken" "\<And>j. 2 \<le> j \<Longrightarrow> j < length ?taken + 2 \<Longrightarrow> numbered name j \<in> set ?taken"
      using free_from_tried [OF none [unfolded freeName_def Let_def]] by simp_all
    let ?js = "{2..<length ?taken + 2}"
    have "inj_on (numbered name) ?js"
      by (intro inj_onI) (simp add: numbered_def itoa_nat_inj)
    then have card: "card (numbered name ` ?js) = length ?taken"
      by (simp add: card_image)
    have "name \<notin> numbered name ` ?js" by (auto simp: numbered_def)
    then have "card (insert name (numbered name ` ?js)) = Suc (length ?taken)"
      using card by simp
    moreover have "insert name (numbered name ` ?js) \<subseteq> set ?taken" using all by auto
    ultimately have "Suc (length ?taken) \<le> card (set ?taken)"
      by (metis card_mono finite_set)
    then show False using card_length [of ?taken] by linarith
  qed
  then obtain n where n: "freeName name s = Some n" by blast
  then have "n \<notin> set ?taken"
    unfolding freeName_def Let_def by (rule free_from_Some)
  with n show ?thesis by auto
qed

section \<open>The invariant\<close>

definition drives_ok :: "drives \<Rightarrow> bool" where
  "drives_ok s \<longleftrightarrow>
     distinct (map fst (mounts s)) \<and> distinct (map (\<lambda>(_, m). mount_dir m) (mounts s)) \<and>
     (\<forall>(dev, m) \<in> set (mounts s). on_disk m \<notin> set (disks_held s) \<and> on_medium m \<noteq> [])"

lemma unmount_loop:
  "mounts (foldl (\<lambda>t (dev, m). if P dev m then unmount_drive dev m t else t) s xs) =
     filter (\<lambda>(d, _). \<forall>m. (d, m) \<in> set xs \<longrightarrow> \<not> P d m) (mounts s) \<and>
   disks_held (foldl (\<lambda>t (dev, m). if P dev m then unmount_drive dev m t else t) s xs) = disks_held s \<and>
   failed (foldl (\<lambda>t (dev, m). if P dev m then unmount_drive dev m t else t) s xs) = failed s"
proof (induction xs arbitrary: s)
  case Nil
  then show ?case by (simp add: case_prod_unfold)
next
  case (Cons x xs)
  obtain d m where x: "x = (d, m)" by (cases x)
  show ?case
  proof (cases "P d m")
    case True
    have "filter (\<lambda>(d', _). \<forall>m. (d', m) \<in> set xs \<longrightarrow> \<not> P d' m) (AList.delete d (mounts s)) =
        filter (\<lambda>(d', _). \<forall>m. (d', m) \<in> set (x # xs) \<longrightarrow> \<not> P d' m) (mounts s)"
      unfolding AList.delete_eq filter_filter x using True by (intro filter_cong) auto
    with True show ?thesis using Cons [of "unmount_drive d m s"] by (simp add: x unmount_drive_def)
  next
    case False
    have "filter (\<lambda>(d', _). \<forall>m. (d', m) \<in> set xs \<longrightarrow> \<not> P d' m) (mounts s) =
        filter (\<lambda>(d', _). \<forall>m. (d', m) \<in> set (x # xs) \<longrightarrow> \<not> P d' m) (mounts s)"
      unfolding x using False by (intro filter_cong) auto
    with False show ?thesis using Cons [of s] by (simp add: x)
  qed
qed

lemma unmount_all:
  assumes "distinct (map fst (mounts s))" "mounts s' = mounts s"
  shows "mounts (foldl (\<lambda>t (dev, m). if P dev m then unmount_drive dev m t else t) s' (mounts s)) =
     filter (\<lambda>(d, m). \<not> P d m) (mounts s)"
proof -
  have "filter (\<lambda>(d, _). \<forall>m. (d, m) \<in> set (mounts s) \<longrightarrow> \<not> P d m) (mounts s) = filter (\<lambda>(d, m). \<not> P d m) (mounts s)"
    using assms(1) by (intro filter_cong) (auto dest: eq_key_imp_eq_value)
  then show ?thesis
    using unmount_loop [of P s' "mounts s"] assms(2) by simp
qed

lemma distinct_filter_map: "distinct (map f xs) \<Longrightarrow> distinct (map f (filter P xs))"
  by (rule distinct_map_filter)

lemma hold_ok:
  assumes "drives_ok s"
  shows "drives_ok (Hold disk s)" "disk \<in> set (disks_held (Hold disk s))"
    "disks_held (Hold disk s) = disk # disks_held s"
proof -
  let ?s = "s\<lparr>disks_held := disk # disks_held s\<rparr>"
  have m: "mounts (Hold disk s) = filter (\<lambda>(d, m). on_disk m \<noteq> disk) (mounts s)"
    using unmount_all [of s ?s "\<lambda>_ m. on_disk m = disk"] assms by (simp add: Hold_def drives_ok_def)
  show h: "disks_held (Hold disk s) = disk # disks_held s"
    using unmount_loop [of "\<lambda>_ m. on_disk m = disk" ?s "mounts s"] by (simp add: Hold_def)
  show "disk \<in> set (disks_held (Hold disk s))" by (simp add: h)
  show "drives_ok (Hold disk s)"
    using assms unfolding drives_ok_def m h by (auto intro!: distinct_filter_map)
qed

lemma drop_gone_ok:
  assumes "drives_ok s"
  shows "drives_ok (drop_gone want s)" "disks_held (drop_gone want s) = disks_held s"
    "mounts (drop_gone want s) = filter (\<lambda>(d, m). want_medium want d = on_medium m) (mounts s)"
proof -
  let ?P = "\<lambda>d m. want_medium want d \<noteq> on_medium m \<or> on_disk m \<in> set (disks_held s)"
  have "mounts (drop_gone want s) = filter (\<lambda>(d, m). \<not> ?P d m) (mounts s)"
    using unmount_all [of s s ?P] assms by (simp add: drop_gone_def drives_ok_def)
  also have "\<dots> = filter (\<lambda>(d, m). want_medium want d = on_medium m) (mounts s)"
    using assms by (intro filter_cong) (auto simp: drives_ok_def)
  finally show m: "mounts (drop_gone want s) = filter (\<lambda>(d, m). want_medium want d = on_medium m) (mounts s)" .
  show h: "disks_held (drop_gone want s) = disks_held s"
    using unmount_loop [of ?P s "mounts s"] by (simp add: drop_gone_def)
  show "drives_ok (drop_gone want s)"
    using assms unfolding drives_ok_def m h by (auto intro!: distinct_filter_map)
qed

lemma update_new: "map_of xs k = None \<Longrightarrow> AList.update k v xs = xs @ [(k, v)]"
  by (induction xs) (auto split: if_splits)

lemma mount_drive_spec:
  assumes "mount_drive v dev disk medium s = (s', err)" "map_of (mounts s) dev = None"
  shows "(err = None \<longrightarrow> (\<exists>dir. dir \<notin> (\<lambda>(_, m). mount_dir m) ` set (mounts s) \<and>
      s' = s\<lparr>mounts := mounts s @ [(dev, \<lparr>on_disk = disk, on_medium = medium, mount_dir = dir\<rparr>)]\<rparr>)) \<and>
    (err \<noteq> None \<longrightarrow> s' = s)"
proof -
  obtain fsName label where p: "vw_probe v dev = (fsName, label)" by fastforce
  obtain n where n: "freeName (dirName (vw_letter v) (vw_digit v) label) s = Some n"
    "n \<notin> (\<lambda>(_, m). mount_dir m) ` set (mounts s)"
    using freeName_found by blast
  show ?thesis
    using assms n by (auto simp: mount_drive_def p update_new Let_def split: option.splits if_splits)
qed

lemma try_mount_ok:
  assumes "drives_ok s" "medium \<noteq> []"
  shows "drives_ok (try_mount v dev medium s)" "disks_held (try_mount v dev medium s) = disks_held s"
    "mounts (try_mount v dev medium s) = mounts s \<or>
     (\<exists>m. mounts (try_mount v dev medium s) = mounts s @ [(dev, m)] \<and> on_medium m = medium \<and> on_disk m = diskOf v dev)"
proof -
  have "drives_ok (try_mount v dev medium s) \<and> disks_held (try_mount v dev medium s) = disks_held s \<and>
    (mounts (try_mount v dev medium s) = mounts s \<or>
     (\<exists>m. mounts (try_mount v dev medium s) = mounts s @ [(dev, m)] \<and> on_medium m = medium \<and> on_disk m = diskOf v dev))"
  proof (cases "map_of (mounts s) dev")
    case None
    let ?s = "s\<lparr>attempts := attempts s @ [(dev, medium)]\<rparr>"
    obtain s1 err where m: "mount_drive v dev (diskOf v dev) medium ?s = (s1, err)" by fastforce
    have spec: "(err = None \<longrightarrow> (\<exists>dir. dir \<notin> (\<lambda>(_, m). mount_dir m) ` set (mounts s) \<and>
        s1 = ?s\<lparr>mounts := mounts s @ [(dev, \<lparr>on_disk = diskOf v dev, on_medium = medium, mount_dir = dir\<rparr>)]\<rparr>)) \<and>
        (err \<noteq> None \<longrightarrow> s1 = ?s)"
      using mount_drive_spec [OF m] None by simp
    have fresh: "dev \<notin> fst ` set (mounts s)" using None by (simp add: map_of_eq_None_iff)
    show ?thesis
      using assms None spec fresh
      by (auto simp: try_mount_def m Let_def drives_ok_def split: option.splits)
  qed (use assms in \<open>auto simp: try_mount_def\<close>)
  then show "drives_ok (try_mount v dev medium s)" "disks_held (try_mount v dev medium s) = disks_held s"
    "mounts (try_mount v dev medium s) = mounts s \<or>
     (\<exists>m. mounts (try_mount v dev medium s) = mounts s @ [(dev, m)] \<and> on_medium m = medium \<and> on_disk m = diskOf v dev)"
    by blast+
qed

lemma mount_new_ok:
  assumes "drives_ok s" "\<forall>(dev, medium) \<in> set want. medium \<noteq> []"
  shows "drives_ok (mount_new v want s) \<and> disks_held (mount_new v want s) = disks_held s \<and>
    (\<forall>(dev, m) \<in> set (mounts (mount_new v want s)). (dev, m) \<in> set (mounts s) \<or> (dev, on_medium m) \<in> set want)"
  using assms
proof (induction want arbitrary: s)
  case (Cons w want)
  obtain dev medium where w: "w = (dev, medium)" by (cases w)
  let ?t = "try_mount v dev medium s"
  have m: "medium \<noteq> []" using Cons.prems(2) w by simp
  note t = try_mount_ok [OF Cons.prems(1) m, of v dev]
  have "mount_new v (w # want) s = mount_new v want ?t"
    by (simp add: mount_new_def w)
  with Cons.IH [of ?t] t Cons.prems(2) show ?case
    by (auto simp: w)
qed (simp add: mount_new_def)

section \<open>What is mounted\<close>

definition disk_devs :: "disk_view \<Rightarrow> string list" where
  "disk_devs d = (if partitions d = [] then [dk_name d] else partitions d)"

definition own_key :: "disk_view \<Rightarrow> string" where
  "own_key d = mediumOf d @ '' '' @ join_with '' '' (disk_devs d)"

definition simpleclient_disk :: "drive_view \<Rightarrow> disk_view \<Rightarrow> bool" where
  \<comment> \<open>the install medium, or a disk with a partition labelled \<open>SC_\<close>\<close>
  "simpleclient_disk v d \<longleftrightarrow>
     vw_medium v (dk_name d) \<or> list_ex (\<lambda>dev. has_prefix (concat (snd (vw_probe v dev))) ''SC_'') (disk_devs d)"

definition verdicts_true :: "drive_view \<Rightarrow> drives \<Rightarrow> bool" where
  \<comment> \<open>what was found out about a medium earlier still holds for it\<close>
  "verdicts_true v s \<longleftrightarrow>
     (\<forall>d \<in> set (vw_disks v). \<forall>e. map_of (own s) (dk_name d) = Some e \<longrightarrow> v_key e = own_key d \<longrightarrow>
        v_own e = simpleclient_disk v d)"

lemma ownDisk_eq:
  "ownDisk v (dk_name d) (mediumOf d) (disk_devs d) s =
     (let found = (s\<lparr>own := AList.update (dk_name d) \<lparr>v_key = own_key d, v_own = simpleclient_disk v d\<rparr> (own s)\<rparr>,
                   simpleclient_disk v d)
      in case map_of (own s) (dk_name d) of
           Some e \<Rightarrow> if v_key e = own_key d then (s, v_own e) else found
         | None \<Rightarrow> found)"
  by (simp add: ownDisk_def own_key_def simpleclient_disk_def Let_def split: option.split)

lemma ownDisk_true:
  assumes "ownDisk v (dk_name d) (mediumOf d) (disk_devs d) s = (s', mine)" "verdicts_true v s"
    "distinct (map dk_name (vw_disks v))" "d \<in> set (vw_disks v)"
  shows "mine = simpleclient_disk v d \<and> verdicts_true v s' \<and> mounts s' = mounts s \<and> disks_held s' = disks_held s"
proof -
  have uniq: "d' = d" if "d' \<in> set (vw_disks v)" "dk_name d' = dk_name d" for d'
    using assms(3,4) that by (metis distinct_map inj_onD)
  have "verdicts_true v (s\<lparr>own := AList.update (dk_name d)
      \<lparr>v_key = own_key d, v_own = simpleclient_disk v d\<rparr> (own s)\<rparr>)"
    using assms(2) by (auto simp: verdicts_true_def update_conv' dest: uniq)
  moreover have "\<forall>e. map_of (own s) (dk_name d) = Some e \<longrightarrow> v_key e = own_key d \<longrightarrow>
      v_own e = simpleclient_disk v d"
    using assms(2,4) by (simp add: verdicts_true_def)
  ultimately show ?thesis
    using assms(1,2) unfolding ownDisk_eq Let_def by (auto split: option.splits if_splits)
qed

lemma want_update: "(dev, m) \<in> set (foldl (\<lambda>w dev. AList.update dev medium w) want devs) \<Longrightarrow>
    (dev, m) \<in> set want \<or> (dev \<in> set devs \<and> m = medium)"
proof (induction devs arbitrary: want)
  case (Cons x devs)
  have "(d, m) \<in> set (AList.update x medium want) \<Longrightarrow> (d, m) \<in> set want \<or> (d = x \<and> m = medium)" for d
    by (induction want) (auto split: if_splits)
  with Cons show ?case by fastforce
qed simp

lemma present_sound:
  assumes "present_loop v ds want s = (s', want')" "set ds \<subseteq> set (vw_disks v)" "verdicts_true v s"
    "distinct (map dk_name (vw_disks v))"
  shows "mounts s' = mounts s \<and> disks_held s' = disks_held s \<and> verdicts_true v s' \<and>
    (\<forall>(dev, m) \<in> set want'. (dev, m) \<in> set want \<or>
      (\<exists>d \<in> set ds. removable v d \<and> m = mediumOf d \<and> m \<noteq> [] \<and> dev \<in> set (disk_devs d) \<and> \<not> simpleclient_disk v d))"
  using assms
proof (induction v ds want s rule: present_loop.induct)
  case (2 v d ds want s)
  show ?case
  proof (cases "\<not> removable v d \<or> mediumOf d = []")
    case True
    then show ?thesis
      using "2.IH"(1) [OF refl refl refl True] "2.prems" by (fastforce simp: disk_devs_def)
  next
    case False
    obtain s1 mine where o: "ownDisk v (dk_name d) (mediumOf d) (disk_devs d) s = (s1, mine)" by fastforce
    note t = ownDisk_true [OF o "2.prems"(3,4)]
    have rec: "present_loop v ds (if mine then want else foldl (\<lambda>w dev. AList.update dev (mediumOf d) w) want (disk_devs d)) s1 =
        (s', want')"
      using "2.prems"(1) False o by (simp add: disk_devs_def Let_def split: if_splits)
    have IH: "mounts s' = mounts s1 \<and> disks_held s' = disks_held s1 \<and> verdicts_true v s' \<and>
      (\<forall>(dev, m) \<in> set want'. (dev, m) \<in> set (if mine then want else foldl (\<lambda>w dev. AList.update dev (mediumOf d) w) want (disk_devs d)) \<or>
      (\<exists>d \<in> set ds. removable v d \<and> m = mediumOf d \<and> m \<noteq> [] \<and> dev \<in> set (disk_devs d) \<and> \<not> simpleclient_disk v d))"
      using "2.IH"(2) [OF refl refl refl False, folded disk_devs_def, OF o [symmetric] refl rec] t "2.prems" by simp
    show ?thesis
      using IH t "2.prems"(2) False want_update [where want = want and devs = "disk_devs d" and medium = "mediumOf d"]
      by (fastforce split: if_splits)
  qed
qed simp


definition no_view :: drive_view where
  "no_view = \<lparr>vw_disks = [], vw_device = \<lambda>_. None, vw_medium = \<lambda>_. False, vw_probe = \<lambda>_. (''vfat'', [''K'']),
     vw_letter = \<lambda>r. r = ''K'', vw_digit = \<lambda>_. False, vw_mkdir = \<lambda>_. True, vw_mount = \<lambda>_ _. True\<rparr>"

definition card_view :: drive_view where
  "card_view = no_view\<lparr>vw_disks := [\<lparr>dk_name = ''mmcblk0'', dk_path = Some ''/sys/block/mmcblk0'', dk_type = ''SD'',
     dk_attrs = [(''size'', ''64''), (''diskseq'', ''7'')], dk_entries = [(''mmcblk0p1'', True)]\<rparr>]\<rparr>"


lemma present_frame:
  assumes "present_loop v ds want s = (s', want')" "\<forall>(dev, m) \<in> set want. m \<noteq> []"
  shows "mounts s' = mounts s \<and> disks_held s' = disks_held s \<and> (\<forall>(dev, m) \<in> set want'. m \<noteq> [])"
  using assms
proof (induction v ds want s rule: present_loop.induct)
  case (2 v d ds want s)
  show ?case
  proof (cases "\<not> removable v d \<or> mediumOf d = []")
    case True
    then show ?thesis
      using "2.IH"(1) [OF refl refl refl True] "2.prems" by simp
  next
    case False
    obtain s1 mine where o: "ownDisk v (dk_name d) (mediumOf d)
        (if partitions d = [] then [dk_name d] else partitions d) s = (s1, mine)" by fastforce
    have f: "mounts s1 = mounts s" "disks_held s1 = disks_held s"
      using o by (auto simp: ownDisk_def Let_def split: option.splits if_splits)
    let ?w = "if mine then want else foldl (\<lambda>w dev. AList.update dev (mediumOf d) w) want
        (if partitions d = [] then [dk_name d] else partitions d)"
    have rec: "present_loop v ds ?w s1 = (s', want')"
      using "2.prems"(1) False o by (simp add: Let_def)
    have w: "\<forall>(dev, m) \<in> set ?w. m \<noteq> []"
    proof (rule ballI, clarify)
      fix dev assume "(dev, []) \<in> set ?w"
      then have "(dev, []) \<in> set want \<or> [] = mediumOf d"
        using want_update [of dev "[]" "mediumOf d" want] by (cases mine) auto
      then show False using "2.prems"(2) False by auto
    qed
    show ?thesis
      using "2.IH"(2) [OF refl refl refl False o [symmetric] refl rec w] f by simp
  qed
qed simp

lemma poll_ok:
  assumes "drives_ok s"
  shows "drives_ok (Poll v s)" "disks_held (Poll v s) = disks_held s"
proof -
  obtain s1 want where p: "present v s = (s1, want)" by fastforce
  have fr: "mounts s1 = mounts s" "disks_held s1 = disks_held s" "\<forall>(dev, m) \<in> set want. m \<noteq> []"
    using present_frame [OF p [unfolded present_def]] by auto
  then have "drives_ok s1" using assms by (simp add: drives_ok_def)
  note d = drop_gone_ok [OF this, of want]
  show "drives_ok (Poll v s)" "disks_held (Poll v s) = disks_held s"
    using mount_new_ok [OF d(1) fr(3), of v] d(2) fr(2) by (simp_all add: Poll_def p)
qed

datatype drive_event = Polled drive_view | Held string

fun drive_step :: "drive_event \<Rightarrow> drives \<Rightarrow> drives" where
  "drive_step (Polled v) s = Poll v s"
| "drive_step (Held d) s = Hold d s"

text \<open>C14. The installer has its disk to itself: once a disk is held, no drive on
  it is mounted, however often the kiosk polls afterwards and whatever it sees.\<close>

theorem held_disk_free:
  assumes "drives_ok s" "Held disk \<in> set evs" "(dev, m) \<in> set (mounts (fold drive_step evs s))"
  shows "on_disk m \<noteq> disk"
proof -
  have ok: "drives_ok (fold drive_step es t) \<and> set (disks_held t) \<subseteq> set (disks_held (fold drive_step es t)) \<and>
      (\<forall>d. Held d \<in> set es \<longrightarrow> d \<in> set (disks_held (fold drive_step es t)))" if "drives_ok t" for es t
    using that
  proof (induction es arbitrary: t)
    case (Cons e es)
    have "drives_ok (drive_step e t)" "set (disks_held t) \<subseteq> set (disks_held (drive_step e t))"
      "\<And>d. e = Held d \<Longrightarrow> d \<in> set (disks_held (drive_step e t))"
      using Cons.prems poll_ok hold_ok by (cases e; auto)+
    then show ?case using Cons.IH [of "drive_step e t"] by auto
  qed simp
  show ?thesis
    using ok [OF assms(1), of evs] assms(2,3) by (auto simp: drives_ok_def)
qed

theorem held_disk_free_witness:
  "''mmcblk0'' \<notin> (on_disk \<circ> snd) ` set (mounts (fold drive_step
     [Polled card_view, Held ''mmcblk0'', Polled card_view] NewDrives))"
proof -
  have ok: "drives_ok NewDrives" by (simp add: drives_ok_def NewDrives_def)
  have ev: "Held ''mmcblk0'' \<in> set [Polled card_view, Held ''mmcblk0'', Polled card_view]" by simp
  show ?thesis using held_disk_free [OF ok ev] by fastforce
qed

text \<open>A label cannot lead out of \<open>/media\<close>: the name made of it is not empty,
  starts with no dot, and has only letters, digits and the three marks it is
  trimmed of.\<close>

lemma dir_runes_chars:
  assumes "\<And>r c. letter r \<or> digit r \<Longrightarrow> c \<in> set r \<Longrightarrow> okc c"
  shows "c \<in> set (dir_runes letter digit n rs) \<Longrightarrow> okc c \<or> dir_mark c"
  using assms
  by (induction letter digit n rs rule: dir_runes.induct) (auto simp: dir_mark_def split: if_splits)

lemma set_dropWhile_subset: "set (dropWhile P xs) \<subseteq> set xs"
  by (induction xs) auto

lemma trim_subset: "set (trim_right p (trim_left p s)) \<subseteq> set s"
  using set_dropWhile_subset [of p "rev (dropWhile p s)"] set_dropWhile_subset [of p s]
  by (auto simp: trim_right_def trim_left_def)

lemma trim_hd: "trim_right p (trim_left p s) \<noteq> [] \<Longrightarrow> \<not> p (hd (trim_right p (trim_left p s)))"
proof -
  assume ne: "trim_right p (trim_left p s) \<noteq> []"
  then have "trim_left p s \<noteq> []" by (auto simp: trim_right_def)
  then have "\<not> p (hd (trim_left p s))"
    unfolding trim_left_def by (rule hd_dropWhile)
  moreover obtain t where "trim_left p s = trim_right p (trim_left p s) @ t"
    unfolding trim_right_def by (metis rev_append rev_rev_ident takeWhile_dropWhile_id)
  ultimately show ?thesis using ne by (metis hd_append)
qed

lemma dirName_safe:
  assumes "\<And>r c. letter r \<or> digit r \<Longrightarrow> c \<in> set r \<Longrightarrow> c \<noteq> CHR ''/'' \<and> c \<noteq> CHR 0x00"
  shows "dirName letter digit label \<noteq> [] \<and> hd (dirName letter digit label) \<noteq> CHR ''.'' \<and>
    CHR ''/'' \<notin> set (dirName letter digit label) \<and> CHR 0x00 \<notin> set (dirName letter digit label)"
proof (cases "trim_right dir_mark (trim_left dir_mark (dir_runes letter digit 0 label)) = []")
  case True
  then show ?thesis by (simp add: dirName_def)
next
  case False
  have "c \<noteq> CHR ''/'' \<and> c \<noteq> CHR 0x00" if "c \<in> set (dir_runes letter digit 0 label)" for c
    using dir_runes_chars [of letter digit "\<lambda>c. c \<noteq> CHR ''/'' \<and> c \<noteq> CHR 0x00" c 0 label] assms that
    by (auto simp: dir_mark_def)
  moreover have "hd (dirName letter digit label) \<noteq> CHR ''.''"
    using trim_hd [OF False] False by (simp add: dirName_def dir_mark_def Let_def)
  ultimately show ?thesis
    using False trim_subset [of dir_mark "dir_runes letter digit 0 label"] by (auto simp: dirName_def Let_def)
qed

end
