(* ===== verification/AudioDevices.thy ===== *)
theory AudioDevices
  imports AudioFormat
begin

text \<open>
  \<open>internal/audio/devices.go\<close> and \<open>jack_linux.go\<close>: which sound
  endpoints the machine has, read from \<open>/proc/asound\<close>, and which of them the
  kiosk plays on and records from. What the files hold at one moment is a record
  \<open>asound\<close>; the headphone switches the kernel answers an \<open>ioctl\<close> with are an
  argument. The mixer settings of \<open>pcm.go\<close> are in \<open>Mixer\<close>, the streams
  in \<open>AudioSink\<close>.
\<close>

section \<open>Endpoints\<close>

datatype sound_kind = KindAnalog | KindHDMI | KindUSB

fun kind_string :: "sound_kind \<Rightarrow> string" where
  "kind_string KindHDMI = ''HDMI''"
| "kind_string KindUSB = ''USB''"
| "kind_string KindAnalog = ''Analog''"

record sound_device =
  Card :: int
  PcmDev :: int
  CardID :: string
  PcmName :: string
  sound_kind :: sound_kind
  Playback :: bool
  Capture :: bool
  Monitor :: bool

definition ALSA :: "sound_device \<Rightarrow> string" where
  "ALSA d = ''plughw:'' @ itoa (Card d) @ '','' @ itoa (PcmDev d)"

definition Label :: "sound_device \<Rightarrow> string" where
  "Label d = (if sound_kind d = KindHDMI \<and> PcmName d \<noteq> [] \<and> length (PcmName d) \<le> 12
     then PcmName d else kind_string (sound_kind d))"

record asound =
  pcm_file :: "string option"                       \<comment> \<open>\<open>/proc/asound/pcm\<close>\<close>
  cards_file :: "string option"                     \<comment> \<open>\<open>/proc/asound/cards\<close>\<close>
  usb_cards :: "int list"                           \<comment> \<open>the cards with a \<open>usbid\<close>\<close>
  eld_files :: "int \<Rightarrow> (string \<times> string option) list"  \<comment> \<open>a card's \<open>eld#*\<close>, and what each holds\<close>

section \<open>Reading \<open>/proc/asound\<close>\<close>

definition upper_char :: "char \<Rightarrow> char" where
  "upper_char c = (if is_lower c then char_of (of_char c - 32 :: nat) else c)"

definition to_upper :: "string \<Rightarrow> string" where
  "to_upper s = map upper_char s"

definition trim_suffix :: "string \<Rightarrow> string \<Rightarrow> string" where
  "trim_suffix s p = (if has_suffix s p then take (length s - length p) s else s)"

definition isHDMIName :: "string \<Rightarrow> bool" where
  "isHDMIName name =
     (let n = to_upper name
      in contains n ''HDMI'' \<or> contains n ''DISPLAYPORT'' \<or> has_prefix n ''DP '' \<or> contains n '' DP'')"

definition card_line :: "string \<Rightarrow> (int \<times> string) option" where
  "card_line line =
     (case str_fields line of
        f0 # f1 # _ \<Rightarrow>
          if has_prefix f1 ''['' then
            map_option (\<lambda>n. (n, trim_suffix (trim_suffix (trim_prefix f1 ''['') '']:'') '']'')) (atoi f0)
          else None
      | _ \<Rightarrow> None)"

definition cardIDs :: "asound \<Rightarrow> (int \<times> string) list" where
  "cardIDs w =
     (case cards_file w of None \<Rightarrow> []
      | Some text \<Rightarrow>
        fold (\<lambda>line ids. case card_line line of None \<Rightarrow> ids | Some (n, i) \<Rightarrow> AList.update n i ids)
          (split_on newline text) [])"

definition id_of :: "(int \<times> string) list \<Rightarrow> int \<Rightarrow> string" where
  \<comment> \<open>\<open>ids[card]\<close>: the zero value for a card with no id\<close>
  "id_of ids c = (case map_of ids c of None \<Rightarrow> [] | Some i \<Rightarrow> i)"

definition pcm_line :: "asound \<Rightarrow> (int \<times> string) list \<Rightarrow> string \<Rightarrow> sound_device option" where
  "pcm_line w ids line =
     (case cut_at CHR '':'' line of None \<Rightarrow> None
      | Some (head, rest) \<Rightarrow>
        (case cut_at CHR ''-'' (trim_space head) of None \<Rightarrow> None
         | Some (cs, ds) \<Rightarrow>
           (case (atoi cs, atoi ds) of
              (Some cno, Some dev) \<Rightarrow>
                if id_of ids cno = ''pcsp'' then None
                else
                  let parts = split_on CHR '':'' rest;
                      name = trim_space (hd parts);
                      marks = map trim_space (tl parts)
                  in Some \<lparr>Card = cno, PcmDev = dev, CardID = id_of ids cno, PcmName = name,
                       sound_kind = (if cno \<in> set (usb_cards w) then KindUSB
                                     else if isHDMIName name then KindHDMI else KindAnalog),
                       Playback = list_ex (\<lambda>p. has_prefix p ''playback'') marks,
                       Capture = list_ex (\<lambda>p. has_prefix p ''capture'') marks,
                       Monitor = False\<rparr>
            | _ \<Rightarrow> None)))"

definition eld_values :: "string \<Rightarrow> (string \<times> string) list" where
  "eld_values text =
     fold (\<lambda>line v. case cut_at tabchar line of None \<Rightarrow> v
             | Some (k, x) \<Rightarrow> AList.update (trim_space k) (trim_space x) v)
       (split_on newline text) []"

definition eld_present :: "string option \<Rightarrow> bool" where
  "eld_present file =
     (case file of None \<Rightarrow> False
      | Some text \<Rightarrow>
        let v = eld_values text
        in map_of v ''monitor_present'' = Some ''1'' \<and> map_of v ''eld_valid'' = Some ''1'' \<and>
           (case map_of v ''sad_count'' of None \<Rightarrow> False | Some s \<Rightarrow> 0 < atoi_or s))"

definition eldPresence :: "asound \<Rightarrow> int \<Rightarrow> bool list" where
  "eldPresence w cno = map (eld_present \<circ> snd) (sort_key fst (eld_files w cno))"

fun mark_card :: "int \<Rightarrow> bool list \<Rightarrow> sound_device list \<Rightarrow> sound_device list" where
  \<comment> \<open>the n-th HDMI endpoint of the card has the monitor of its n-th pin\<close>
  "mark_card c ps [] = []"
| "mark_card c ps (d # ds) =
     (if Card d = c \<and> sound_kind d = KindHDMI then
        (case ps of [] \<Rightarrow> d # mark_card c [] ds
         | p # ps' \<Rightarrow> d\<lparr>Monitor := Monitor d \<or> p\<rparr> # mark_card c ps' ds)
      else d # mark_card c ps ds)"

definition ScanSound :: "asound \<Rightarrow> sound_device list" where
  "ScanSound w =
     (case pcm_file w of None \<Rightarrow> []
      | Some text \<Rightarrow>
        let ids = cardIDs w
        in fold (\<lambda>cno. mark_card cno (eldPresence w cno)) (map fst ids)
             (List.map_filter (pcm_line w ids) (scan_lines text)))"

section \<open>Choosing\<close>

definition rank :: "bool \<Rightarrow> sound_device \<Rightarrow> nat" where
  "rank phones d =
     (if sound_kind d = KindUSB then 0
      else if sound_kind d = KindAnalog \<and> phones then 1
      else if sound_kind d = KindHDMI \<and> Monitor d then 2
      else if sound_kind d = KindAnalog then 3 else 4)"

fun pick_from :: "(sound_device \<Rightarrow> bool) \<Rightarrow> (sound_device \<Rightarrow> sound_device \<Rightarrow> bool) \<Rightarrow> sound_device option \<Rightarrow>
    sound_device list \<Rightarrow> sound_device option" where
  \<comment> \<open>the loop both choices run: \<open>best\<close> so far, replaced by an endpoint that is better\<close>
  "pick_from can better best [] = best"
| "pick_from can better best (d # ds) =
     pick_from can better
       (if \<not> can d then best
        else (case best of None \<Rightarrow> Some d | Some b \<Rightarrow> if better d b then Some d else best)) ds"

definition pickOutput :: "sound_device list \<Rightarrow> bool \<Rightarrow> sound_device option" where
  "pickOutput devs phones = pick_from Playback (\<lambda>d b. rank phones d < rank phones b) None devs"

definition SelectInput :: "sound_device list \<Rightarrow> sound_device option" where
  "SelectInput devs =
     pick_from (\<lambda>d. Capture d \<and> sound_kind d \<noteq> KindHDMI)
       (\<lambda>d b. sound_kind d = KindUSB \<and> sound_kind b \<noteq> KindUSB) None devs"

section \<open>The headphone jack\<close>

definition swHeadphoneInsert :: nat where "swHeadphoneInsert = 2"
definition swLineoutInsert :: nat where "swLineoutInsert = 6"

definition switchOn :: "(string \<Rightarrow> 64 word option) \<Rightarrow> string \<Rightarrow> bool" where
  \<comment> \<open>the argument: the switches of an input device, \<open>None\<close> where opening it or the \<open>ioctl\<close> fails\<close>
  "switchOn switches path =
     (case switches path of None \<Rightarrow> False | Some bits \<Rightarrow> bit bits swHeadphoneInsert \<or> bit bits swLineoutInsert)"

fun split_blocks :: "string \<Rightarrow> string list" where
  \<comment> \<open>\<open>strings.Split(s, "\n\n")\<close>\<close>
  "split_blocks [] = [[]]"
| "split_blocks [c] = [[c]]"
| "split_blocks (c # d # s) =
     (if c = newline \<and> d = newline then [] # split_blocks s
      else (case split_blocks (d # s) of b # bs \<Rightarrow> (c # b) # bs | [] \<Rightarrow> [[c]]))"

definition block_handlers :: "string \<Rightarrow> string list" where
  \<comment> \<open>the event devices of a block of \<open>/proc/bus/input/devices\<close> that has a jack\<close>
  "block_handlers b =
     (if \<not> contains b ''Headphone'' \<and> \<not> contains b ''Line Out'' then []
      else concat (map (\<lambda>line. case cut_prefix ''H: Handlers='' line of None \<Rightarrow> []
             | Some hs \<Rightarrow> filter (\<lambda>h. has_prefix h ''event'') (str_fields hs)) (split_on newline b)))"

definition jackPlugged :: "string option \<Rightarrow> (string \<Rightarrow> 64 word option) \<Rightarrow> bool" where
  "jackPlugged devices switches =
     (case devices of None \<Rightarrow> False
      | Some text \<Rightarrow>
        list_ex (\<lambda>h. switchOn switches (''/dev/input/'' @ h)) (concat (map block_handlers (split_blocks text))))"

definition SelectOutput :: "asound \<Rightarrow> bool \<Rightarrow> sound_device option" where
  "SelectOutput w phones = pickOutput (ScanSound w) phones"

section \<open>The choice is the best one\<close>

lemma pick_from_least:
  fixes r :: "sound_device \<Rightarrow> nat"
  assumes "\<And>d b. can d \<Longrightarrow> can b \<Longrightarrow> better d b \<longleftrightarrow> r d < r b" "\<And>b. best = Some b \<Longrightarrow> can b"
  shows "case pick_from can better best ds of
      None \<Rightarrow> best = None \<and> (\<forall>d \<in> set ds. \<not> can d)
    | Some b \<Rightarrow> can b \<and> (best = Some b \<or> b \<in> set ds) \<and> (\<forall>d \<in> set ds. can d \<longrightarrow> r b \<le> r d) \<and>
        (\<forall>b0. best = Some b0 \<longrightarrow> r b \<le> r b0)"
  using assms(2)
proof (induction ds arbitrary: best)
  case Nil
  then show ?case by (cases best) auto
next
  case (Cons d ds)
  let ?best = "if \<not> can d then best
    else (case best of None \<Rightarrow> Some d | Some b \<Rightarrow> if better d b then Some d else best)"
  obtain best' where b': "best' = ?best" by simp
  have can': "\<And>b. best' = Some b \<Longrightarrow> can b" and none: "best' = None \<Longrightarrow> best = None \<and> \<not> can d"
    and src: "\<And>b. best' = Some b \<Longrightarrow> best = Some b \<or> b = d"
    and le: "\<And>b. best' = Some b \<Longrightarrow> can d \<Longrightarrow> r b \<le> r d"
    and old: "\<And>b0. best = Some b0 \<Longrightarrow> \<exists>b. best' = Some b \<and> r b \<le> r b0"
    using Cons.prems assms(1) unfolding b' by (auto split: if_splits option.splits)
  have step: "pick_from can better best (d # ds) = pick_from can better best' ds"
    by (simp add: b')
  show ?case
  proof (cases "pick_from can better best' ds")
    case None
    then show ?thesis using Cons.IH [of best', OF can'] none unfolding step by simp
  next
    case (Some b)
    then have b: "can b" "best' = Some b \<or> b \<in> set ds" "\<forall>x \<in> set ds. can x \<longrightarrow> r b \<le> r x"
      "\<forall>b0. best' = Some b0 \<longrightarrow> r b \<le> r b0"
      using Cons.IH [of best', OF can'] by auto
    have "r b \<le> r d" if "can d"
      using le that none b(4) by (cases best') (auto intro: order_trans)
    moreover have "\<forall>b0. best = Some b0 \<longrightarrow> r b \<le> r b0"
      using old b(4) by (fastforce intro: order_trans)
    ultimately show ?thesis
      using b(1-3) src Some unfolding step by auto
  qed
qed

lemma rank_input:
  "sound_kind d = KindUSB \<and> sound_kind b \<noteq> KindUSB \<longleftrightarrow>
   (if sound_kind d = KindUSB then 0 else 1 :: nat) < (if sound_kind b = KindUSB then 0 else 1)"
  by simp



end
