(* ===== verification/AudioSink.thy ===== *)
theory AudioSink
  imports AudioDevices Audin
begin

text \<open>
  \<open>internal/audio/pcm.go\<close> and \<open>sink.go\<close>: the mixer, the player and the
  recorder, which are the ALSA utilities run as child processes, and the sink
  that gives them to the two sound channels. A child process is its command
  line; what becomes of starting one and of writing to one is an argument, asked
  for each attempt by its number. The microphone half of the sink is an instance
  of \<open>recording\<close>, the contract of \<open>Audin\<close>.
\<close>

section \<open>The mixer\<close>

record mixer_control =
  ctl_id :: string
  ctl_name :: string
  caps :: string

definition control_intro :: string where "control_intro = ''Simple mixer control '' @ [CHR 0x27]"

fun cut_quote :: "string \<Rightarrow> string \<times> string" where
  \<comment> \<open>\<open>strings.Cut(rest, "',")\<close>\<close>
  "cut_quote [] = ([], [])"
| "cut_quote [c] = ([c], [])"
| "cut_quote (c # d # s) =
     (if c = CHR 0x27 \<and> d = CHR '','' then ([], s)
      else let (a, b) = cut_quote (d # s) in (c # a, b))"

definition control_line :: "string \<Rightarrow> mixer_control list \<Rightarrow> mixer_control list" where
  "control_line line ctls =
     (if has_prefix line control_intro then
        let (name, idx) = cut_quote (trim_prefix line control_intro)
        in ctls @ [\<lparr>ctl_id = name @ '','' @ idx, ctl_name = to_lower name, caps = []\<rparr>]
      else
        let t = trim_space line
        in if has_prefix t ''Capabilities:'' \<and> ctls \<noteq> [] then
             butlast ctls @ [(last ctls)\<lparr>caps := '' '' @ trim_prefix t ''Capabilities:'' @ '' ''\<rparr>]
           else ctls)"

definition parseControls :: "string \<Rightarrow> mixer_control list" where
  "parseControls out = fold control_line (split_on newline out) []"

definition ctl_has :: "mixer_control \<Rightarrow> string \<Rightarrow> bool" where
  "ctl_has c cap = contains (caps c) ('' '' @ cap @ '' '')"

definition loopback :: "mixer_control \<Rightarrow> bool" where
  "loopback c \<longleftrightarrow> contains (ctl_name c) ''mic'' \<or> contains (ctl_name c) ''beep'' \<or>
     contains (ctl_name c) ''loopback'' \<or> contains (ctl_name c) ''line in''"

definition mixerSettings :: "mixer_control \<Rightarrow> string list list" where
  "mixerSettings c =
     (if ctl_name c = ''auto-mute mode'' then [[''Enabled'']]
      else if contains (ctl_name c) ''boost'' then [[''1'']]
      else
        (if ctl_has c ''pvolume'' \<or> ctl_has c ''volume'' then
           (if loopback c then [[''playback'', ''0%'']] else [[''playback'', ''90%'']]) else []) @
        (if ctl_has c ''pswitch'' \<or> ctl_has c ''switch'' then
           (if loopback c then [[''playback'', ''mute'']] else [[''playback'', ''unmute'']]) else []) @
        (if ctl_has c ''cvolume'' then [[''capture'', ''80%'']] else []) @
        (if ctl_has c ''cswitch'' then [[''capture'', ''cap'']] else []))"

record mixer =
  mixer_done :: "string list"         \<comment> \<open>the ids of the cards set up\<close>
  mixer_runs :: "string list list"    \<comment> \<open>the commands run, in order\<close>

record sound_world =
  snd_files :: asound                           \<comment> \<open>\<open>/proc/asound\<close> now\<close>
  jack :: bool                                  \<comment> \<open>headphones in\<close>
  tool :: "string \<Rightarrow> string"                    \<comment> \<open>the path of an ALSA utility\<close>
  scontents :: "int \<Rightarrow> string option"           \<comment> \<open>what \<open>amixer scontents\<close> prints, \<open>None\<close> when it fails\<close>

definition control_runs :: "sound_world \<Rightarrow> string \<Rightarrow> mixer_control \<Rightarrow> string list list" where
  "control_runs w c ctl =
     map (\<lambda>args. [tool w ''amixer'', ''-q'', ''-c'', c, ''sset'', ctl_id ctl] @ args) (mixerSettings ctl)"

definition ensureMixer :: "sound_world \<Rightarrow> int \<Rightarrow> mixer \<Rightarrow> mixer" where
  "ensureMixer w cno m =
     (let i = id_of (cardIDs (snd_files w)) cno
      in if i \<in> set (mixer_done m) then m
         else
           let c = itoa cno;
               runs = mixer_runs m @ [[tool w ''alsactl'', ''init'', c], [tool w ''amixer'', ''-c'', c, ''scontents'']]
           in \<lparr>mixer_done = i # mixer_done m,
               mixer_runs = (case scontents w cno of None \<Rightarrow> runs
                 | Some out \<Rightarrow> runs @ concat (map (control_runs w c) (parseControls out)))\<rparr>)"

definition InitMixer :: "sound_world \<Rightarrow> mixer \<Rightarrow> mixer" where
  "InitMixer w m = fold (ensureMixer w) (map fst (cardIDs (snd_files w))) m"

text \<open>The loopback of a microphone into the speakers is never opened, and a
  card is set up once.\<close>

lemma loopbacks_stay_down:
  "loopback c \<Longrightarrow> args \<in> set (mixerSettings c) \<Longrightarrow> args \<notin> {[''playback'', ''90%''], [''playback'', ''unmute'']}"
  by (auto simp: mixerSettings_def split: if_splits)

lemma mixer_set_up_once: "ensureMixer w' cno (ensureMixer w cno m) = ensureMixer w cno m"
  if "id_of (cardIDs (snd_files w')) cno = id_of (cardIDs (snd_files w)) cno"
  using that by (simp add: ensureMixer_def Let_def)

section \<open>Playing\<close>

datatype play_effect =
    PlayerStart "string list"         \<comment> \<open>\<open>aplay\<close> with these arguments\<close>
  | PlayerWrite bytes
  | PlayerStop

record pcm_output =
  player :: "(string \<times> format) option"   \<comment> \<open>\<open>cmd\<close>, with \<open>dev\<close> and \<open>format\<close>\<close>
  played_log :: "play_effect list"

definition new_output :: pcm_output where "new_output = \<lparr>player = None, played_log = []\<rparr>"

definition aplay_args :: "string \<Rightarrow> format \<Rightarrow> string list" where
  "aplay_args d f = [''-q'', ''-D'', d, ''-t'', ''raw'', ''-f'', alsa_format f,
     ''-c'', itoa (uint (Channels f)), ''-r'', itoa (uint (SamplesPerSec f)), ''--buffer-time=150000'']"

definition stop_player :: "pcm_output \<Rightarrow> pcm_output" where
  "stop_player out = (case player out of None \<Rightarrow> out
     | Some _ \<Rightarrow> out\<lparr>player := None, played_log := played_log out @ [PlayerStop]\<rparr>)"

type_synonym play_answers = "nat \<Rightarrow> bool"   \<comment> \<open>whether the effect of that number works\<close>

definition start_player :: "play_answers \<Rightarrow> string \<Rightarrow> format \<Rightarrow> pcm_output \<Rightarrow> pcm_output \<times> bool" where
  "start_player works d f out =
     (if works (length (played_log out)) then
        (out\<lparr>player := Some (d, f), played_log := played_log out @ [PlayerStart (aplay_args d f)]\<rparr>, True)
      else (out, False))"

definition play_pcm :: "play_answers \<Rightarrow> sound_device \<Rightarrow> format \<Rightarrow> bytes \<Rightarrow> pcm_output \<Rightarrow> pcm_output \<times> bool" where
  \<comment> \<open>\<open>Output.Play\<close>; \<open>True\<close>: no error\<close>
  "play_pcm works d f samples out =
     (let fits = (case player out of None \<Rightarrow> False | Some (pd, pf) \<Rightarrow> pd = ALSA d \<and> same_format pf f);
          (out1, up) = (if fits then (out, True) else start_player works (ALSA d) f (stop_player out))
      in if \<not> up then (out1, False)
         else if works (length (played_log out1)) then
           (out1\<lparr>played_log := played_log out1 @ [PlayerWrite samples]\<rparr>, True)
         else (stop_player out1, False))"

section \<open>Recording\<close>

datatype rec_effect = RecStart "string list" int | RecStop

record pcm_input =
  recorder_up :: bool
  rec_log :: "rec_effect list"

definition new_input :: pcm_input where "new_input = \<lparr>recorder_up = False, rec_log = []\<rparr>"

definition arecord_args :: "string \<Rightarrow> format \<Rightarrow> string list" where
  "arecord_args d f = [''-q'', ''-D'', d, ''-t'', ''raw'', ''-f'', alsa_format f,
     ''-c'', itoa (uint (Channels f)), ''-r'', itoa (uint (SamplesPerSec f)), ''--buffer-time=100000'']"

definition stop_input :: "pcm_input \<Rightarrow> pcm_input" where
  "stop_input i = (if recorder_up i then i\<lparr>recorder_up := False, rec_log := rec_log i @ [RecStop]\<rparr> else i)"

definition start_input :: "bool \<Rightarrow> sound_device \<Rightarrow> format \<Rightarrow> int \<Rightarrow> pcm_input \<Rightarrow> pcm_input \<times> bool" where
  \<comment> \<open>the first argument: whether \<open>arecord\<close> starts\<close>
  "start_input works d f n i =
     (let i1 = stop_input i
      in if works then (i1\<lparr>recorder_up := True, rec_log := rec_log i1 @ [RecStart (arecord_args (ALSA d) f) n]\<rparr>, True)
         else (i1, False))"

fun record_packets :: "nat \<Rightarrow> bytes \<Rightarrow> bytes list" where
  \<comment> \<open>the recording goroutine: \<open>io.ReadFull\<close> until the stream ends; what is left over is dropped\<close>
  "record_packets n stream =
     (if n = 0 \<or> length stream < n then [] else take n stream # record_packets n (drop n stream))"

declare record_packets.simps [simp del]

section \<open>The sink\<close>

definition rescanEvery :: int where "rescanEvery = 2 * 10 ^ 9"   \<comment> \<open>nanoseconds\<close>

record sink =
  out :: pcm_output
  inp :: pcm_input
  mix :: mixer
  sink_dev :: "sound_device option"   \<comment> \<open>\<open>dev\<close> where \<open>haveDev\<close>\<close>
  lastScan :: int

definition new_sink :: sink where
  "new_sink = \<lparr>out = new_output, inp = new_input, mix = \<lparr>mixer_done = [], mixer_runs = []\<rparr>,
     sink_dev = None, lastScan = 0\<rparr>"

definition sink_play :: "sound_world \<Rightarrow> play_answers \<Rightarrow> int \<Rightarrow> format \<Rightarrow> bytes \<Rightarrow> sink \<Rightarrow> sink \<times> bool" where
  "sink_play w works now f samples s =
     (let s1 = (if sink_dev s = None \<or> now - lastScan s > rescanEvery
                then s\<lparr>sink_dev := SelectOutput (snd_files w) (jack w), lastScan := now\<rparr> else s)
      in case sink_dev s1 of None \<Rightarrow> (s1, True)
         | Some d \<Rightarrow>
           let s2 = s1\<lparr>mix := ensureMixer w (Card d) (mix s1)\<rparr>;
               (o', ok) = play_pcm works d f samples (out s2)
           in (s2\<lparr>out := o'\<rparr>, ok))"

definition sink_stop :: "sink \<Rightarrow> sink" where
  "sink_stop s = s\<lparr>out := stop_player (out s), sink_dev := None\<rparr>"

definition mic_start :: "sound_world \<Rightarrow> bool \<Rightarrow> format \<Rightarrow> int \<Rightarrow> sink \<Rightarrow> sink \<times> bool" where
  "mic_start w works f n s =
     (case SelectInput (ScanSound (snd_files w)) of None \<Rightarrow> (s, False)
      | Some d \<Rightarrow>
        let s1 = s\<lparr>mix := ensureMixer w (Card d) (mix s)\<rparr>;
            (i', ok) = start_input works d f n (inp s1)
        in (s1\<lparr>inp := i'\<rparr>, ok))"

definition mic_stop :: "sink \<Rightarrow> sink" where
  "mic_stop s = s\<lparr>inp := stop_input (inp s)\<rparr>"

definition mic :: "sound_world \<Rightarrow> bool \<Rightarrow> sink recorder" where
  \<comment> \<open>\<open>Mic\<close>, which the microphone channel records through\<close>
  "mic w works = \<lparr>rec_start = mic_start w works, rec_stop = mic_stop\<rparr>"

section \<open>What the child processes are given\<close>

text \<open>The log of effects read back: which player runs, and which bytes went to
  which player. It is \<open>None\<close> where a second player would start, or one that does
  not run be written to or stopped.\<close>

fun alsa_step :: "play_effect \<Rightarrow> (string list option \<times> (string list \<times> bytes) list) option \<Rightarrow>
    (string list option \<times> (string list \<times> bytes) list) option" where
  "alsa_step e None = None"
| "alsa_step (PlayerStart a) (Some (cur, ws)) = (if cur = None then Some (Some a, ws) else None)"
| "alsa_step (PlayerWrite b) (Some (cur, ws)) = (case cur of None \<Rightarrow> None | Some a \<Rightarrow> Some (cur, ws @ [(a, b)]))"
| "alsa_step PlayerStop (Some (cur, ws)) = (if cur = None then None else Some (None, ws))"

definition alsa_run :: "play_effect list \<Rightarrow> (string list option \<times> (string list \<times> bytes) list) option" where
  "alsa_run es = fold alsa_step es (Some (None, []))"

lemma alsa_run_simps [simp]:
  "alsa_run [] = Some (None, [])" "alsa_run (es @ [e]) = alsa_step e (alsa_run es)"
  "alsa_run (es @ [e, e']) = alsa_step e' (alsa_step e (alsa_run es))"
  by (simp_all add: alsa_run_def)

definition player_args :: "pcm_output \<Rightarrow> string list option" where
  "player_args p = map_option (\<lambda>(d, f). aplay_args d f) (player p)"

lemma stop_player_run:
  assumes "alsa_run (played_log p) = Some (player_args p, ws)"
  shows "alsa_run (played_log (stop_player p)) = Some (None, ws) \<and> player (stop_player p) = None"
  using assms by (auto simp: stop_player_def player_args_def split: option.split)

lemma same_format_args: "same_format f g \<Longrightarrow> aplay_args d f = aplay_args d g"
  by (simp add: same_format_def aplay_args_def alsa_format_def)

lemma play_pcm_run:
  assumes "alsa_run (played_log p) = Some (player_args p, ws)" "play_pcm works d f b p = (p', ok)"
  shows "alsa_run (played_log p') =
    Some (player_args p', ws @ (if ok then [(aplay_args (ALSA d) f, b)] else []))"
proof (cases "\<exists>g. player p = Some (ALSA d, g) \<and> same_format g f")
  case True
  then obtain g where g: "player p = Some (ALSA d, g)" "same_format g f" by blast
  then have "player_args p = Some (aplay_args (ALSA d) f)"
    by (simp add: player_args_def same_format_args)
  then show ?thesis
    using assms g stop_player_run [of p ws]
    by (auto simp: play_pcm_def player_args_def split: if_splits)
next
  case False
  then have fits: "(case player p of None \<Rightarrow> False | Some (pd, pf) \<Rightarrow> pd = ALSA d \<and> same_format pf f) = False"
    by (auto split: option.split)
  have s: "alsa_run (played_log (stop_player p)) = Some (None, ws)" "player (stop_player p) = None"
    using stop_player_run [OF assms(1)] by auto
  show ?thesis
    using assms(2) s
    by (auto simp: play_pcm_def fits start_player_def player_args_def stop_player_def [of "_\<lparr>player := Some _, played_log := _\<rparr>"]
        split: if_splits)
qed

section \<open>Sound goes where it was last chosen to go\<close>

datatype sink_event =
    SinkPlay sound_world play_answers int format bytes
  | SinkStop
  | MicStart sound_world bool format int
  | MicStop

fun sink_step :: "sink_event \<Rightarrow> sink \<Rightarrow> sink" where
  "sink_step (SinkPlay w works now f b) s = fst (sink_play w works now f b s)"
| "sink_step SinkStop s = sink_stop s"
| "sink_step (MicStart w works f n) s = fst (mic_start w works f n s)"
| "sink_step MicStop s = mic_stop s"

definition choices :: "sink_event list \<Rightarrow> (int \<times> sound_device option) list" where
  \<comment> \<open>what \<open>Selector.Output\<close> says at each block\<close>
  "choices es = List.map_filter (\<lambda>e. case e of
     SinkPlay w _ now _ _ \<Rightarrow> Some (now, SelectOutput (snd_files w) (jack w)) | _ \<Rightarrow> None) es"

definition written_right :: "sink_event list \<Rightarrow> string list \<times> bytes \<Rightarrow> bool" where
  "written_right es w \<longleftrightarrow> (\<exists>as sw works now f bs t d. es = as @ SinkPlay sw works now f (snd w) # bs \<and>
     (t, Some d) \<in> set (choices (as @ [SinkPlay sw works now f (snd w)])) \<and>
     now - t \<le> rescanEvery \<and> fst w = aplay_args (ALSA d) f)"

lemma choices_snoc [simp]:
  "choices (es @ [e]) = choices es @ (case e of
     SinkPlay w _ now _ _ \<Rightarrow> [(now, SelectOutput (snd_files w) (jack w))] | _ \<Rightarrow> [])"
  by (simp add: choices_def List.map_filter_def split: sink_event.split)

lemma written_right_mono: "written_right es w \<Longrightarrow> written_right (es @ [e]) w"
  unfolding written_right_def by fastforce

definition sink_ok :: "sink_event list \<Rightarrow> sink \<Rightarrow> bool" where
  "sink_ok es s \<longleftrightarrow>
     (\<exists>ws. alsa_run (played_log (out s)) = Some (player_args (out s), ws) \<and> list_all (written_right es) ws) \<and>
     (\<forall>d. sink_dev s = Some d \<longrightarrow> (lastScan s, Some d) \<in> set (choices es))"

lemma sink_play_ok:
  fixes s :: sink and w :: sound_world and works :: play_answers and now :: int and f :: format and b :: bytes
  assumes ok: "sink_ok es s"
  defines "s' \<equiv> fst (sink_play w works now f b s)" and "k \<equiv> snd (sink_play w works now f b s)"
  shows "sink_ok (es @ [SinkPlay w works now f b]) s'"
    and "alsa_run (played_log (out s)) = Some (cur, xs) \<Longrightarrow>
      \<exists>cur'. alsa_run (played_log (out s')) = Some (cur', xs @
        (case sink_dev s' of Some d \<Rightarrow> if k then [(aplay_args (ALSA d) f, b)] else [] | None \<Rightarrow> []))"
proof -
  let ?e = "SinkPlay w works now f b"
  define s1 where "s1 = (if sink_dev s = None \<or> now - lastScan s > rescanEvery
    then s\<lparr>sink_dev := SelectOutput (snd_files w) (jack w), lastScan := now\<rparr> else s)"
  obtain ws where ws: "alsa_run (played_log (out s)) = Some (player_args (out s), ws)" "list_all (written_right es) ws"
    and dev: "\<forall>d. sink_dev s = Some d \<longrightarrow> (lastScan s, Some d) \<in> set (choices es)"
    using ok by (auto simp: sink_ok_def)
  have out1: "out s1 = out s" by (simp add: s1_def)
  have dev1: "\<forall>d. sink_dev s1 = Some d \<longrightarrow> (lastScan s1, Some d) \<in> set (choices (es @ [?e])) \<and>
      now - lastScan s1 \<le> rescanEvery"
    using dev by (auto simp: s1_def rescanEvery_def)
  have old: "list_all (written_right (es @ [?e])) ws"
    using ws(2) by (auto simp: list_all_iff written_right_mono)
  have "sink_ok (es @ [?e]) s' \<and> (alsa_run (played_log (out s)) = Some (cur, xs) \<longrightarrow>
      (\<exists>cur'. alsa_run (played_log (out s')) = Some (cur', xs @
        (case sink_dev s' of Some d \<Rightarrow> if k then [(aplay_args (ALSA d) f, b)] else [] | None \<Rightarrow> []))))"
  proof (cases "sink_dev s1")
    case None
    then have "s' = s1" by (simp add: s'_def sink_play_def s1_def [symmetric])
    then show ?thesis using ws(1) old None out1 by (auto simp: sink_ok_def)
  next
    case (Some d)
    obtain p' where p': "play_pcm works d f b (out s) = (p', k)"
      and res: "s' = s1\<lparr>mix := ensureMixer w (Card d) (mix s1), out := p'\<rparr>"
      using Some out1 by (cases "play_pcm works d f b (out s)") (simp add: k_def s'_def sink_play_def s1_def [symmetric] Let_def)
    have "written_right (es @ [?e]) (aplay_args (ALSA d) f, b)"
      unfolding written_right_def using dev1 Some by fastforce
    then show ?thesis
      using play_pcm_run [OF ws(1) p'] old dev1 Some ws(1) unfolding res sink_ok_def by auto
  qed
  then show "sink_ok (es @ [?e]) s'"
    and "alsa_run (played_log (out s)) = Some (cur, xs) \<Longrightarrow>
      \<exists>cur'. alsa_run (played_log (out s')) = Some (cur', xs @
        (case sink_dev s' of Some d \<Rightarrow> if k then [(aplay_args (ALSA d) f, b)] else [] | None \<Rightarrow> []))"
    by blast+
qed

lemma sink_step_ok: "sink_ok es s \<Longrightarrow> sink_ok (es @ [e]) (sink_step e s)"
proof (cases e)
  case SinkStop
  assume ok: "sink_ok es s"
  then obtain ws where ws: "alsa_run (played_log (out s)) = Some (player_args (out s), ws)"
    "list_all (written_right es) ws" by (auto simp: sink_ok_def)
  then show ?thesis
    using stop_player_run [OF ws(1)] SinkStop
    by (auto simp: sink_ok_def sink_stop_def player_args_def list_all_iff written_right_mono)
next
  case (MicStart w works f n)
  assume "sink_ok es s"
  then show ?thesis
    by (auto simp: MicStart sink_ok_def mic_start_def Let_def list_all_iff written_right_mono
        split: option.split prod.split)
next
  case SinkPlay
  assume "sink_ok es s"
  then show ?thesis using SinkPlay by (simp add: sink_play_ok(1))
qed (auto simp: sink_ok_def mic_stop_def list_all_iff written_right_mono)

lemma sink_trace_ok: "sink_ok es (fold sink_step es new_sink)"
proof (induction es rule: rev_induct)
  case Nil
  then show ?case by (simp add: sink_ok_def new_sink_def new_output_def player_args_def)
next
  case (snoc e es)
  then show ?case by (simp add: sink_step_ok)
qed

text \<open>C5. Sound is never lost to a wrong or a second player. Whatever blocks,
  stops and recordings come in whatever order, and whichever attempts at starting
  or writing to a player fail, at most one player runs at a time, it is never
  written to after it was stopped, and each block that was written went to a
  player started for that block's own format on the endpoint the selector had
  chosen no more than two seconds before. A next block that is played without an
  error is written once, after all the others.\<close>

theorem sound_goes_where_chosen:
  fixes w :: sound_world and works :: play_answers and now :: int and f :: format and b :: bytes
  defines "log \<equiv> \<lambda>s. alsa_run (played_log (out s))"
  shows "\<exists>cur cur' ws. log (fold sink_step es new_sink) = Some (cur, ws) \<and>
     list_all (written_right es) ws \<and>
     (let (s', ok) = sink_play w works now f b (fold sink_step es new_sink)
      in log s' = Some (cur', ws @ (case sink_dev s' of
           Some d \<Rightarrow> if ok then [(aplay_args (ALSA d) f, b)] else [] | None \<Rightarrow> [])))"
proof -
  let ?s = "fold sink_step es new_sink"
  obtain ws where ws: "log ?s = Some (player_args (out ?s), ws)" "list_all (written_right es) ws"
    using sink_trace_ok [of es] by (auto simp: sink_ok_def log_def)
  then show ?thesis
    using sink_play_ok(2) [OF sink_trace_ok ws(1) [unfolded log_def], of w works now f b]
    by (auto simp: log_def Let_def case_prod_unfold)
qed

section \<open>The microphone\<close>

fun rec_step :: "rec_effect \<Rightarrow> bool option \<Rightarrow> bool option" where
  "rec_step e None = None"
| "rec_step (RecStart a n) (Some up) = (if up then None else Some True)"
| "rec_step RecStop (Some up) = (if up then Some False else None)"

definition rec_asked :: "rec_effect \<Rightarrow> bool" where
  \<comment> \<open>a recorder is started only in a format the kiosk plays, for packets within a second of it\<close>
  "rec_asked e \<longleftrightarrow> (case e of RecStop \<Rightarrow> True
     | RecStart a n \<Rightarrow> \<exists>d f. playable f \<and> a = arecord_args (ALSA d) f \<and> 0 < n \<and> n \<le> bytes_per_second f)"

definition mic_ok :: "sink \<Rightarrow> bool" where
  "mic_ok s \<longleftrightarrow> fold rec_step (rec_log (inp s)) (Some False) = Some (recorder_up (inp s)) \<and>
     list_all rec_asked (rec_log (inp s))"

lemma stop_input_ok:
  "fold rec_step (rec_log i) (Some False) = Some (recorder_up i) \<Longrightarrow> list_all rec_asked (rec_log i) \<Longrightarrow>
   fold rec_step (rec_log (stop_input i)) (Some False) = Some False \<and>
   list_all rec_asked (rec_log (stop_input i)) \<and> \<not> recorder_up (stop_input i)"
  by (auto simp: stop_input_def rec_asked_def)

interpretation kiosk_mic: recording "mic w works" mic_ok
proof
  fix s f n
  assume s: "mic_ok s" "playable f" "0 < n" "n \<le> bytes_per_second f"
  have "rec_asked (RecStart (arecord_args (ALSA d) f) n)" for d
    using s by (auto simp: rec_asked_def)
  then show "mic_ok (fst (rec_start (mic w works) f n s))"
    using s(1) stop_input_ok [of "inp s"]
    by (auto simp: mic_ok_def mic_def mic_start_def start_input_def Let_def split: option.split)
next
  fix s
  assume "mic_ok s"
  then show "mic_ok (rec_stop (mic w works) s)"
    using stop_input_ok [of "inp s"] by (auto simp: mic_ok_def mic_def mic_stop_def)
qed

definition mic_session :: "(sound_world \<times> bool \<times> bytes) list \<Rightarrow> (audio_input, sink) transport \<Rightarrow>
    (audio_input, sink) transport" where
  \<comment> \<open>what the server sends on the dynamic channels, each PDU with the sound hardware of the moment\<close>
  "mic_session ps t = fold (\<lambda>(w, works, p). dvc_process (audin_ops (mic w works)) p) ps t"

lemma process_emptied:
  assumes "\<And>l w. lopen ops l w = (l, w, [])" "chans (dvc_process ops p t) = []"
  shows "(chans t = [] \<and> world (dvc_process ops p t) = world t) \<or>
    (\<exists>l. world (dvc_process ops p t) = lclose ops l (world t))"
proof (cases p)
  case (Cons hdr r)
  let ?k = "hdr AND 3"
  have upd: "AList.update x y zs \<noteq> []" for x :: u32 and y and zs :: "(u32 \<times> 'a channel) list"
    by (cases zs) auto
  have hand: "chans (hand_over ops c ch m t) \<noteq> []" for c ch m
    using upd by (simp add: hand_over_def set_chan_def split: prod.split)
  define Q where "Q u \<longleftrightarrow> chans u \<noteq> [] \<or> (chans t = [] \<and> world u = world t) \<or>
    (\<exists>l. world u = lclose ops l (world t))" for u :: "('a, 'b) transport"
  have t: "Q t" by (simp add: Q_def)
  have "Q (on_create ops ?k r t)"
    using upd assms(1) by (auto simp: Q_def on_create_def set_chan_def Let_def split: option.splits prod.splits)
  moreover have "Q (on_data_first ops ?k sp r t)" for sp
    using upd hand t by (auto simp: Q_def on_data_first_def set_chan_def Let_def split: option.split)
  moreover have "Q (on_data ops ?k r t)"
    using upd hand t by (auto simp: Q_def on_data_def set_chan_def Let_def split: option.split)
  moreover have "Q (on_close ops ?k r t)"
    using t by (auto simp: Q_def on_close_def delete_idem map_of_eq_None_iff split: option.splits)
  moreover have "Q (pdu_write b t)" for b
    using t by (simp add: Q_def)
  ultimately have "Q (dvc_process ops p t)"
    using t Cons by (simp add: dvc_process_def Let_def)
  then show ?thesis
    using assms(2) by (simp add: Q_def)
qed (use assms in \<open>simp add: dvc_process_def\<close>)

definition mic_transport_ok :: "(audio_input, sink) transport \<Rightarrow> bool" where
  "mic_transport_ok t \<longleftrightarrow> transport_ok playable_formats mic_ok t \<and> (chans t = [] \<longrightarrow> \<not> recorder_up (inp (world t)))"

lemma mic_session_ok: "mic_transport_ok t \<Longrightarrow> mic_transport_ok (mic_session ps t)"
  unfolding mic_session_def
proof (induction ps arbitrary: t)
  case (Cons q ps)
  obtain w works p where q: "q = (w, works, p)" by (cases q)
  let ?ops = "audin_ops (mic w works)"
  have o: "lopen ?ops l v = (l, v, [])" for l v
    by (simp add: audin_ops_def)
  have off: "\<not> recorder_up (inp (lclose ?ops l v))" for l v
    by (simp add: audin_ops_def mic_def mic_stop_def stop_input_def)
  have "transport_ok playable_formats mic_ok (dvc_process ?ops p t)"
    using Cons.prems kiosk_mic.mic.process_ok by (auto simp: mic_transport_ok_def)
  moreover have "chans (dvc_process ?ops p t) = [] \<Longrightarrow> \<not> recorder_up (inp (world (dvc_process ?ops p t)))"
    using process_emptied [OF o, of p t] Cons.prems off by (auto simp: mic_transport_ok_def)
  ultimately have "mic_transport_ok (dvc_process ?ops p t)"
    by (simp add: mic_transport_ok_def)
  then show ?case using Cons.IH q by simp
qed simp

definition quiet_world :: sound_world where
  \<comment> \<open>a kiosk with one microphone\<close>
  "quiet_world = \<lparr>snd_files = \<lparr>pcm_file = Some ''00-00: ALC : ALC : capture 1'', cards_file = None, usb_cards = [],
     eld_files = \<lambda>_. []\<rparr>, jack = False, tool = (\<lambda>t. t), scontents = (\<lambda>_. None)\<rparr>"


definition one_format :: format where
  "one_format = \<lparr>Tag = 1, Channels = 2, SamplesPerSec = 44100, AvgBytesPerSec = 176400, BlockAlign = 4,
     BitsPerSample = 16, Extra = []\<rparr>"

definition asked_session :: "(sound_world \<times> bool \<times> bytes) list" where
  \<comment> \<open>a server that opens the channel, lists one format and asks for the microphone\<close>
  "asked_session = map (\<lambda>p. (quiet_world, True, p))
     [[0x10, 1, 65, 73, 0], [0x30, 1, msgFormats] @ le32 1 @ le32 0 @ write_format one_format,
      [0x30, 1, msgOpen] @ le32 4410 @ le32 0]"

lemma quiet_scan: "SelectInput (ScanSound (snd_files quiet_world)) = Some \<lparr>Card = 0, PcmDev = 0, CardID = [], PcmName = ''ALC'', sound_kind = KindAnalog,
       Playback = False, Capture = True, Monitor = False\<rparr>"
  by code_simp


lemma data_for_one:
  assumes "chans t = [(1, ch)]" "buf ch = None" "ldata ops m (listener ch) (world t) = (l, w, ms)"
  shows "chans (dvc_process ops (0x30 # 1 # m) t) = [(1, ch\<lparr>listener := l, buf := None\<rparr>)] \<and>
    world (dvc_process ops (0x30 # 1 # m) t) = w"
proof -
  have "dvc_process ops (0x30 # 1 # m) t = hand_over ops 1 ch m t"
    using assms(1,2) by (simp add: dvc_process_def cmdCaps_def cmdCreate_def cmdDataFirst_def cmdData_def on_data_def readVar_def)
  then show ?thesis using assms(1,3) by (simp add: hand_over_def set_chan_def)
qed

lemma asked_session_records:
  "recorder_up (inp (world (mic_session asked_session (attach (new_transport [([65, 73], new_audio_input)] new_sink)))))"
proof -
  let ?ops = "audin_ops (mic quiet_world True)"
  define t0 where "t0 = attach (new_transport [([65, 73 :: byte], new_audio_input)] new_sink)"
  define t1 where "t1 = dvc_process ?ops [0x10, 1, 65, 73, 0] t0"
  define m where "m = [msgFormats] @ le32 1 @ le32 0 @ write_format one_format"
  define k where "k = [msgOpen] @ le32 4410 @ le32 0"
  define t2 where "t2 = dvc_process ?ops (0x30 # 1 # m) t1"
  define ch where "ch = \<lparr>cname = [65, 73 :: byte], listener = new_audio_input, buf = None, total = 0\<rparr>"
  have t1: "chans t1 = [(1, ch)]" "world t1 = new_sink"
    by (simp_all add: t1_def t0_def ch_def dvc_process_def cmdCaps_def cmdCreate_def on_create_def readVar_def
        attach_def new_transport_def set_chan_def audin_ops_def Let_def)
  have "playable one_format" by (simp add: one_format_def playable_def FormatPCM_def)
  then have m: "ldata ?ops m (listener ch) w =
      (new_audio_input\<lparr>in_formats := [one_format]\<rparr>, w, [formats_answer [one_format]])" for w
    using read_write_format [of one_format "[]"]
    by (simp add: m_def ch_def audin_ops_def audin_data_def msgFormats_def msgVersion_def format_ok_def one_format_def Let_def)
  have t2: "chans t2 = [(1, ch\<lparr>listener := new_audio_input\<lparr>in_formats := [one_format]\<rparr>, buf := None\<rparr>)]"
    "world t2 = new_sink"
    using data_for_one [OF t1(1) _ m, folded t2_def] t1(2) by (simp_all add: ch_def)
  have none_left: "rd_le32 (le32 0) = Some (0, [])" by code_simp
  have up: "ldata ?ops k (new_audio_input\<lparr>in_formats := [one_format]\<rparr>) new_sink = (l, w, ms) \<Longrightarrow> recorder_up (inp w)" for l w ms
    by (auto simp: k_def audin_ops_def audin_data_def msgFormats_def msgVersion_def msgOpen_def msgFormatChange_def
        startFormat_def mic_def mic_start_def start_input_def quiet_scan none_left Let_def)
  obtain l w ms where d: "ldata ?ops k (new_audio_input\<lparr>in_formats := [one_format]\<rparr>) new_sink = (l, w, ms)"
    by (metis prod_cases3)
  have "world (dvc_process ?ops (0x30 # 1 # k) t2) = w"
    using data_for_one [OF t2(1), of ?ops k l w ms] d t2(2) by simp
  then show ?thesis
    using up [OF d] by (simp add: asked_session_def mic_session_def t0_def t1_def t2_def m_def k_def)
qed

text \<open>C6. The microphone is on only when the server asks, and only as the kiosk
  allows. Whatever PDUs the server sends on the dynamic channels, and whatever
  sound hardware comes and goes in between, at most one recorder runs, each was
  started in a format the kiosk plays and for packets of at most one second, and
  the recorder is off whenever no channel is open and once the transport is
  closed.\<close>

theorem microphone_as_asked:
  "let t = mic_session ps (attach (new_transport [(name, new_audio_input)] new_sink));
       log = rec_log (inp (world t))
   in fold rec_step log (Some False) = Some (recorder_up (inp (world t))) \<and> list_all rec_asked log \<and>
      (recorder_up (inp (world t)) \<longrightarrow> chans t \<noteq> []) \<and>
      \<not> recorder_up (inp (world (CloseAll (audin_ops (mic w works)) t)))"
proof -
  define t where "t = mic_session ps (attach (new_transport [(name, new_audio_input)] new_sink))"
  have "mic_transport_ok (attach (new_transport [(name, new_audio_input)] new_sink))"
    by (simp add: mic_transport_ok_def transport_ok_def attach_def new_transport_def new_sink_def new_input_def mic_ok_def)
  then have ok: "mic_transport_ok t"
    unfolding t_def by (rule mic_session_ok)
  have off: "\<not> recorder_up (inp (fold (\<lambda>(_, ch). lclose (audin_ops (mic w works)) (listener ch)) cs v))"
    if "cs \<noteq> [] \<or> \<not> recorder_up (inp v)" for cs :: "(u32 \<times> audio_input channel) list" and v
    using that
    by (induction cs arbitrary: v) (auto simp: audin_ops_def mic_def mic_stop_def stop_input_def)
  show ?thesis
    using ok off [of "chans t" "world t"]
    by (auto simp: t_def [symmetric] Let_def mic_transport_ok_def transport_ok_def mic_ok_def CloseAll_def)
qed

theorem microphone_as_asked_witness:
  "(let t = mic_session asked_session (attach (new_transport [([65, 73], new_audio_input)] new_sink))
    in recorder_up (inp (world t)) \<and> chans t \<noteq> [])"
  using microphone_as_asked [of asked_session "[65, 73]" quiet_world True] asked_session_records
  by (simp add: Let_def)

end
