(* ===== verification/IpAddr.thy ===== *)
theory IpAddr
  imports GoBytes GoStrings
begin

text \<open>
  Go's \<open>net.IP\<close>, as the program uses it: the text form and back, and the
  \<open>host:port\<close> forms. An address is \<open>IP4\<close> or \<open>IP6\<close>; an IPv4 address
  mapped into IPv6 is the IPv4 one, as \<open>net.IP.Equal\<close> and \<open>String\<close> treat
  it. Zones are not addresses to \<open>net.ParseIP\<close>.
\<close>

datatype ip = IP4 u32 | IP6 "nat list"   \<comment> \<open>eight groups of 16 bits\<close>

section \<open>IPv4\<close>

definition ip4_bytes :: "u32 \<Rightarrow> nat list" where
  "ip4_bytes w = [unat w div 2 ^ 24, unat w div 2 ^ 16 mod 256, unat w div 2 ^ 8 mod 256, unat w mod 256]"

definition ip4_of :: "nat list \<Rightarrow> u32" where
  "ip4_of bs = word_of_nat (foldl (\<lambda>a b. a * 256 + b) 0 bs)"

definition ip4_string :: "u32 \<Rightarrow> string" where
  "ip4_string w = join_with ''.'' (map itoa_nat (ip4_bytes w))"

definition ip4_field :: "string \<Rightarrow> nat option" where
  "ip4_field f = (if all_digits f \<and> (length f = 1 \<or> hd f \<noteq> CHR ''0'') \<and> digits_val f \<le> 255
     then Some (digits_val f) else None)"

definition parse_ip4 :: "string \<Rightarrow> u32 option" where
  "parse_ip4 s =
     (let fs = map ip4_field (split_on CHR ''.'' s)
      in if length fs = 4 \<and> None \<notin> set fs then Some (ip4_of (map the fs)) else None)"

section \<open>IPv6\<close>

definition mapped :: "nat list \<Rightarrow> ip" where
  "mapped gs = (if take 6 gs = [0, 0, 0, 0, 0, 65535]
     then IP4 (word_of_nat (gs ! 6 * 65536 + gs ! 7)) else IP6 gs)"

fun v6_groups :: "nat \<Rightarrow> string \<Rightarrow> nat list \<Rightarrow> nat option \<Rightarrow> (nat list \<times> nat option) option" where
  \<comment> \<open>\<open>netip\<close>'s loop: the groups read so far, and where the \<open>::\<close> was; each
    round reads at least one character, so the text's length is fuel enough\<close>
  "v6_groups 0 s gs ell = None"
| "v6_groups (Suc n) s gs ell =
     (if length gs \<ge> 8 then None
      else
        let g = takeWhile is_hex s; r = drop (length g) s
        in if g = [] \<or> 4 < length g then None
           else if r \<noteq> [] \<and> hd r = CHR ''.'' then
             (if (ell = None \<and> length gs \<noteq> 6) \<or> 6 < length gs then None
              else case parse_ip4 s of None \<Rightarrow> None
                | Some w \<Rightarrow> Some (gs @ [unat w div 65536, unat w mod 65536], ell))
           else
             let gs' = gs @ [foldl (\<lambda>a c. a * 16 + hex_val c) 0 g]
             in if r = [] then Some (gs', ell)
                else if hd r \<noteq> CHR '':'' \<or> tl r = [] then None
                else if hd (tl r) = CHR '':'' then
                  (if ell \<noteq> None then None
                   else if tl (tl r) = [] then Some (gs', Some (length gs'))
                   else v6_groups n (tl (tl r)) gs' (Some (length gs')))
                else v6_groups n (tl r) gs' ell)"

definition parse_ip6 :: "string \<Rightarrow> ip option" where
  "parse_ip6 s =
     (let (r, ell) = (case cut_prefix ''::'' s of Some t \<Rightarrow> (t, Some 0) | None \<Rightarrow> (s, None))
      in if r = [] \<and> ell \<noteq> None then Some (IP6 (replicate 8 0))
         else case v6_groups (Suc (length r)) r [] ell of None \<Rightarrow> None
           | Some (gs, None) \<Rightarrow> if length gs = 8 then Some (mapped gs) else None
           | Some (gs, Some e) \<Rightarrow>
               if length gs < 8 then Some (mapped (take e gs @ replicate (8 - length gs) 0 @ drop e gs)) else None)"

definition zero_run :: "nat list \<Rightarrow> nat" where "zero_run gs = length (takeWhile (\<lambda>g. g = 0) gs)"

definition best_run :: "nat list \<Rightarrow> nat \<times> nat" where
  \<comment> \<open>start and length of the first longest run of two zero groups or more, length 0 without one\<close>
  "best_run gs = fold (\<lambda>i (st, len). let l = zero_run (drop i gs)
     in if 2 \<le> l \<and> len < l then (i, l) else (st, len)) [0..<8] (0, 0)"

definition ip6_string :: "nat list \<Rightarrow> string" where
  "ip6_string gs =
     (let (st, len) = best_run gs
      in if len = 0 then join_with '':'' (map itoa_hex gs)
         else join_with '':'' (map itoa_hex (take st gs)) @ ''::'' @
           join_with '':'' (map itoa_hex (drop (st + len) gs)))"

section \<open>Either\<close>

fun ip_string :: "ip \<Rightarrow> string" where
  "ip_string (IP4 w) = ip4_string w"
| "ip_string (IP6 gs) = ip6_string gs"

definition ParseIP :: "string \<Rightarrow> ip option" where
  "ParseIP s =
     (case dropWhile (\<lambda>c. c \<notin> {CHR ''.'', CHR '':'', CHR ''%''}) s of
        [] \<Rightarrow> None
      | c # _ \<Rightarrow> if c = CHR ''.'' then map_option IP4 (parse_ip4 s)
                 else if c = CHR '':'' then parse_ip6 s else None)"

section \<open>Host and port\<close>

definition JoinHostPort :: "string \<Rightarrow> string \<Rightarrow> string" where
  "JoinHostPort h p =
     (if CHR '':'' \<in> set h then ''['' @ h @ '']:'' @ p else h @ '':'' @ p)"

definition before_last :: "char \<Rightarrow> string \<Rightarrow> string \<times> string" where
  \<comment> \<open>the text before and after the last \<open>c\<close>\<close>
  "before_last c s = (rev (tl (dropWhile (\<lambda>x. x \<noteq> c) (rev s))), rev (takeWhile (\<lambda>x. x \<noteq> c) (rev s)))"

definition SplitHostPort :: "string \<Rightarrow> (string \<times> string) option" where
  "SplitHostPort s =
     (if CHR '':'' \<notin> set s then None
      else
        let (h, p) = before_last CHR '':'' s
        in if has_prefix s ''['' then
             (case cut_at CHR '']'' s of None \<Rightarrow> None
              | Some (a, b) \<Rightarrow>
                if h = a @ '']'' \<and> b = '':'' @ p \<and> CHR ''['' \<notin> set (tl a) \<and> CHR ''['' \<notin> set p \<and> CHR '']'' \<notin> set p
                then Some (tl a, p) else None)
           else if CHR '':'' \<in> set h \<or> CHR ''['' \<in> set s \<or> CHR '']'' \<in> set s then None
           else Some (h, p))"

section \<open>An IPv4 address read back is itself\<close>

lemma ip4_of_bytes: "ip4_of (ip4_bytes w) = w"
proof -
  have "unat w < 2 ^ 32" using unsigned_less [of w, where 'a = nat] by simp
  then have "((unat w div 2 ^ 24 * 256 + unat w div 2 ^ 16 mod 256) * 256 + unat w div 2 ^ 8 mod 256) * 256 +
      unat w mod 256 = unat w"
    by (simp add: div_mult2_eq [of _ 256 256, simplified] div_mult2_eq [of _ 65536 256, simplified])
  then have "foldl (\<lambda>a b. a * 256 + b) 0 (ip4_bytes w) = unat w"
    by (simp add: ip4_bytes_def)
  then show ?thesis by (simp add: ip4_of_def)
qed

lemma ip4_bytes_small: "b \<in> set (ip4_bytes w) \<Longrightarrow> b \<le> 255"
proof -
  have "unat w < 2 ^ 24 * 256" using unsigned_less [of w, where 'a = nat] by simp
  then have "unat w div 2 ^ 24 < 256" by (simp only: less_mult_imp_div_less mult.commute)
  then show "b \<in> set (ip4_bytes w) \<Longrightarrow> b \<le> 255"
    by (auto simp: ip4_bytes_def simp del: div_greater_zero_iff intro: less_Suc_eq_le [THEN iffD1])
qed

lemma hd_itoa: "0 < n \<Longrightarrow> hd (itoa_nat n) \<noteq> CHR ''0''"
proof (induction n rule: itoa_nat.induct)
  case (1 n)
  show ?case
  proof (cases "n < 10")
    case True
    then have "of_char (digit_char n) \<noteq> (of_char CHR ''0'' :: nat)" using 1 by simp
    then have "digit_char n \<noteq> CHR ''0''" by metis
    then show ?thesis using True by (subst itoa_nat.simps) simp
  next
    case False
    have "itoa_nat (n div 10) \<noteq> []" using itoa_nat_digits [of "n div 10"] by (simp add: all_digits_def)
    with False 1 show ?thesis by (subst itoa_nat.simps) simp
  qed
qed

lemma ip4_field_itoa: "n \<le> 255 \<Longrightarrow> ip4_field (itoa_nat n) = Some n"
proof -
  have "length (itoa_nat 0) = 1" by (subst itoa_nat.simps) simp
  then show "n \<le> 255 \<Longrightarrow> ip4_field (itoa_nat n) = Some n"
    using hd_itoa [of n] by (cases "n = 0") (simp_all add: ip4_field_def itoa_nat_digits)
qed

lemma itoa_nat_digit: "c \<in> set (itoa_nat n) \<Longrightarrow> is_digit c"
  using itoa_nat_digits [of n] by (auto simp: all_digits_def list_all_iff)

lemma parse_ip4_string: "parse_ip4 (ip4_string w) = Some w"
proof -
  have dot: "CHR ''.'' \<notin> set (itoa_nat n)" for n
    using itoa_nat_digit [of "CHR ''.''" n] by (auto simp: is_digit_iff)
  have "split_on CHR ''.'' (ip4_string w) = map itoa_nat (ip4_bytes w)"
    unfolding ip4_string_def using dot by (intro split_join) (auto simp: ip4_bytes_def)
  then have "map ip4_field (split_on CHR ''.'' (ip4_string w)) = map Some (ip4_bytes w)"
    using ip4_bytes_small [of _ w] ip4_field_itoa by auto
  then show ?thesis
    by (simp add: parse_ip4_def ip4_of_bytes) (simp add: ip4_bytes_def)
qed

lemma ip4_string_chars: "c \<in> set (ip4_string w) \<Longrightarrow> is_digit c \<or> c = CHR ''.''"
  by (auto simp: ip4_string_def ip4_bytes_def dest: itoa_nat_digit)

lemma ip4_string_dot: "\<exists>a b. ip4_string w = a @ CHR ''.'' # b \<and> list_all is_digit a"
  by (auto simp: ip4_string_def ip4_bytes_def list_all_iff dest: itoa_nat_digit)

lemma ParseIP_string: "ParseIP (ip4_string w) = Some (IP4 w)"
proof -
  obtain a b where ab: "ip4_string w = a @ CHR ''.'' # b" "list_all is_digit a"
    using ip4_string_dot by blast
  have "dropWhile (\<lambda>c. c \<notin> {CHR ''.'', CHR '':'', CHR ''%''}) (ip4_string w) = CHR ''.'' # b"
    unfolding ab(1) using ab(2) by (induction a) (auto simp: is_digit_iff)
  then show ?thesis by (simp add: ParseIP_def parse_ip4_string)
qed

lemma split_join_port:
  assumes "CHR '':'' \<notin> set h" "CHR ''['' \<notin> set h" "CHR '']'' \<notin> set h" "all_digits p"
  shows "SplitHostPort (JoinHostPort h p) = Some (h, p)"
proof -
  have p: "c \<in> set p \<Longrightarrow> is_digit c" for c using assms(4) by (auto simp: all_digits_def list_all_iff)
  have np: "CHR '':'' \<notin> set p" "CHR ''['' \<notin> set p" "CHR '']'' \<notin> set p"
    using p [of "CHR '':''"] p [of "CHR ''[''"] p [of "CHR '']''"] by (auto simp: is_digit_iff)
  have "takeWhile (\<lambda>x. x \<noteq> CHR '':'') (rev p @ CHR '':'' # rev h) = rev p"
    "dropWhile (\<lambda>x. x \<noteq> CHR '':'') (rev p @ CHR '':'' # rev h) = CHR '':'' # rev h"
    using np(1) by (auto simp: takeWhile_append dropWhile_append3)
  then have "before_last CHR '':'' (h @ '':'' @ p) = (h, p)"
    by (simp add: before_last_def)
  moreover have "\<not> has_prefix (h @ '':'' @ p) ''[''"
    using assms(2) by (cases h) (auto simp: has_prefix_def)
  ultimately show ?thesis
    using assms np by (simp add: SplitHostPort_def JoinHostPort_def)
qed

end
