(* ===== verification/Hosts.thy ===== *)
theory Hosts
  imports IpAddr
begin

text \<open>
  \<open>internal/domain/host.go\<close>: a server, the address a person types for it and
  the key it goes by in the list. The resolver is an argument of
  \<open>ParseAddress\<close>; the clock's reading is an argument too.
\<close>

definition DefaultRDPPort :: int where "DefaultRDPPort = 3389"

record host =
  IP :: ip
  Hostname :: string
  Port :: int
  LatencyMs :: int
  DiscoveredAt :: int

definition host_port :: "host \<Rightarrow> int" where
  "host_port h = (if Port h = 0 then DefaultRDPPort else Port h)"

definition AddrRDP :: "host \<Rightarrow> string" where
  "AddrRDP h = JoinHostPort (ip_string (IP h)) (itoa (host_port h))"

definition Address :: "host \<Rightarrow> string" where
  "Address h = (if host_port h = DefaultRDPPort then ip_string (IP h) else AddrRDP h)"

definition Same :: "host \<Rightarrow> host \<Rightarrow> bool" where
  "Same h x \<longleftrightarrow> IP h = IP x \<and> host_port h = host_port x"

definition DisplayName :: "host \<Rightarrow> string" where
  "DisplayName h = (if Hostname h \<noteq> [] then Hostname h else ip_string (IP h))"

definition strip_brackets :: "string \<Rightarrow> string" where
  "strip_brackets s = trim_right (\<lambda>c. c \<in> set ''[]'') (trim_left (\<lambda>c. c \<in> set ''[]'') s)"

definition bad_name :: "string \<Rightarrow> bool" where
  "bad_name n \<longleftrightarrow> n = [] \<or> list_ex (\<lambda>c. c \<in> {CHR '' '', CHR ''/'', CHR 0x5C, CHR ''@''}) n"

definition splitAddress :: "string \<Rightarrow> (string \<times> int) option" where
  \<comment> \<open>\<open>None\<close> is \<open>ErrBadAddress\<close>\<close>
  "splitAddress s0 =
     (let s = trim_space s0;
          finish = (\<lambda>name port. let n = strip_brackets name in if bad_name n then None else Some (n, port))
      in case SplitHostPort s of None \<Rightarrow> finish s 0
         | Some (h, p) \<Rightarrow>
           (case atoi p of None \<Rightarrow> None
            | Some n \<Rightarrow> if n < 1 \<or> n > 65535 then None else finish h n))"

definition ParseIPAddress :: "int \<Rightarrow> string \<Rightarrow> host option" where
  "ParseIPAddress now s =
     (case splitAddress s of None \<Rightarrow> None
      | Some (name, port) \<Rightarrow>
        (case ParseIP name of None \<Rightarrow> None
         | Some a \<Rightarrow> Some \<lparr>IP = a, Hostname = [], Port = port, LatencyMs = 0, DiscoveredAt = now\<rparr>))"

fun is_ip4 :: "ip \<Rightarrow> bool" where
  "is_ip4 (IP4 _) = True"
| "is_ip4 (IP6 _) = False"

datatype address_error = ErrBadAddress | ErrLookup

definition ParseAddress :: "(string \<Rightarrow> ip list option) \<Rightarrow> int \<Rightarrow> string \<Rightarrow> address_error + host" where
  "ParseAddress lookup now s =
     (case ParseIPAddress now s of Some h \<Rightarrow> Inr h
      | None \<Rightarrow>
        (case splitAddress s of None \<Rightarrow> Inl ErrBadAddress
         | Some (name, port) \<Rightarrow>
           (case lookup name of None \<Rightarrow> Inl ErrLookup
            | Some [] \<Rightarrow> Inl ErrBadAddress
            | Some (a # as) \<Rightarrow>
              let best = (case filter is_ip4 (a # as) of [] \<Rightarrow> a | x # _ \<Rightarrow> x)
              in Inr \<lparr>IP = best, Hostname = name, Port = port, LatencyMs = 0, DiscoveredAt = now\<rparr>)))"

section \<open>Scan events\<close>

datatype scan_event_type = EventHostFound | EventScanProgress | EventScanComplete

record scan_event =
  ev_type :: scan_event_type
  ev_host :: "host option"
  Scanned :: int
  Total :: int

section \<open>What is shown can be typed\<close>

definition ip4_host :: "host \<Rightarrow> bool" where
  "ip4_host h \<longleftrightarrow> is_ip4 (IP h) \<and> 0 \<le> Port h \<and> Port h \<le> 65535"

lemma ip4_hostE:
  assumes "ip4_host h"
  obtains w where "IP h = IP4 w" "1 \<le> host_port h" "host_port h \<le> 65535" "Port h = 0 \<or> host_port h = Port h"
proof (cases "IP h")
  case (IP4 w)
  then show ?thesis using that assms by (auto simp: ip4_host_def host_port_def DefaultRDPPort_def)
qed (use assms in \<open>simp add: ip4_host_def\<close>)

lemma ip4_chars:
  assumes "c \<in> set (ip4_string w)"
  shows "c \<noteq> CHR '':''" "c \<noteq> CHR ''[''" "c \<noteq> CHR '']''" "c \<noteq> CHR '' ''" "c \<noteq> CHR ''/''" "c \<noteq> CHR 0x5C"
    "c \<noteq> CHR ''@''" "\<not> is_space c"
  using ip4_string_chars [OF assms] by (auto simp: is_digit_iff is_space_def)

lemma finish_ip4: "strip_brackets (ip4_string w) = ip4_string w" "\<not> bad_name (ip4_string w)"
proof -
  have ne: "ip4_string w \<noteq> []" using ip4_string_dot [of w] by auto
  then have "ip4_string w ! 0 \<in> set (ip4_string w)" "last (ip4_string w) \<in> set (ip4_string w)"
    by auto
  then show "strip_brackets (ip4_string w) = ip4_string w"
    unfolding strip_brackets_def using ne ip4_chars [of _ w] by (auto simp: hd_conv_nth)
  show "\<not> bad_name (ip4_string w)"
    using ne ip4_chars [of _ w] by (auto simp: bad_name_def list_ex_iff)
qed

lemma split_ip4_alone: "splitAddress (ip4_string w) = Some (ip4_string w, 0)"
proof -
  have "CHR '':'' \<notin> set (ip4_string w)" using ip4_chars [of _ w] by blast
  moreover have "trim_space (ip4_string w) = ip4_string w"
    using ip4_chars(8) by (intro trim_space_word) auto
  ultimately show ?thesis
    by (simp add: splitAddress_def SplitHostPort_def finish_ip4 Let_def)
qed

lemma split_ip4_port:
  assumes "1 \<le> p" "p \<le> 65535"
  shows "splitAddress (JoinHostPort (ip4_string w) (itoa p)) = Some (ip4_string w, p)"
proof -
  have d: "all_digits (itoa p)" using assms by (simp add: itoa_nonneg itoa_nat_digits)
  have "CHR '':'' \<notin> set (ip4_string w)" "CHR ''['' \<notin> set (ip4_string w)" "CHR '']'' \<notin> set (ip4_string w)"
    using ip4_chars [of _ w] by blast+
  then have s: "SplitHostPort (JoinHostPort (ip4_string w) (itoa p)) = Some (ip4_string w, itoa p)"
    and j: "JoinHostPort (ip4_string w) (itoa p) = ip4_string w @ '':'' @ itoa p"
    using split_join_port d by (auto simp: JoinHostPort_def)
  have "\<not> is_space c" if "c \<in> set (ip4_string w @ '':'' @ itoa p)" for c
    using that ip4_chars(8) itoa_no_space [of p c] assms by (auto simp: is_digit_iff is_space_def)
  then have "trim_space (JoinHostPort (ip4_string w) (itoa p)) = JoinHostPort (ip4_string w) (itoa p)"
    unfolding j by (intro trim_space_word) auto
  then show ?thesis
    using s assms by (simp add: splitAddress_def atoi_itoa max_int_def finish_ip4 Let_def)
qed

lemma same_key:
  assumes "ip4_host h" "ip4_host x"
  shows "AddrRDP h = AddrRDP x \<longleftrightarrow> Same h x"
proof
  obtain w p where h: "IP h = IP4 w" "1 \<le> host_port h" "host_port h \<le> 65535"
    using assms(1) by (rule ip4_hostE)
  obtain v where x: "IP x = IP4 v" "1 \<le> host_port x" "host_port x \<le> 65535"
    using assms(2) by (rule ip4_hostE)
  assume "AddrRDP h = AddrRDP x"
  then have "splitAddress (AddrRDP h) = splitAddress (AddrRDP x)" by simp
  then have "ip4_string w = ip4_string v \<and> host_port h = host_port x"
    using h x by (simp add: AddrRDP_def split_ip4_port)
  then show "Same h x" using h x parse_ip4_string by (metis Same_def option.inject)
qed (simp add: AddrRDP_def Same_def)

lemma parse_address:
  assumes "ip4_host h"
  shows "\<exists>h'. ParseIPAddress now (Address h) = Some h' \<and> Same h' h"
proof -
  obtain w where h: "IP h = IP4 w" "1 \<le> host_port h" "host_port h \<le> 65535"
    using assms by (rule ip4_hostE)
  have "splitAddress (Address h) = Some (ip4_string w, if host_port h = DefaultRDPPort then 0 else host_port h)"
    using h by (auto simp: Address_def AddrRDP_def split_ip4_alone split_ip4_port)
  then show ?thesis
    using h by (auto simp: ParseIPAddress_def ParseIP_string Same_def host_port_def DefaultRDPPort_def)
qed

lemma address_chars:
  assumes "ip4_host h" "c \<in> set (Address h)"
  shows "\<not> is_space c"
proof -
  obtain w where h: "IP h = IP4 w" "1 \<le> host_port h" "host_port h \<le> 65535"
    using assms(1) by (rule ip4_hostE)
  moreover have "CHR '':'' \<notin> set (ip4_string w)" using ip4_chars(1) by blast
  ultimately have "c \<in> set (ip4_string w) \<or> c = CHR '':'' \<or> c \<in> set (itoa (host_port h))"
    using assms(2) by (auto simp: Address_def AddrRDP_def JoinHostPort_def split: if_splits)
  then show ?thesis
    using ip4_chars(8) itoa_no_space [of "host_port h" c] h by (auto simp: is_digit_iff is_space_def)
qed

text \<open>The address the kiosk shows and keeps for a server leads back to it: an
  IPv4 server's \<open>Address\<close>, and the key it goes by, typed into the server field
  parse as the same endpoint; and two servers have the same key exactly when they
  are the same endpoint, so that the list has no two rows of one key.\<close>

lemma address_leads_back:
  assumes "ip4_host h" "ip4_host x"
  shows "(\<exists>h'. ParseIPAddress now (Address h) = Some h' \<and> Same h' h) \<and>
    (\<exists>h'. ParseAddress lookup now (AddrRDP h) = Inr h' \<and> Same h' h) \<and>
    (AddrRDP h = AddrRDP x \<longleftrightarrow> Same h x)"
proof -
  obtain w where h: "IP h = IP4 w" "1 \<le> host_port h" "host_port h \<le> 65535"
    using assms(1) by (rule ip4_hostE)
  have "splitAddress (AddrRDP h) = Some (ip4_string w, host_port h)"
    using h by (simp add: AddrRDP_def split_ip4_port)
  then show ?thesis
    using h same_key [OF assms] parse_address [OF assms(1), of now]
    by (auto simp: ParseAddress_def ParseIPAddress_def ParseIP_string Same_def host_port_def DefaultRDPPort_def)
qed

lemma address_leads_back_example:
  "\<exists>h'. ParseIPAddress 5 (Address \<lparr>IP = IP4 0x0A000005, Hostname = ''pc'', Port = 3390, LatencyMs = 1, DiscoveredAt = 0\<rparr>) = Some h' \<and>
     Port h' = 3390"
proof -
  have "ip4_host \<lparr>IP = IP4 0x0A000005, Hostname = ''pc'', Port = 3390, LatencyMs = 1, DiscoveredAt = 0\<rparr>"
    by (simp add: ip4_host_def)
  from address_leads_back [OF this this, of 5 "\<lambda>_. None"] show ?thesis
    by (auto simp: Same_def host_port_def DefaultRDPPort_def split: if_splits)
qed

end
