(* ===== verification/Cidr.thy ===== *)
theory Cidr
  imports IpAddr
begin

text \<open>
  \<open>internal/scanner/cidr.go\<close> and \<open>internal/network/iface.go\<close>: the
  subnet the kiosk is in, and the addresses of a subnet to probe. \<open>None\<close>
  stands for a loop that does not end.
\<close>

section \<open>Subnets\<close>

definition dtoi :: "string \<Rightarrow> nat option" where
  \<comment> \<open>\<open>net\<close>'s reading of a prefix length: digits only, below \<open>0xFFFFFF\<close>\<close>
  "dtoi s = (if all_digits s \<and> digits_val s < 0xFFFFFF then Some (digits_val s) else None)"

definition ParseCIDR :: "string \<Rightarrow> (u32 \<times> nat) option" where
  \<comment> \<open>an IPv4 block; the kiosk makes no other\<close>
  "ParseCIDR s =
     (case cut_at CHR ''/'' s of None \<Rightarrow> None
      | Some (a, m) \<Rightarrow>
        (case (parse_ip4 a, dtoi m) of
           (Some w, Some n) \<Rightarrow> if n \<le> 32 then Some (w, n) else None
         | _ \<Rightarrow> None))"

definition cidr_mask :: "nat \<Rightarrow> u32" where "cidr_mask n = NOT (mask (32 - n))"

definition ip_net_string :: "u32 \<Rightarrow> nat \<Rightarrow> string" where
  "ip_net_string w n = ip4_string w @ ''/'' @ itoa_nat n"

fun inc_bytes :: "bytes \<Rightarrow> bytes" where
  \<comment> \<open>the carry loop of \<open>inc\<close>, from the last byte on: the argument is reversed\<close>
  "inc_bytes [] = []"
| "inc_bytes (b # bs) = (if b + 1 \<noteq> 0 then (b + 1) # bs else 0 # inc_bytes bs)"

definition inc_ip :: "u32 \<Rightarrow> u32" where
  "inc_ip w = (case inc_bytes (rev (be32 w)) of [d, c, b, a] \<Rightarrow> join32 d c b a | _ \<Rightarrow> w)"

definition net_contains :: "u32 \<Rightarrow> nat \<Rightarrow> u32 \<Rightarrow> bool" where
  "net_contains net n w \<longleftrightarrow> w AND cidr_mask n = net AND cidr_mask n"

definition isBroadcast :: "u32 \<Rightarrow> nat \<Rightarrow> u32 \<Rightarrow> bool" where
  "isBroadcast net n w \<longleftrightarrow> w = net OR NOT (cidr_mask n)"

partial_function (option) expand_from :: "u32 \<Rightarrow> nat \<Rightarrow> u32 \<Rightarrow> u32 list option" where
  "expand_from net n w =
     (if \<not> net_contains net n w then Some []
      else Option.bind (expand_from net n (inc_ip w))
        (\<lambda>rest. Some (if w = net \<or> isBroadcast net n w then rest else w # rest)))"

definition ExpandCIDR :: "string \<Rightarrow> u32 list option option" where
  \<comment> \<open>\<open>Some None\<close>: the block is no block\<close>
  "ExpandCIDR s =
     (case ParseCIDR s of None \<Rightarrow> Some None
      | Some (w, n) \<Rightarrow>
        let net = w AND cidr_mask n
        in map_option Some (expand_from net n net))"

section \<open>The kiosk's own subnet\<close>

datatype iface_addr = IPNet ip nat | IPAddr ip   \<comment> \<open>\<open>*net.IPNet\<close> with its prefix length, \<open>*net.IPAddr\<close>\<close>

record net_iface =
  iface_up :: bool
  iface_loopback :: bool
  iface_addrs :: "iface_addr list option"   \<comment> \<open>\<open>None\<close>: listing them fails\<close>

definition loopback4 :: "u32 \<Rightarrow> bool" where "loopback4 w \<longleftrightarrow> drop_bit 24 w = 127"
definition link_local4 :: "u32 \<Rightarrow> bool" where "link_local4 w \<longleftrightarrow> drop_bit 16 w = 0xA9FE"

definition usable_addrs :: "net_iface list \<Rightarrow> iface_addr list" where
  "usable_addrs ifs = concat (map (\<lambda>i. if \<not> iface_up i \<or> iface_loopback i then []
     else case iface_addrs i of None \<Rightarrow> [] | Some as \<Rightarrow> as) ifs)"

fun detect_from :: "iface_addr list \<Rightarrow> string \<Rightarrow> string" where
  "detect_from [] linkLocal = linkLocal"
| "detect_from (IPNet (IP4 w) n # as) linkLocal =
     (if loopback4 w then detect_from as linkLocal
      else
        let network = ip_net_string (w AND cidr_mask n) n
        in if link_local4 w then detect_from as (if linkLocal = [] then network else linkLocal)
           else network)"
| "detect_from (_ # as) linkLocal = detect_from as linkLocal"

definition DetectCIDR :: "net_iface list option \<Rightarrow> string option" where
  \<comment> \<open>\<open>None\<close>: an error, with which the caller goes on with an empty block\<close>
  "DetectCIDR ifs =
     (case ifs of None \<Rightarrow> None
      | Some is \<Rightarrow> let c = detect_from (usable_addrs is) [] in if c = [] then None else Some c)"

fun detect_ip_from :: "iface_addr list \<Rightarrow> string option" where
  "detect_ip_from [] = None"
| "detect_ip_from (IPNet (IP4 w) n # as) = (if loopback4 w then detect_ip_from as else Some (ip4_string w))"
| "detect_ip_from (_ # as) = detect_ip_from as"

definition DetectIP :: "net_iface list option \<Rightarrow> string option" where
  "DetectIP ifs = (case ifs of None \<Rightarrow> None | Some is \<Rightarrow> detect_ip_from (usable_addrs is))"

section \<open>The carry loop is addition\<close>

lemma byte_succ:
  "b + 1 \<noteq> 0 \<Longrightarrow> (ucast (b + 1) :: u32) = ucast b + 1"
  "b + 1 = 0 \<Longrightarrow> (ucast b :: u32) = 255" for b :: byte
proof -
  have u: "(ucast x :: u32) = word_of_nat (unat x)" for x :: byte
    by (simp only: of_nat_unat)
  show "(ucast (b + 1) :: u32) = ucast b + 1" if "b + 1 \<noteq> 0"
  proof -
    have "unat (b + 1) = Suc (unat b)"
      using unatSuc [of b] that by (simp add: add.commute)
    then show ?thesis unfolding u by simp
  qed
  show "(ucast b :: u32) = 255" if "b + 1 = 0"
  proof -
    have "b = - 1" using that by (simp add: eq_neg_iff_add_eq_0)
    then have "unat b = 255" by (simp add: unsigned_minus_1_eq_mask mask_eq_exp_minus_1)
    then show ?thesis unfolding u by simp
  qed
qed

lemma join32_sum:
  "join32 d c b a = ucast d + ucast c * 256 + ucast b * 65536 + ucast a * 16777216"
proof -
  have o: "x + y = x OR y" if "\<And>n. \<not> (bit x n \<and> bit y n)" for x y :: u32
    using that by (intro disjunctive_add_eq_or bit_word_eqI) (auto simp: bit_simps)
  have "ucast d + push_bit 8 (ucast c) = (ucast d OR push_bit 8 (ucast c) :: u32)"
    by (rule o) (auto simp: bit_simps dest: bit_imp_le_length)
  moreover have "(ucast d OR push_bit 8 (ucast c)) + push_bit 16 (ucast b) =
      (ucast d OR push_bit 8 (ucast c) OR push_bit 16 (ucast b) :: u32)"
    by (subst or.assoc [symmetric], rule o) (auto simp: bit_simps dest: bit_imp_le_length)
  moreover have "(ucast d OR push_bit 8 (ucast c) OR push_bit 16 (ucast b)) + push_bit 24 (ucast a) = join32 d c b a"
    unfolding join32_def or.assoc [symmetric]
    by (rule o) (auto simp: bit_simps dest: bit_imp_le_length)
  ultimately show ?thesis
    by (simp add: push_bit_eq_mult)
qed

lemma inc_ip_eq [simp]: "inc_ip w = w + 1"
proof -
  define d c b a where "d = (ucast w :: byte)" and "c = (ucast (drop_bit 8 w) :: byte)"
    and "b = (ucast (drop_bit 16 w) :: byte)" and "a = (ucast (drop_bit 24 w) :: byte)"
  have w: "w = join32 d c b a"
    unfolding d_def c_def b_def a_def by simp
  have r: "rev (be32 w) = [d, c, b, a]"
    by (simp add: be32_def d_def c_def b_def a_def)
  have z: "(4294967296 :: u32) = 0" by code_simp
  have "inc_ip w = join32 d c b a + 1"
    unfolding inc_ip_def r join32_sum
    using byte_succ [of d] byte_succ [of c] byte_succ [of b] byte_succ [of a]
    by (cases "d + 1 = 0"; cases "c + 1 = 0"; cases "b + 1 = 0"; cases "a + 1 = 0")
      (simp_all add: join32_sum algebra_simps z)
  then show ?thesis using w by simp
qed

section \<open>The addresses of a block\<close>

lemma net_contains_iff:
  assumes "n \<le> 32"
  shows "net_contains net n w \<longleftrightarrow> unat w div 2 ^ (32 - n) = unat net div 2 ^ (32 - n)"
proof -
  have outside: "32 \<le> i \<Longrightarrow> bit x i = False" for x :: u32 and i
    using bit_imp_le_length [of x i] by auto
  have "net_contains net n w \<longleftrightarrow> drop_bit (32 - n) w = drop_bit (32 - n) net"
  proof
    assume "net_contains net n w"
    then have "bit (w AND cidr_mask n) (32 - n + j) = bit (net AND cidr_mask n) (32 - n + j)" for j
      by (simp add: net_contains_def)
    then have "bit w (32 - n + j) = bit net (32 - n + j)" for j
      by (cases "32 - n + j < 32") (auto simp: cidr_mask_def bit_simps outside)
    then show "drop_bit (32 - n) w = drop_bit (32 - n) net"
      by (intro bit_word_eqI) (simp add: bit_drop_bit_eq)
  next
    assume eq: "drop_bit (32 - n) w = drop_bit (32 - n) net"
    have "bit w i = bit net i" if "32 - n \<le> i" for i
    proof -
      from that obtain j where "i = 32 - n + j" using le_Suc_ex by blast
      then show ?thesis
        using arg_cong [OF eq, of "\<lambda>x. bit x j"] by (simp only: bit_drop_bit_eq comp_apply)
    qed
    then show "net_contains net n w"
      unfolding net_contains_def by (intro bit_word_eqI) (auto simp: cidr_mask_def bit_simps)
  qed
  also have "\<dots> \<longleftrightarrow> unat (drop_bit (32 - n) w) = unat (drop_bit (32 - n) net)"
    by (metis word_unat_eq_iff)
  finally show ?thesis by (simp only: unat_drop_bit_eq drop_bit_eq_div [where 'a = nat])
qed

lemma unat_small: "x < 4294967296 \<Longrightarrow> unat (word_of_nat x :: u32) = x"
  by (simp add: unat_of_nat)

lemma unat_shift_up:
  assumes "m * 2 ^ k < 2 ^ 32"
  shows "unat (push_bit k (word_of_nat m :: u32)) = m * 2 ^ k"
proof -
  have "push_bit k (word_of_nat m :: u32) = word_of_nat (m * 2 ^ k)"
    by (simp add: push_bit_eq_mult)
  moreover have "unat (word_of_nat (m * 2 ^ k) :: u32) = m * 2 ^ k"
    using assms by (intro unat_small) simp
  ultimately show ?thesis by simp
qed

lemma masked_val: "n \<le> 32 \<Longrightarrow> unat (w AND cidr_mask n) = unat w div 2 ^ (32 - n) * 2 ^ (32 - n)"
proof -
  assume n: "n \<le> 32"
  have "w AND cidr_mask n = push_bit (32 - n) (drop_bit (32 - n) w)"
    by (intro bit_word_eqI) (auto simp: cidr_mask_def bit_simps)
  moreover have "drop_bit (32 - n) w = word_of_nat (unat w div 2 ^ (32 - n))"
    by (simp only: drop_bit_eq_div [symmetric] unat_drop_bit_eq [symmetric] of_nat_unat ucast_id)
  moreover have "unat w div 2 ^ (32 - n) * 2 ^ (32 - n) < 2 ^ 32"
    using order.strict_trans1 [OF div_times_less_eq_dividend unsigned_less [of w, where 'a = nat]] by simp
  ultimately show ?thesis by (simp only: unat_shift_up)
qed

lemma unat_mask_word: "k < 32 \<Longrightarrow> unat (mask k :: u32) = 2 ^ k - 1"
proof -
  assume "k < 32"
  then have "(2 :: nat) ^ k < 2 ^ 32" by (intro power_strict_increasing) auto
  then have "unat (word_of_nat (2 ^ k - 1) :: u32) = 2 ^ k - 1" by (intro unat_small) simp
  moreover have "(mask k :: u32) = word_of_nat (2 ^ k - 1)"
    by (simp only: mask_eq_exp_minus_1 of_nat_diff [OF one_le_power] of_nat_power of_nat_numeral of_nat_1 one_le_numeral)
  ultimately show ?thesis by (simp only:)
qed

lemma broadcast_val:
  assumes "0 < n" "n \<le> 32" "unat net mod 2 ^ (32 - n) = 0"
  shows "isBroadcast net n w \<longleftrightarrow> unat w = unat net + 2 ^ (32 - n) - 1"
proof -
  let ?k = "32 - n"
  have "unat (take_bit ?k net) = take_bit ?k (unat net)" by (rule unsigned_take_bit_eq)
  also have "\<dots> = 0" using assms(3) by (simp only: take_bit_eq_mod)
  finally have "unat (take_bit ?k net) = 0" .
  then have "take_bit ?k net = 0" by (simp only: word_unat_eq_iff unsigned_0)
  then have "bit net i \<Longrightarrow> \<not> i < ?k" for i
    by (metis bit_0_eq bit_take_bit_iff bot_apply bot_bool_def)
  then have "net + mask ?k = net OR mask ?k"
    by (intro disjunctive_add_eq_or bit_word_eqI) (auto simp: bit_simps)
  moreover have "unat (net + mask ?k) = unat net + (2 ^ ?k - 1)"
  proof -
    have d: "unat net = unat net div 2 ^ ?k * 2 ^ ?k"
      using assms(3) div_mult_mod_eq [of "unat net" "2 ^ ?k"] by simp
    have "unat net < 2 ^ 32" using unsigned_less [of net, where 'a = nat] by simp
    moreover have "2 ^ 32 = 2 ^ n * (2 :: nat) ^ ?k" using assms(2) by (simp only: power_add [symmetric]) simp
    ultimately have "unat net div 2 ^ ?k < 2 ^ n" by (metis less_mult_imp_div_less)
    then have "(unat net div 2 ^ ?k + 1) * 2 ^ ?k \<le> 2 ^ n * 2 ^ ?k" by (intro mult_right_mono) auto
    then have "unat net + 2 ^ ?k \<le> 2 ^ 32"
      using d \<open>2 ^ 32 = 2 ^ n * 2 ^ ?k\<close> by (simp add: algebra_simps)
    moreover have "0 < (2 :: nat) ^ ?k" by simp
    ultimately have "unat net + (2 ^ ?k - 1) < 2 ^ 32" by linarith
    then show ?thesis
      using assms(1) by (simp add: unat_word_ariths unat_mask_word)
  qed
  moreover have "0 < (2 :: nat) ^ ?k" by simp
  ultimately show ?thesis
    unfolding isBroadcast_def cidr_mask_def by (metis Nat.add_diff_assoc One_nat_def Suc_leI bit.double_compl word_unat_eq_iff)
qed

lemma unat_less32: "unat (w :: u32) < 4294967296"
proof -
  have "unat w < 2 ^ LENGTH(32)" by (rule unsigned_less)
  also have "\<dots> = (4294967296 :: nat)" by simp
  finally show ?thesis .
qed

lemma block_room:
  fixes net :: u32
  assumes "n \<le> 32" "unat net mod 2 ^ (32 - n) = 0"
  shows "unat net + 2 ^ (32 - n) \<le> 4294967296"
proof -
  let ?p = "2 ^ (32 - n) :: nat"
  have net: "unat net < 4294967296" by (rule unat_less32)
  have p: "4294967296 = 2 ^ n * ?p" using assms(1) by (simp only: power_add [symmetric]) simp
  have "unat net div ?p < 2 ^ n" using net p by (intro less_mult_imp_div_less) simp
  then have "(unat net div ?p + 1) * ?p \<le> 2 ^ n * ?p" by (intro mult_right_mono) auto
  then show ?thesis
    using p assms(2) div_mult_mod_eq [of "unat net" ?p] by (simp add: algebra_simps)
qed

lemma upt_from_end:
  assumes "Suc m \<le> P"
  shows "[max (N + 1) (N + P - Suc m) ..< N + P - 1] =
    (if Suc m = P \<or> m = 0 then [max (N + 1) (N + P - m) ..< N + P - 1]
     else (N + P - Suc m) # [max (N + 1) (N + P - m) ..< N + P - 1])"
proof (cases "Suc m = P \<or> m = 0")
  case False
  then have "max (N + 1) (N + P - Suc m) = N + P - Suc m" "max (N + 1) (N + P - m) = Suc (N + P - Suc m)"
    "N + P - Suc m < N + P - 1" using assms by auto
  then show ?thesis using False by (simp only: upt_conv_Cons) simp
qed (use assms in auto)

lemma same_block:
  assumes "Suc m \<le> P" "N mod P = (0 :: nat)"
  shows "(N + P - Suc m) div P = N div P"
proof -
  have "N + P - Suc m = (P - Suc m) + N" using assms(1) by simp
  moreover have "(P - Suc m) div P = 0" "(P - Suc m) mod P + N mod P < P" using assms by auto
  ultimately show ?thesis by (simp add: div_add1_eq assms(2))
qed

lemma expand_from_suffix:
  assumes n: "0 < n" "n \<le> 32" and net: "unat net mod 2 ^ (32 - n) = 0" and m: "m \<le> 2 ^ (32 - n)"
  shows "expand_from net n (word_of_nat (unat net + 2 ^ (32 - n) - m)) =
    Some (map word_of_nat [max (unat net + 1) (unat net + 2 ^ (32 - n) - m) ..< unat net + 2 ^ (32 - n) - 1])"
  using m
proof (induction m)
  case 0
  let ?p = "2 ^ (32 - n) :: nat"
  have room: "unat net + ?p \<le> 4294967296" using block_room [OF n(2) net] .
  have div: "(unat net + ?p) div ?p = unat net div ?p + 1" by (rule div_add_self2) simp
  have "\<not> net_contains net n (word_of_nat (unat net + ?p))"
  proof (cases "unat net + ?p = 4294967296")
    case True
    then have "(word_of_nat (unat net + ?p) :: u32) = 0" by (simp add: word_of_nat_eq_0_iff)
    moreover have "?p \<le> 2 ^ 31" using n(1) by (intro power_increasing) auto
    then have "0 < unat net div ?p"
      using True by (simp add: div_greater_zero_iff)
    ultimately show ?thesis using n(2) by (simp add: net_contains_iff)
  next
    case False
    then have "unat (word_of_nat (unat net + ?p) :: u32) = unat net + ?p"
      using room by (intro unat_small) simp
    then show ?thesis using n(2) div by (simp add: net_contains_iff)
  qed
  then show ?case by (subst expand_from.simps) simp
next
  case (Suc m)
  let ?p = "2 ^ (32 - n) :: nat"
  let ?v = "unat net + ?p - Suc m"
  have room: "unat net + ?p \<le> 4294967296" using block_room [OF n(2) net] .
  have v: "unat (word_of_nat ?v :: u32) = ?v" using room Suc.prems by (intro unat_small) linarith
  have "?v div ?p = unat net div ?p"
    using Suc.prems net by (rule same_block)
  define V V' where "V = (word_of_nat ?v :: u32)" and "V' = (word_of_nat (unat net + ?p - m) :: u32)"
  have "net_contains net n V"
    using \<open>?v div ?p = unat net div ?p\<close> n(2) v by (simp add: net_contains_iff V_def)
  moreover have "inc_ip V = V'"
  proof -
    have "unat net + ?p - m = Suc ?v" using Suc.prems by simp
    then show ?thesis by (simp add: V_def V'_def)
  qed
  moreover have "(V = net) = (Suc m = ?p)"
    unfolding word_unat_eq_iff V_def v using Suc.prems by auto
  moreover have "isBroadcast net n V = (m = 0)"
    using broadcast_val [OF n net, of V] v Suc.prems by (auto simp: V_def)
  moreover have "expand_from net n V' =
      Some (map word_of_nat [max (unat net + 1) (unat net + ?p - m) ..< unat net + ?p - 1])"
    unfolding V'_def using Suc.IH Suc.prems by simp
  ultimately have "expand_from net n V = Some (map word_of_nat [max (unat net + 1) ?v ..< unat net + ?p - 1])"
    unfolding upt_from_end [OF Suc.prems]
    by (subst expand_from.simps) (simp only: not_True_eq_False if_False if_True bind.simps V_def list.map split: if_split, simp)
  then show ?case by (simp only: V_def)
qed

lemma expand_all_never: "expand_from net 0 w = None"
proof (rule ccontr)
  assume "expand_from net 0 w \<noteq> None"
  then obtain ws where "expand_from net 0 w = Some ws" by auto
  then have "0 \<noteq> (0 :: nat)"
  proof (rule expand_from.raw_induct [where P = "\<lambda>_ n _ _. n \<noteq> 0", rotated])
    fix expand net n w ws
    assume ih: "\<And>net n w ws. expand net n w = Some ws \<Longrightarrow> n \<noteq> 0"
      and step: "(if \<not> net_contains net n w then Some []
        else Option.bind (expand net n (inc_ip w))
          (\<lambda>rest. Some (if w = net \<or> isBroadcast net n w then rest else w # rest))) = Some ws"
    have "NOT (mask 32) = (0 :: u32)" by (intro bit_word_eqI) (simp add: bit_simps)
    then have "net_contains net 0 w" by (simp add: net_contains_def cidr_mask_def)
    then show "n \<noteq> 0" using step ih by (cases "n = 0") (auto split: bind_splits)
  qed
  then show False by simp
qed

lemma ParseCIDR_string:
  assumes "n \<le> 32"
  shows "ParseCIDR (ip_net_string w n) = Some (w, n)"
proof -
  have "CHR ''/'' \<notin> set (ip4_string w)"
    using ip4_string_chars [of "CHR ''/''" w] by (auto simp: is_digit_iff)
  then have "cut_at CHR ''/'' (ip_net_string w n) = Some (ip4_string w, itoa_nat n)"
    by (simp add: ip_net_string_def)
  then show ?thesis
    using assms by (simp add: ParseCIDR_def parse_ip4_string dtoi_def itoa_nat_digits)
qed

lemma ExpandCIDR_string:
  fixes w :: u32
  assumes "0 < n" "n \<le> 32"
  defines "first \<equiv> unat w div 2 ^ (32 - n) * 2 ^ (32 - n)"
  shows "ExpandCIDR (ip_net_string w n) = Some (Some (map word_of_nat [first + 1 ..< first + 2 ^ (32 - n) - 1]))"
proof -
  define net where "net = w AND cidr_mask n"
  have v: "unat net = first"
    using assms(2) unfolding first_def by (simp only: net_def masked_val)
  have "expand_from net n (word_of_nat (unat net + 2 ^ (32 - n) - 2 ^ (32 - n))) =
      Some (map word_of_nat [max (unat net + 1) (unat net + 2 ^ (32 - n) - 2 ^ (32 - n)) ..<
        unat net + 2 ^ (32 - n) - 1])"
    by (rule expand_from_suffix) (use assms(1,2) v first_def in auto)
  moreover have "(word_of_nat (unat net) :: u32) = net" by simp
  ultimately have "expand_from net n net = Some (map word_of_nat [unat net + 1 ..< unat net + 2 ^ (32 - n) - 1])"
    by (simp only: add_diff_cancel_right' max_absorb1 le_add1)
  then show ?thesis
    using assms(2) by (simp add: ExpandCIDR_def ParseCIDR_string net_def [symmetric] v [symmetric] Let_def)
qed

lemma ExpandCIDR_small: "ExpandCIDR (ip_net_string 0xC0A80109 30) = Some (Some [0xC0A80109, 0xC0A8010A])"
  by (simp add: ExpandCIDR_string upt_conv_Cons)

text \<open>C19. What a scan of the kiosk's subnet covers: every address of the block but
  the first and the last, each once and in order, for every prefix length from 1
  to 32, so none at all for a /31 or a /32. For a /0 block the loop never ends: its
  condition holds of every address, and the counter wraps around.\<close>

theorem block_expanded:
  assumes "n \<le> 32"
  shows "ExpandCIDR (ip_net_string w n) =
    (if n = 0 then None
     else let first = unat w div 2 ^ (32 - n) * 2 ^ (32 - n)
          in Some (Some (map word_of_nat [first + 1 ..< first + 2 ^ (32 - n) - 1])))"
  using assms by (simp add: ExpandCIDR_string Let_def) (simp add: ExpandCIDR_def ParseCIDR_string expand_all_never)

theorem block_expanded_witness:
  "ExpandCIDR (ip_net_string 0xC0A80109 30) = Some (Some [0xC0A80109, 0xC0A8010A])"
  using block_expanded [of 30 "0xC0A80109"] by (simp add: Let_def upt_conv_Cons)

text \<open>The block the kiosk detects for itself is one it can expand, and a lease is
  taken over a link-local address.\<close>

lemma detect_from_block:
  "detect_from as ll = c \<Longrightarrow> c \<noteq> ll \<Longrightarrow>
   \<exists>w n. IPNet (IP4 w) n \<in> set as \<and> \<not> loopback4 w \<and> c = ip_net_string (w AND cidr_mask n) n"
  by (induction as ll rule: detect_from.induct) (auto simp: Let_def split: if_splits)

lemma detect_lease_first:
  "IPNet (IP4 w) n \<in> set as \<Longrightarrow> \<not> loopback4 w \<Longrightarrow> \<not> link_local4 w \<Longrightarrow>
   \<exists>v m. IPNet (IP4 v) m \<in> set as \<and> \<not> link_local4 v \<and> detect_from as ll = ip_net_string (v AND cidr_mask m) m"
proof (induction as ll rule: detect_from.induct)
  case (2 v m as ll)
  then show ?case
  proof (cases "loopback4 v \<or> link_local4 v")
    case True
    with 2 have "IPNet (IP4 w) n \<in> set as" by auto
    then show ?thesis using True 2 by (cases "loopback4 v") (simp_all add: Let_def, metis+)
  qed (auto simp: Let_def)
qed auto

end
