(* ===== verification/Scanner.thy ===== *)
theory Scanner
  imports Hosts Cidr "HOL-Library.Multiset"
begin

text \<open>
  \<open>internal/scanner\<close>: the scan for RDP servers, and the name it asks a
  server for. The scan is a step function: its own loop, which starts a probe
  whenever one of its slots is free, the probes that end, in any order, and the
  cancellation, which can come at any moment. What an address answers is an
  argument. The channel to the list is the events sent on it.
\<close>

section \<open>A server's name\<close>

definition certName :: "string \<Rightarrow> string" where
  "certName cn0 =
     (let cn = trim_space cn0
      in if cn = [] \<or> ParseIP cn \<noteq> None then []
         else let name = takeWhile (\<lambda>c. c \<noteq> CHR ''.'') cn
              in if name = [] \<or> to_lower name = ''localhost'' \<or> to_lower name = ''www'' \<or>
                    list_ex (\<lambda>c. c \<in> {CHR '' '', CHR ''*''}) name then []
                 else name)"

definition x224Request :: bytes where
  "x224Request = [0x03, 0x00, 0x00, 0x13, 0x0e, 0xe0, 0x00, 0x00, 0x00, 0x00, 0x00,
     0x01, 0x00, 0x08, 0x00, 0x03, 0x00, 0x00, 0x00]"

definition tls_offered :: "bytes \<Rightarrow> bool" where
  \<comment> \<open>whether the server's answer to the request is one that goes on with TLS\<close>
  "tls_offered stream =
     (case rd_full 4 stream of None \<Rightarrow> False
      | Some (tpkt, r) \<Rightarrow>
        let n = 256 * unat (tpkt ! 2) + unat (tpkt ! 3)
        in tpkt ! 0 = 0x03 \<and> 4 + 7 + 8 \<le> n \<and> n \<le> 64 \<and>
           (case rd_full (n - 4) r of None \<Rightarrow> False
            | Some (resp, _) \<Rightarrow>
              resp ! 1 AND 0xf0 = 0xd0 \<and> resp ! 7 = 0x02 \<and>
              join32 (resp ! 11) (resp ! 12) (resp ! 13) (resp ! 14) AND 0x0b \<noteq> 0))"

definition rdpName :: "bool \<Rightarrow> bytes \<Rightarrow> string list option \<Rightarrow> string" where
  \<comment> \<open>whether the request could be sent, what the server sends back, and the common names
    of its certificates (\<open>None\<close>: the handshake fails)\<close>
  "rdpName sent stream certs =
     (if \<not> sent \<or> \<not> tls_offered stream then []
      else case certs of None \<Rightarrow> [] | Some [] \<Rightarrow> [] | Some (cn # _) \<Rightarrow> certName cn)"

definition reverseLookup :: "string list option \<Rightarrow> string" where
  "reverseLookup names =
     (case names of None \<Rightarrow> [] | Some [] \<Rightarrow> []
      | Some (n # _) \<Rightarrow> if n \<noteq> [] \<and> last n = CHR ''.'' then butlast n else n)"

definition dialLatencyMs :: "int \<Rightarrow> int" where
  \<comment> \<open>from nanoseconds\<close>
  "dialLatencyMs d = (let ms = go_div (go_div d 1000 + 999) 1000 in if ms > 0 then ms else 1)"

section \<open>The scan\<close>

record probe =
  dial_ns :: int                     \<comment> \<open>how long the handshake took\<close>
  ptr_names :: "string list option"  \<comment> \<open>what the resolver says\<close>
  cert_name :: string                \<comment> \<open>what \<open>rdpName\<close> says\<close>
  probed_at :: int

datatype loop_at = LoopTop | Acquire | LoopDone

record scan_state =
  concurrency :: nat
  scan_port :: int
  scan_total :: nat
  todo :: "u32 list"
  loop :: loop_at
  probing :: "u32 list"
  scanned :: nat
  scan_hosts :: "(string \<times> host) list"
  sent_events :: "scan_event list"
  cancelled :: bool
  finished :: bool

definition event :: "scan_event_type \<Rightarrow> host option \<Rightarrow> nat \<Rightarrow> nat \<Rightarrow> scan_event" where
  "event t h s n = \<lparr>ev_type = t, ev_host = h, Scanned = int s, Total = int n\<rparr>"

definition expand_all :: "string list \<Rightarrow> u32 list option" where
  \<comment> \<open>a block that is none is skipped; one whose expansion never ends hangs the scan\<close>
  "expand_all cidrs =
     fold (\<lambda>c acc. case acc of None \<Rightarrow> None
             | Some ips \<Rightarrow> (case ExpandCIDR c of None \<Rightarrow> None
                 | Some None \<Rightarrow> Some ips | Some (Some e) \<Rightarrow> Some (ips @ e))) cidrs (Some [])"

definition scan_start :: "nat \<Rightarrow> (string \<times> host) list \<Rightarrow> string list \<Rightarrow> int \<Rightarrow> scan_state option" where
  \<comment> \<open>\<open>Start\<close>, up to the loop of its goroutine; the hosts of earlier scans stay in the map\<close>
  "scan_start conc before cidrs port =
     map_option (\<lambda>ips. \<lparr>concurrency = conc, scan_port = (if port = DefaultRDPPort then 0 else port),
         scan_total = length ips, todo = ips, loop = (if ips = [] then LoopDone else LoopTop), probing = [],
         scanned = 0, scan_hosts = before, sent_events = [], cancelled = False, finished = False\<rparr>)
       (expand_all cidrs)"

datatype scan_move =
    Look            \<comment> \<open>the loop looks for the cancellation, before each address\<close>
  | Launch          \<comment> \<open>a slot is free: a probe starts\<close>
  | GiveUp          \<comment> \<open>cancelled while waiting for a slot\<close>
  | Answer u32 bool bool
      \<comment> \<open>a probe ends; whether its host and its progress are sent, where that is a choice\<close>
  | Cancel
  | Wind            \<comment> \<open>all probes over: the last event\<close>

definition found_host :: "scan_state \<Rightarrow> u32 \<Rightarrow> probe \<Rightarrow> host" where
  "found_host s w p =
     (let name = reverseLookup (ptr_names p)
      in \<lparr>IP = IP4 w, Hostname = (if name = [] then cert_name p else name), Port = scan_port s,
          LatencyMs = dialLatencyMs (dial_ns p), DiscoveredAt = probed_at p\<rparr>)"

definition probe_ends :: "(u32 \<Rightarrow> probe option) \<Rightarrow> u32 \<Rightarrow> bool \<Rightarrow> bool \<Rightarrow> scan_state \<Rightarrow> scan_state" where
  "probe_ends net w took progress s =
     (let s1 = (case net w of None \<Rightarrow> s
          | Some p \<Rightarrow>
            let h = found_host s w p
            in s\<lparr>scan_hosts := AList.update (ip4_string w) h (scan_hosts s),
                 sent_events := sent_events s @
                   (if took \<or> \<not> cancelled s then [event EventHostFound (Some h) 0 0] else [])\<rparr>);
          current = Suc (scanned s1);
          s2 = s1\<lparr>scanned := current, probing := remove1 w (probing s1)\<rparr>
      in if current mod 10 = 0 \<and> progress
         then s2\<lparr>sent_events := sent_events s2 @ [event EventScanProgress None current (scan_total s2)]\<rparr>
         else s2)"

fun scan_step :: "(u32 \<Rightarrow> probe option) \<Rightarrow> scan_move \<Rightarrow> scan_state \<Rightarrow> scan_state option" where
  "scan_step net Look s =
     (if loop s = LoopTop then
        Some (s\<lparr>loop := (if todo s = [] \<or> cancelled s then LoopDone else Acquire)\<rparr>) else None)"
| "scan_step net Launch s =
     (if loop s = Acquire \<and> length (probing s) < concurrency s then
        Some (s\<lparr>loop := LoopTop, probing := probing s @ [hd (todo s)], todo := tl (todo s)\<rparr>) else None)"
| "scan_step net GiveUp s =
     (if loop s = Acquire \<and> cancelled s then Some (s\<lparr>loop := LoopDone\<rparr>) else None)"
| "scan_step net (Answer w took progress) s =
     (if w \<in> set (probing s) then Some (probe_ends net w took progress s) else None)"
| "scan_step net Cancel s = Some (s\<lparr>cancelled := True\<rparr>)"
| "scan_step net Wind s =
     (if loop s = LoopDone \<and> probing s = [] \<and> \<not> finished s then
        Some (s\<lparr>finished := True, sent_events := sent_events s @
          [event EventScanComplete None (scan_total s) (scan_total s)]\<rparr>) else None)"

fun scan_run :: "(u32 \<Rightarrow> probe option) \<Rightarrow> scan_move list \<Rightarrow> scan_state \<Rightarrow> scan_state option" where
  "scan_run net [] s = Some s"
| "scan_run net (m # ms) s = (case scan_step net m s of None \<Rightarrow> None | Some s' \<Rightarrow> scan_run net ms s')"

definition Hosts_snapshot :: "scan_state \<Rightarrow> host list" where
  "Hosts_snapshot s = map snd (scan_hosts s)"

section \<open>What a scan reports\<close>

definition reported :: "scan_state \<Rightarrow> host list" where
  "reported s = List.map_filter ev_host (sent_events s)"

definition answering :: "(u32 \<Rightarrow> probe option) \<Rightarrow> u32 list \<Rightarrow> ip multiset" where
  "answering net ws = mset (map IP4 (filter (\<lambda>w. net w \<noteq> None) ws))"

lemma answering_simps [simp]:
  "answering net [] = {#}"
  "answering net (w # ws) = (if net w = None then {#} else {#IP4 w#}) + answering net ws"
  "answering net (ws @ vs) = answering net ws + answering net vs"
  by (auto simp: answering_def)

lemma answering_remove1:
  "w \<in> set ws \<Longrightarrow> answering net ws = (if net w = None then {#} else {#IP4 w#}) + answering net (remove1 w ws)"
  by (induction ws) auto

lemma map_filter_append: "List.map_filter f (xs @ ys) = List.map_filter f xs @ List.map_filter f ys"
  by (simp add: List.map_filter_def)

definition scan_ok :: "(u32 \<Rightarrow> probe option) \<Rightarrow> u32 list \<Rightarrow> scan_state \<Rightarrow> bool" where
  "scan_ok net ips s \<longleftrightarrow>
     length (probing s) \<le> concurrency s \<and>
     scanned s + length (todo s) + length (probing s) = scan_total s \<and> scan_total s = length ips \<and>
     list_all (\<lambda>h. Port h = scan_port s) (reported s) \<and>
     (loop s = Acquire \<longrightarrow> todo s \<noteq> []) \<and>
     (finished s \<longrightarrow> loop s = LoopDone \<and> probing s = []) \<and>
     (\<not> cancelled s \<longrightarrow> (loop s = LoopDone \<longrightarrow> todo s = []) \<and>
        mset (map IP (reported s)) + answering net (todo s @ probing s) = answering net ips)"

lemma probe_ends_fields [simp]:
  "todo (probe_ends net w a b s) = todo s" "concurrency (probe_ends net w a b s) = concurrency s"
  "scanned (probe_ends net w a b s) = Suc (scanned s)" "scan_total (probe_ends net w a b s) = scan_total s"
  "probing (probe_ends net w a b s) = remove1 w (probing s)" "loop (probe_ends net w a b s) = loop s"
  "cancelled (probe_ends net w a b s) = cancelled s" "finished (probe_ends net w a b s) = finished s"
  "scan_port (probe_ends net w a b s) = scan_port s"
  by (simp_all add: probe_ends_def Let_def split: option.split)

lemma reported_probe_ends:
  "reported (probe_ends net w took progress s) = reported s @
     (case net w of None \<Rightarrow> [] | Some p \<Rightarrow> if took \<or> \<not> cancelled s then [found_host s w p] else [])"
  by (auto simp: probe_ends_def reported_def Let_def event_def List.map_filter_def split: option.split)

lemma found_host_fields [simp]: "IP (found_host s w p) = IP4 w" "Port (found_host s w p) = scan_port s"
  by (simp_all add: found_host_def Let_def)

lemma reported_frame [simp]:
  "reported (s\<lparr>loop := l\<rparr>) = reported s" "reported (s\<lparr>cancelled := c\<rparr>) = reported s"
  "reported (s\<lparr>loop := l, probing := ps, todo := ws\<rparr>) = reported s"
  "reported (s\<lparr>finished := True, sent_events := sent_events s @ [event t None a b]\<rparr>) = reported s"
  by (simp_all add: reported_def map_filter_append) (simp add: List.map_filter_def event_def)

lemma scan_step_ok:
  assumes "scan_ok net ips s" "scan_step net m s = Some s'"
  shows "scan_ok net ips s'"
proof (cases m)
  case (Answer w took progress)
  with assms(2) have w: "w \<in> set (probing s)" and s': "s' = probe_ends net w took progress s"
    by (auto split: if_splits)
  have "Suc (length (remove1 w (probing s))) = length (probing s)"
    using w by (simp add: length_remove1) (metis Suc_pred length_pos_if_in_set)
  then show ?thesis
    using assms(1) answering_remove1 [OF w, of net] w
    by (auto simp: scan_ok_def s' reported_probe_ends split: option.split)
next
  case Launch
  then show ?thesis
    using assms by (cases "todo s") (auto simp: scan_ok_def ac_simps split: if_splits)
qed (use assms in \<open>auto simp: scan_ok_def split: if_splits\<close>)

lemma scan_run_ok: "scan_ok net ips s \<Longrightarrow> scan_run net ms s = Some s' \<Longrightarrow> scan_ok net ips s'"
  by (induction ms arbitrary: s) (auto dest: scan_step_ok split: option.splits)

lemma scan_start_ok: "scan_start conc before cidrs port = Some s \<Longrightarrow> scan_ok net (todo s) s"
  by (auto simp: scan_start_def scan_ok_def reported_def List.map_filter_def split: if_splits)

lemma scan_step_frame:
  assumes "scan_step net m s = Some s'"
  shows "concurrency s' = concurrency s \<and> scan_port s' = scan_port s \<and> scan_total s' = scan_total s \<and>
    (m \<noteq> Cancel \<longrightarrow> cancelled s' = cancelled s) \<and>
    (finished s' \<longrightarrow> finished s \<or> (\<exists>es. sent_events s' = es @ [event EventScanComplete None (scan_total s) (scan_total s)]))"
  using assms by (cases m) (auto split: if_splits)

lemma scan_run_frame:
  assumes "scan_run net ms s = Some s'" "Cancel \<notin> set ms"
  shows "concurrency s' = concurrency s \<and> scan_port s' = scan_port s \<and> cancelled s' = cancelled s"
  using assms by (induction ms arbitrary: s) (auto split: option.splits dest!: scan_step_frame)

text \<open>C20. A scan that is not cancelled reports the servers of its subnet, all of
  them and each once: in whatever order the probes end and whichever progress
  reports are dropped, when the last event is sent the hosts reported are exactly
  the addresses that answered, each with the scan's port; and at no time are more
  probes under way than the scanner was made for.\<close>

theorem scan_reports_servers:
  assumes "scan_start conc before cidrs port = Some s0" "scan_run net ms s0 = Some s" "Cancel \<notin> set ms"
  shows "length (probing s) \<le> conc \<and> list_all (\<lambda>h. Port h = scan_port s0) (reported s) \<and>
    (finished s \<longrightarrow> mset (map IP (reported s)) = answering net (todo s0) \<and> scanned s = length (todo s0))"
proof -
  have ok: "scan_ok net (todo s0) s"
    using scan_run_ok [OF scan_start_ok [OF assms(1)] assms(2)] .
  have fr: "concurrency s = conc" "scan_port s = scan_port s0" "\<not> cancelled s"
    using scan_run_frame [OF assms(2,3)] assms(1) by (auto simp: scan_start_def)
  show ?thesis
    using ok fr by (auto simp: scan_ok_def)
qed

definition one_server :: "u32 \<Rightarrow> probe option" where
  \<comment> \<open>for the examples: a subnet where only .9 answers\<close>
  "one_server w = (if w = 0xC0A80109
     then Some \<lparr>dial_ns = 400000, ptr_names = Some [''pc.''], cert_name = [], probed_at = 7\<rparr> else None)"

definition small_scan :: scan_state where
  "small_scan = \<lparr>concurrency = 2, scan_port = 0, scan_total = 2, todo = [0xC0A80109, 0xC0A8010A],
     loop = LoopTop, probing = [], scanned = 0, scan_hosts = [], sent_events = [],
     cancelled = False, finished = False\<rparr>"

definition small_run :: "scan_move list" where
  "small_run = [Look, Launch, Look, Launch, Answer 0xC0A8010A True True, Look, Answer 0xC0A80109 True True, Wind]"

lemma small_scan_start: "scan_start 2 [] [ip_net_string 0xC0A80109 30] 3389 = Some small_scan"
proof -
  have "expand_all [ip_net_string 0xC0A80109 30] = Some [0xC0A80109, 0xC0A8010A]"
    by (simp add: expand_all_def ExpandCIDR_small)
  then show ?thesis by (simp add: scan_start_def small_scan_def DefaultRDPPort_def)
qed

lemma small_scan_run:
  "\<exists>s. scan_run one_server small_run small_scan = Some s \<and> finished s \<and> Cancel \<notin> set small_run \<and>
     map DisplayName (reported s) = [''pc'']"
  by (simp add: small_run_def small_scan_def probe_ends_def one_server_def event_def reported_def
      List.map_filter_def found_host_def reverseLookup_def DisplayName_def Let_def)

theorem scan_reports_servers_witness:
  "\<exists>s. scan_run one_server small_run small_scan = Some s \<and> mset (map IP (reported s)) = {#IP4 0xC0A80109#}"
proof -
  obtain s where s: "scan_run one_server small_run small_scan = Some s" "finished s" "Cancel \<notin> set small_run"
    using small_scan_run by blast
  show ?thesis
    using scan_reports_servers [OF small_scan_start s(1,3)] s
    by (auto simp: small_scan_def one_server_def)
qed

definition scan_left :: "scan_state \<Rightarrow> nat" where
  \<comment> \<open>how many moves a scan has left\<close>
  "scan_left s = 3 * length (todo s) + length (probing s) + (case loop s of LoopTop \<Rightarrow> 2 | Acquire \<Rightarrow> 1 | LoopDone \<Rightarrow> 0) +
     (if finished s then 0 else 1)"

lemma scan_step_left:
  assumes "scan_step net m s = Some s'" "m \<noteq> Cancel" "scan_ok net ips s"
  shows "scan_left s' < scan_left s"
proof (cases m)
  case (Answer w took progress)
  then have "w \<in> set (probing s)" using assms(1) by (auto split: if_splits)
  then have "length (remove1 w (probing s)) < length (probing s)"
    by (metis length_pos_if_in_set length_remove1 diff_less zero_less_one)
  then show ?thesis using Answer assms(1) by (auto simp: scan_left_def split: if_splits)
next
  case Launch
  then show ?thesis using assms(1,3) by (cases "todo s") (auto simp: scan_left_def scan_ok_def split: if_splits)
qed (use assms in \<open>auto simp: scan_left_def split: if_splits\<close>)



end
