(* ===== verification/Settings.thy ===== *)
theory Settings
  imports GoStrings BootEnv
begin

text \<open>
  Where settings are kept (\<open>netconf.Save\<close> and \<open>autoconnect.Save\<close>, which
  are the same but for the path and for removing): the copy in effect under
  \<open>/run\<close>, and the copy for the next boot, on the data partition of an installed
  kiosk or on the stick a live one runs from. \<open>/init\<close> copies the latter to the
  former at boot. Also base64, in which a password is kept.
\<close>

section \<open>The two copies\<close>

record settings =
  in_effect :: "string option"      \<comment> \<open>\<open>RunPath\<close>\<close>
  on_data :: "string option"        \<comment> \<open>\<open>dataPath\<close>\<close>
  on_stick :: "string option"       \<comment> \<open>\<open>efiName\<close> on the stick\<close>

record settings_io =
  run_io :: env_io                  \<comment> \<open>replacing or removing the copy in effect\<close>
  keep_io :: env_io                 \<comment> \<open>the same for the other copy\<close>
  stick :: bool                     \<comment> \<open>\<open>LiveDevice\<close> finds a stick\<close>
  stick_mounts :: bool              \<comment> \<open>it can be mounted\<close>
  stick_unmounts :: bool

definition remove_file :: "env_io \<Rightarrow> string option \<Rightarrow> string option \<times> bool" where
  \<comment> \<open>\<open>remove\<close>: a file that is not there is no error\<close>
  "remove_file io old = (if old = None \<or> io_open io then (None, True) else (old, False))"

definition put_file :: "env_io \<Rightarrow> string option \<Rightarrow> string option \<Rightarrow> string option \<times> bool" where
  \<comment> \<open>what \<open>Save\<close> does with either copy: \<open>None\<close> is removing; \<open>True\<close>: no error\<close>
  "put_file io new old =
     (case new of None \<Rightarrow> remove_file io old
      | Some text \<Rightarrow> let (f, e) = replaceFile io text old in (f, e = None))"

definition save_setting ::
  "settings_io \<Rightarrow> bool \<Rightarrow> string option \<Rightarrow> settings \<Rightarrow> settings \<times> bool \<times> bool" where
  \<comment> \<open>the result says whether it persists and whether there was no error\<close>
  "save_setting io installed new s =
     (let (r, ok) = put_file (run_io io) new (in_effect s)
      in if \<not> ok then (s\<lparr>in_effect := r\<rparr>, False, False)
         else
           let s1 = s\<lparr>in_effect := r\<rparr>
           in if installed then
                let (f, kept) = put_file (keep_io io) new (on_data s1)
                in (s1\<lparr>on_data := f\<rparr>, kept, True)
              else if \<not> stick io \<or> \<not> stick_mounts io then (s1, False, True)
              else
                let (f, kept) = put_file (keep_io io) new (on_stick s1)
                in (s1\<lparr>on_stick := f\<rparr>, kept \<and> stick_unmounts io, True))"

definition reboot :: "bool \<Rightarrow> settings \<Rightarrow> settings" where
  \<comment> \<open>what \<open>/init\<close> does\<close>
  "reboot installed s = s\<lparr>in_effect := (if installed then on_data s else on_stick s)\<rparr>"

lemma put_file_ok: "put_file io new old = (f, True) \<Longrightarrow> f = new"
  by (auto simp: put_file_def remove_file_def replaceFile_def split: option.splits if_splits)

lemma put_file_whole: "put_file io new old = (f, ok) \<Longrightarrow> f = new \<or> f = old"
  by (auto simp: put_file_def remove_file_def replaceFile_def split: option.splits if_splits)

lemma saved_setting_boots:
  assumes "save_setting io installed new s = (s', True, ok)"
  shows "in_effect s' = new \<and> in_effect (reboot installed s') = new"
  using assms
  by (auto simp: save_setting_def reboot_def Let_def dest: put_file_ok split: prod.splits if_splits)

lemma setting_never_torn:
  assumes "save_setting io installed new s = (s', persisted, ok)"
  shows "in_effect s' \<in> {new, in_effect s} \<and>
    in_effect (reboot installed s') \<in> {new, in_effect (reboot installed s)}"
  using assms
  by (auto simp: save_setting_def reboot_def Let_def dest: put_file_whole put_file_ok split: prod.splits if_splits)

section \<open>Lines\<close>

definition with_ends :: "string list \<Rightarrow> string" where
  "with_ends ls = concat (map (\<lambda>l. l @ [newline]) ls)"

lemma split_with_ends: "\<forall>l \<in> set ls. newline \<notin> set l \<Longrightarrow> split_on newline (with_ends ls) = ls @ [[]]"
  unfolding with_ends_def by (induction ls) auto

lemma scan_with_ends:
  assumes "\<forall>l \<in> set ls. newline \<notin> set l \<and> creturn \<notin> set l"
  shows "scan_lines (with_ends ls) = ls"
proof -
  have "map (\<lambda>l. if l \<noteq> [] \<and> last l = creturn then butlast l else l) ls = ls"
    using assms last_in_set by (intro map_idI) fastforce
  then show ?thesis
    using assms by (simp add: scan_lines_def split_with_ends Let_def)
qed

section \<open>Base64\<close>

definition b64_char :: "nat \<Rightarrow> char" where
  \<comment> \<open>\<open>A-Z\<close>, \<open>a-z\<close>, \<open>0-9\<close>, \<open>+\<close>, \<open>/\<close>\<close>
  "b64_char n = char_of (if n < 26 then 65 + n else if n < 52 then 71 + n else if n < 62 then n - 4
     else if n = 62 then 43 else 47)"

definition b64_value :: "char \<Rightarrow> nat option" where
  "b64_value c =
     (let n = of_char c in
      if 65 \<le> n \<and> n \<le> 90 then Some (n - 65)
      else if 97 \<le> n \<and> n \<le> 122 then Some (n - 71)
      else if 48 \<le> n \<and> n \<le> 57 then Some (n + 4)
      else if n = 43 then Some 62 else if n = 47 then Some 63 else None)"

fun b64_encode :: "string \<Rightarrow> string" where
  "b64_encode [] = []"
| "b64_encode [x] =
     (let a = of_char x :: nat in [b64_char (a div 4), b64_char (a mod 4 * 16), CHR ''='', CHR ''=''])"
| "b64_encode [x, y] =
     (let a = of_char x :: nat; b = of_char y
      in [b64_char (a div 4), b64_char (a mod 4 * 16 + b div 16), b64_char (b mod 16 * 4), CHR ''=''])"
| "b64_encode (x # y # z # r) =
     (let a = of_char x :: nat; b = of_char y; c = of_char z
      in [b64_char (a div 4), b64_char (a mod 4 * 16 + b div 16), b64_char (b mod 16 * 4 + c div 64),
          b64_char (c mod 64)] @ b64_encode r)"

definition b64_bytes :: "nat \<Rightarrow> nat \<Rightarrow> nat \<Rightarrow> nat \<Rightarrow> string" where
  "b64_bytes p q r s = [char_of (p * 4 + q div 16), char_of (q mod 16 * 16 + r div 4), char_of (r mod 4 * 64 + s)]"

fun b64_quads :: "string \<Rightarrow> string option" where
  "b64_quads [] = Some []"
| "b64_quads (a # b # c # d # r) =
     (case (b64_value a, b64_value b) of
        (Some p, Some q) \<Rightarrow>
          if d = CHR ''='' then
            if r \<noteq> [] then None
            else if c = CHR ''='' then Some (take 1 (b64_bytes p q 0 0))
            else map_option (\<lambda>v. take 2 (b64_bytes p q v 0)) (b64_value c)
          else
            (case (b64_value c, b64_value d, b64_quads r) of
               (Some v, Some w, Some rest) \<Rightarrow> Some (b64_bytes p q v w @ rest)
             | _ \<Rightarrow> None)
      | _ \<Rightarrow> None)"
| "b64_quads _ = None"

definition b64_decode :: "string \<Rightarrow> string option" where
  \<comment> \<open>\<open>StdEncoding.DecodeString\<close>, which passes over line ends\<close>
  "b64_decode s = b64_quads (filter (\<lambda>c. c \<noteq> newline \<and> c \<noteq> creturn) s)"

lemma b64_char_props:
  assumes "n < 64"
  shows "b64_value (b64_char n) = Some n" "b64_char n \<noteq> CHR ''=''" "b64_char n \<noteq> newline" "b64_char n \<noteq> creturn"
proof -
  have v: "(of_char (b64_char n) :: nat) = (if n < 26 then 65 + n else if n < 52 then 71 + n
      else if n < 62 then n - 4 else if n = 62 then 43 else 47)"
    using assms by (simp add: b64_char_def)
  then show "b64_value (b64_char n) = Some n"
    using assms by (auto simp: b64_value_def Let_def)
  have "(of_char (b64_char n) :: nat) \<noteq> 61 \<and> (of_char (b64_char n) :: nat) \<noteq> 10 \<and> (of_char (b64_char n) :: nat) \<noteq> 13"
    using v assms by auto
  then show "b64_char n \<noteq> CHR ''=''" "b64_char n \<noteq> newline" "b64_char n \<noteq> creturn"
    by auto
qed

lemma b64_nat:
  fixes a b c :: nat
  assumes "a < 256" "b < 256" "c < 256"
  shows "a div 4 < 64" "a mod 4 * 16 < 64" "a mod 16 * 4 < 64" "c mod 64 < 64"
    "a mod 4 * 16 + b div 16 < 64" "b mod 16 * 4 + c div 64 < 64"
    "a div 4 * 4 + (a mod 4 * 16 + b div 16) div 16 = a" "a div 4 * 4 + a mod 4 * 16 div 16 = a"
    "(a mod 4 * 16 + b div 16) mod 16 * 16 + (b mod 16 * 4 + c div 64) div 4 = b"
    "(a mod 4 * 16 + b div 16) mod 16 * 16 + b mod 16 * 4 div 4 = b"
    "(b mod 16 * 4 + c div 64) mod 4 * 64 + c mod 64 = c"
proof -
  have q: "b div 16 < 16" "c div 64 < 4" "a div 4 < 64" using assms by (simp_all add: less_mult_imp_div_less)
  then show "a div 4 < 64" "a mod 4 * 16 < 64" "a mod 16 * 4 < 64" "c mod 64 < 64"
    "a mod 4 * 16 + b div 16 < 64" "b mod 16 * 4 + c div 64 < 64"
    by linarith+
  have "(a mod 4 * 16 + b div 16) div 16 = a mod 4" "(a mod 4 * 16 + b div 16) mod 16 = b div 16"
    "(b mod 16 * 4 + c div 64) div 4 = b mod 16" "(b mod 16 * 4 + c div 64) mod 4 = c div 64"
    using q by simp_all
  then show "a div 4 * 4 + (a mod 4 * 16 + b div 16) div 16 = a" "a div 4 * 4 + a mod 4 * 16 div 16 = a"
    "(a mod 4 * 16 + b div 16) mod 16 * 16 + (b mod 16 * 4 + c div 64) div 4 = b"
    "(a mod 4 * 16 + b div 16) mod 16 * 16 + b mod 16 * 4 div 4 = b"
    "(b mod 16 * 4 + c div 64) mod 4 * 64 + c mod 64 = c"
    by simp_all
qed

lemma b64_quads_encode: "b64_quads (b64_encode s) = Some s"
proof (induction s rule: b64_encode.induct)
  case (2 x)
  then show ?case using b64_nat [OF of_char_less_256 [of x] of_char_less_256 [of x] of_char_less_256 [of x]] by (simp add: Let_def b64_char_props b64_bytes_def del: div_mult_self3)
next
  case (3 x y)
  then show ?case using b64_nat [OF of_char_less_256 [of x] of_char_less_256 [of y] of_char_less_256 [of y]] by (simp only: b64_encode.simps Let_def b64_quads.simps b64_char_props option.case prod.case refl if_True not_True_eq_False
      if_False option.map b64_bytes_def take_Suc_Cons numeral_2_eq_2 take_0 char_of_char)
next
  case (4 x y z r)
  then show ?case using b64_nat [OF of_char_less_256 [of x] of_char_less_256 [of y] of_char_less_256 [of z]] by (simp only: b64_encode.simps Let_def append.simps b64_quads.simps b64_char_props option.case prod.case
      if_False b64_bytes_def char_of_char)
qed simp

lemma b64_encode_no_ends: "c \<in> set (b64_encode s) \<Longrightarrow> c \<noteq> newline \<and> c \<noteq> creturn"
proof (induction s rule: b64_encode.induct)
  case (2 x)
  then show ?case using b64_nat(1-2) [OF of_char_less_256 [of x] of_char_less_256 [of x] of_char_less_256 [of x]] by (auto simp: Let_def b64_char_props)
next
  case (3 x y)
  then show ?case using b64_nat(1-6) [OF of_char_less_256 [of x] of_char_less_256 [of y] of_char_less_256 [of y]] b64_nat(1-6) [OF of_char_less_256 [of y] of_char_less_256 [of y] of_char_less_256 [of y]] by (auto simp: Let_def b64_char_props)
next
  case (4 x y z r)
  then show ?case using b64_nat(1-6) [OF of_char_less_256 [of x] of_char_less_256 [of y] of_char_less_256 [of z]] by (auto simp: Let_def b64_char_props)
qed simp

lemma b64_round_trip: "b64_decode (b64_encode s) = Some s"
proof -
  have "filter (\<lambda>c. c \<noteq> newline \<and> c \<noteq> creturn) (b64_encode s) = b64_encode s"
    using b64_encode_no_ends by (intro filter_True) blast
  then show ?thesis by (simp only: b64_decode_def b64_quads_encode)
qed

end
