(* ===== verification/AutoConf.thy ===== *)
theory AutoConf
  imports Settings
begin

text \<open>
  \<open>internal/autoconnect\<close>: the server a kiosk goes to as it starts, the file it
  is kept in, and saving it.
\<close>

datatype auto_mode = Off | Dialog | Logon

fun next_mode :: "auto_mode \<Rightarrow> auto_mode" where
  "next_mode Off = Dialog"
| "next_mode Dialog = Logon"
| "next_mode Logon = Off"

record auto_config =
  Mode :: auto_mode
  Server :: string
  Username :: string
  Domain :: string
  Password :: string

definition no_auto :: auto_config where
  \<comment> \<open>the zero value\<close>
  "no_auto = \<lparr>Mode = Off, Server = [], Username = [], Domain = [], Password = []\<rparr>"

definition oneLine :: "string \<Rightarrow> string" where
  "oneLine s = filter (\<lambda>c. c \<noteq> newline \<and> c \<noteq> creturn) s"

definition auto_line :: "string \<Rightarrow> auto_config option \<Rightarrow> auto_config option" where
  \<comment> \<open>one round of \<open>Parse\<close>'s loop; \<open>None\<close>: it has returned no setting\<close>
  "auto_line line acc =
     (case acc of None \<Rightarrow> None
      | Some c \<Rightarrow>
        (case cut_at CHR ''='' (trim_right (\<lambda>x. x = creturn) line) of None \<Rightarrow> Some c
         | Some (k, v) \<Rightarrow>
           if k = ''mode'' then
             Some (if v = ''dialog'' then c\<lparr>Mode := Dialog\<rparr>
                   else if v = ''logon'' then c\<lparr>Mode := Logon\<rparr> else c)
           else if k = ''server'' then Some (c\<lparr>Server := trim_space v\<rparr>)
           else if k = ''username'' then Some (c\<lparr>Username := v\<rparr>)
           else if k = ''domain'' then Some (c\<lparr>Domain := v\<rparr>)
           else if k = ''password'' then map_option (\<lambda>p. c\<lparr>Password := p\<rparr>) (b64_decode v)
           else Some c))"

definition auto_parse :: "string \<Rightarrow> auto_config option" where
  "auto_parse b =
     (case fold auto_line (scan_lines b) (Some no_auto) of None \<Rightarrow> None
      | Some c \<Rightarrow>
        if Mode c = Off \<or> Server c = [] \<or> (Mode c = Logon \<and> Username c = []) then None
        else Some (if Mode c \<noteq> Logon then c\<lparr>Password := []\<rparr> else c))"

definition auto_encode :: "auto_config \<Rightarrow> string" where
  "auto_encode c =
     with_ends
       [''mode='' @ (if Mode c = Logon then ''logon'' else ''dialog''),
        ''server='' @ oneLine (Server c), ''username='' @ oneLine (Username c),
        ''domain='' @ oneLine (Domain c),
        ''password='' @ (if Mode c = Logon then b64_encode (Password c) else [])]"

definition auto_load :: "settings \<Rightarrow> auto_config option" where
  "auto_load s = (case in_effect s of None \<Rightarrow> None | Some b \<Rightarrow> auto_parse b)"

definition auto_save :: "settings_io \<Rightarrow> auto_config \<Rightarrow> bool \<Rightarrow> settings \<Rightarrow> settings \<times> bool \<times> bool" where
  "auto_save io c installed s =
     save_setting io installed (if Mode c = Off then None else Some (auto_encode c)) s"

section \<open>What is saved is what starts\<close>

definition auto_kept :: "auto_config \<Rightarrow> auto_config" where
  \<comment> \<open>the setting as it comes back: without line ends, the password only where it is used\<close>
  "auto_kept c = \<lparr>Mode = Mode c, Server = trim_space (oneLine (Server c)), Username = oneLine (Username c),
     Domain = oneLine (Domain c), Password = (if Mode c = Logon then Password c else [])\<rparr>"

definition auto_complete :: "auto_config \<Rightarrow> bool" where
  "auto_complete c \<longleftrightarrow> Mode c \<noteq> Off \<and> Server (auto_kept c) \<noteq> [] \<and>
     (Mode c = Logon \<longrightarrow> Username (auto_kept c) \<noteq> [])"

lemma oneLine_clean: "newline \<notin> set (oneLine s)" "creturn \<notin> set (oneLine s)"
  by (auto simp: oneLine_def)

lemma trim_cr: "creturn \<notin> set s \<Longrightarrow> trim_right (\<lambda>x. x = creturn) s = s"
proof (cases "s = []")
  case False
  assume "creturn \<notin> set s"
  then have "last s \<noteq> creturn" using last_in_set [OF False] by metis
  then show ?thesis using False by simp
qed (simp add: trim_right_def)

lemma auto_line_keys:
  assumes "creturn \<notin> set v"
  shows "auto_line (''mode='' @ v) (Some c) = Some (if v = ''dialog'' then c\<lparr>Mode := Dialog\<rparr>
      else if v = ''logon'' then c\<lparr>Mode := Logon\<rparr> else c)"
    "auto_line (''server='' @ v) (Some c) = Some (c\<lparr>Server := trim_space v\<rparr>)"
    "auto_line (''username='' @ v) (Some c) = Some (c\<lparr>Username := v\<rparr>)"
    "auto_line (''domain='' @ v) (Some c) = Some (c\<lparr>Domain := v\<rparr>)"
    "auto_line (''password='' @ v) (Some c) = map_option (\<lambda>p. c\<lparr>Password := p\<rparr>) (b64_decode v)"
  using assms by (simp_all add: auto_line_def trim_cr cut_at_def)

lemma string_lits: "creturn \<notin> set ''logon''" "creturn \<notin> set ''dialog''" "creturn \<notin> set []"
  by simp_all

lemma auto_parse_encode:
  assumes "auto_complete c"
  shows "auto_parse (auto_encode c) = Some (auto_kept c)"
proof -
  let ?ls = "[''mode='' @ (if Mode c = Logon then ''logon'' else ''dialog''),
        ''server='' @ oneLine (Server c), ''username='' @ oneLine (Username c),
        ''domain='' @ oneLine (Domain c),
        ''password='' @ (if Mode c = Logon then b64_encode (Password c) else [])]"
  have b: "creturn \<notin> set (b64_encode x)" "newline \<notin> set (b64_encode x)" for x
    using b64_encode_no_ends by blast+
  have "scan_lines (auto_encode c) = ?ls"
    unfolding auto_encode_def using oneLine_clean b by (intro scan_with_ends) auto
  moreover have "fold auto_line ?ls (Some no_auto) = Some (auto_kept c)"
  proof (cases "Mode c = Logon")
    case True
    then show ?thesis
      by (simp only: fold_simps auto_line_keys oneLine_clean b b64_round_trip option.map if_True True
          string_lits not_False_eq_True no_auto_def)
        (simp add: auto_kept_def True)
  next
    case False
    then have d: "Mode c = Dialog" using assms by (cases "Mode c") (simp_all add: auto_complete_def)
    show ?thesis using b64_round_trip [of "[]"]
      by (simp only: fold_simps auto_line_keys oneLine_clean b b64_encode.simps option.map if_False False
          string_lits not_False_eq_True no_auto_def)
        (simp add: auto_kept_def d)
  qed
  ultimately show ?thesis
    using assms by (auto simp: auto_parse_def auto_complete_def) (simp_all add: auto_kept_def)
qed

text \<open>C24. The startup server is kept: a setting saved with success comes back
  after a restart as it was, password and all, on an installed kiosk and on one
  with a stick; a password is never in the file unless the kiosk logs on with it;
  turning the setting off leaves none; and a save that fails leaves the old
  setting or the new one, never a part of either.\<close>

theorem startup_server_kept:
  assumes "auto_save io c installed s = (s', persisted, ok)" "Mode c = Off \<or> auto_complete c"
  shows "(persisted \<longrightarrow> auto_load (reboot installed s') = (if Mode c = Off then None else Some (auto_kept c))) \<and>
    (Mode c \<noteq> Logon \<longrightarrow> auto_encode c = auto_encode (c\<lparr>Password := []\<rparr>)) \<and>
    auto_load s' \<in> {auto_load s, if Mode c = Off then None else Some (auto_kept c)} \<and>
    auto_load (reboot installed s') \<in>
      {auto_load (reboot installed s), if Mode c = Off then None else Some (auto_kept c)}"
proof -
  let ?new = "if Mode c = Off then None else Some (auto_encode c)"
  have new: "(case ?new of None \<Rightarrow> None | Some b \<Rightarrow> auto_parse b) =
      (if Mode c = Off then None else Some (auto_kept c))"
    using assms(2) auto_parse_encode by auto
  note sv = assms(1) [unfolded auto_save_def]
  have "persisted \<Longrightarrow> in_effect (reboot installed s') = ?new"
    using saved_setting_boots [of io installed ?new s s' ok] sv by (cases persisted) auto
  then have "persisted \<longrightarrow> auto_load (reboot installed s') = (if Mode c = Off then None else Some (auto_kept c))"
    using new by (simp only: auto_load_def) simp
  moreover have "in_effect s' \<in> {?new, in_effect s} \<and>
    in_effect (reboot installed s') \<in> {?new, in_effect (reboot installed s)}"
    using setting_never_torn [OF sv] .
  ultimately show ?thesis
    using new by (auto simp: auto_load_def auto_encode_def)
qed

theorem startup_server_kept_witness:
  "auto_load (reboot True (fst (auto_save \<lparr>run_io = io_works, keep_io = io_works, stick = False,
       stick_mounts = False, stick_unmounts = False\<rparr>
     \<lparr>Mode = Logon, Server = ''10.0.0.5'', Username = ''u'', Domain = [], Password = ''p=1''\<rparr> True
     \<lparr>in_effect = None, on_data = None, on_stick = None\<rparr>))) =
   Some \<lparr>Mode = Logon, Server = ''10.0.0.5'', Username = ''u'', Domain = [], Password = ''p=1''\<rparr>"
proof -
  let ?io = "\<lparr>run_io = io_works, keep_io = io_works, stick = False, stick_mounts = False, stick_unmounts = False\<rparr>"
  let ?c = "\<lparr>Mode = Logon, Server = ''10.0.0.5'', Username = ''u'', Domain = [], Password = ''p=1''\<rparr>"
  let ?s = "\<lparr>in_effect = None, on_data = None, on_stick = None\<rparr> :: settings"
  have "trim_space ''10.0.0.5'' = ''10.0.0.5''"
    by (rule trim_space_word) (simp add: is_space_def)
  then have k: "auto_kept ?c = ?c" by (simp add: auto_kept_def oneLine_def)
  obtain s' where s': "auto_save ?io ?c True ?s = (s', True, True)"
    by (simp add: auto_save_def save_setting_def put_file_def replaceFile_def io_works_def)
  show ?thesis
    using startup_server_kept [OF s'] k s' by (simp add: auto_complete_def)
qed

end
