(* ===== verification/NetConf.thy ===== *)
theory NetConf
  imports Settings Hosts Cidr
begin

text \<open>
  \<open>internal/netconf\<close>: the network settings, the file they are kept in, the
  dialog's fields and what they must be, and what an interface runs with now.
  What the kernel's files hold is an argument.
\<close>

record net_config =
  Static :: bool
  Interface :: string
  NetAddress :: string
  Gateway :: string
  DNS :: "string list"
  ScanPort :: int

definition no_net :: net_config where
  "no_net = \<lparr>Static = False, Interface = [], NetAddress = [], Gateway = [], DNS = [], ScanPort = 0\<rparr>"

definition ParsePort :: "string \<Rightarrow> int option" where
  \<comment> \<open>\<open>None\<close> is \<open>ErrPort\<close>\<close>
  "ParsePort s0 =
     (let s = trim_space s0
      in if s = [] then Some 0
         else case atoi s of None \<Rightarrow> None
           | Some p \<Rightarrow> if p < 1 \<or> p > 65535 then None
                       else if p = DefaultRDPPort then Some 0 else Some p)"

definition net_line :: "string \<Rightarrow> net_config \<Rightarrow> net_config" where
  "net_line line c =
     (case cut_at CHR ''='' (trim_space line) of None \<Rightarrow> c
      | Some (k, v) \<Rightarrow>
        if k = ''mode'' then c\<lparr>Static := (v = ''static'')\<rparr>
        else if k = ''interface'' then c\<lparr>Interface := v\<rparr>
        else if k = ''address'' then c\<lparr>NetAddress := v\<rparr>
        else if k = ''gateway'' then c\<lparr>Gateway := v\<rparr>
        else if k = ''dns'' then c\<lparr>DNS := str_fields v\<rparr>
        else if k = ''port'' then c\<lparr>ScanPort := (case ParsePort v of None \<Rightarrow> 0 | Some p \<Rightarrow> p)\<rparr>
        else c)"

definition net_parse :: "string \<Rightarrow> net_config" where
  "net_parse b =
     (let c = fold net_line (scan_lines b) no_net
      in if NetAddress c = [] then c\<lparr>Static := False\<rparr> else c)"

definition net_encode :: "net_config \<Rightarrow> string" where
  "net_encode c =
     with_ends
       ((if \<not> Static c then [''mode=dhcp'']
         else [''mode=static'', ''interface='' @ Interface c, ''address='' @ NetAddress c,
               ''gateway='' @ Gateway c, ''dns='' @ join_with '' '' (DNS c)]) @
        (if ScanPort c \<noteq> 0 then [''port='' @ itoa (ScanPort c)] else []))"

definition net_load :: "settings \<Rightarrow> net_config" where
  "net_load s = net_parse (case in_effect s of None \<Rightarrow> [] | Some b \<Rightarrow> b)"

definition net_save :: "settings_io \<Rightarrow> net_config \<Rightarrow> bool \<Rightarrow> settings \<Rightarrow> settings \<times> bool \<times> bool" where
  "net_save io c installed s = save_setting io installed (Some (net_encode c)) s"

section \<open>The dialog's fields\<close>

datatype net_error = ErrAddress | ErrMask | ErrGateway | ErrDNS

definition ParseIP4 :: "string \<Rightarrow> u32 option" where
  \<comment> \<open>\<open>net.ParseIP(s).To4()\<close>\<close>
  "ParseIP4 s = (case ParseIP s of Some (IP4 w) \<Rightarrow> Some w | _ \<Rightarrow> None)"

definition mask_size :: "u32 \<Rightarrow> nat option" where
  \<comment> \<open>\<open>IPMask.Size\<close>: \<open>None\<close> where the ones are not all in front\<close>
  "mask_size w = List.find (\<lambda>n. cidr_mask n = w) [0..<33]"

definition parseMask :: "string \<Rightarrow> nat option" where
  "parseMask s0 =
     (let s = trim_prefix (trim_space s0) ''/''
      in if s = [] then Some 24
         else case atoi s of
             Some n \<Rightarrow> if n < 1 \<or> n > 32 then None else Some (nat n)
           | None \<Rightarrow>
             (case ParseIP4 s of None \<Rightarrow> None
              | Some w \<Rightarrow> (case mask_size w of None \<Rightarrow> None | Some n \<Rightarrow> if n = 0 then None else Some n)))"

definition multicast4 :: "u32 \<Rightarrow> bool" where "multicast4 w \<longleftrightarrow> drop_bit 28 w = 14"

definition form_sep :: "char \<Rightarrow> bool" where "form_sep c \<longleftrightarrow> c = CHR '' '' \<or> c = CHR '','' \<or> c = CHR '';''"

definition fields_of :: "string \<Rightarrow> string list" where
  \<comment> \<open>\<open>strings.FieldsFunc(s, sep)\<close>\<close>
  "fields_of s = filter (\<lambda>w. w \<noteq> []) (split_on CHR '' '' (map (\<lambda>c. if form_sep c then CHR '' '' else c) s))"

definition form_dns :: "string list \<Rightarrow> string list option" where
  "form_dns fs =
     (let as = map ParseIP (concat (map fields_of fs))
      in if None \<in> set as then None else Some (map (ip_string \<circ> the) as))"

definition FromForm :: "bool \<Rightarrow> string \<Rightarrow> string \<Rightarrow> string \<Rightarrow> string \<Rightarrow> string list \<Rightarrow> net_error + net_config" where
  "FromForm static iface ip0 smask gw0 dns =
     (let c = no_net\<lparr>Static := static, Interface := iface\<rparr>
      in if \<not> static then Inr c
         else case ParseIP4 (trim_space ip0) of None \<Rightarrow> Inl ErrAddress
           | Some w \<Rightarrow>
             if w = 0 \<or> loopback4 w \<or> multicast4 w then Inl ErrAddress
             else case parseMask smask of None \<Rightarrow> Inl ErrMask
               | Some n \<Rightarrow>
                 let c1 = c\<lparr>NetAddress := ip_net_string w n\<rparr>;
                     gw = trim_space gw0;
                     g = (if gw = [] then Inr []
                          else case ParseIP4 gw of None \<Rightarrow> Inl ErrGateway
                            | Some v \<Rightarrow> if \<not> net_contains (w AND cidr_mask n) n v \<or> v = w then Inl ErrGateway
                                        else Inr (ip4_string v))
                 in (case g of Inl e \<Rightarrow> Inl e
                     | Inr gtext \<Rightarrow>
                       (case form_dns dns of None \<Rightarrow> Inl ErrDNS
                        | Some ds \<Rightarrow> Inr (c1\<lparr>Gateway := gtext, DNS := ds\<rparr>))))"

definition Form :: "net_config \<Rightarrow> string \<times> string \<times> string \<times> string \<times> string" where
  "Form c =
     (let d1 = (case DNS c of d # _ \<Rightarrow> d | [] \<Rightarrow> []); d2 = (case DNS c of _ # d # _ \<Rightarrow> d | _ \<Rightarrow> [])
      in case ParseCIDR (NetAddress c) of
           None \<Rightarrow> ([], ''255.255.255.0'', Gateway c, d1, d2)
         | Some (w, n) \<Rightarrow> (ip4_string w, ip4_string (cidr_mask n), Gateway c, d1, d2))"

section \<open>What an interface runs with\<close>

definition Interfaces :: "string list \<Rightarrow> string list" where
  "Interfaces names = filter (\<lambda>n. n \<noteq> ''lo'') names"

definition defaultGateway :: "string option \<Rightarrow> string \<Rightarrow> string" where
  \<comment> \<open>the argument: \<open>/proc/net/route\<close>\<close>
  "defaultGateway route iface =
     (case route of None \<Rightarrow> []
      | Some text \<Rightarrow>
        (case List.map_filter (\<lambda>line. case str_fields line of
              f0 # f1 # f2 # _ \<Rightarrow>
                if f0 \<noteq> iface \<or> f1 \<noteq> ''00000000'' then None
                else (case parse_uint 16 32 f2 of None \<Rightarrow> None
                  | Some v \<Rightarrow> if v = 0 then None
                      else Some (ip4_string (ip4_of [v mod 256, v div 2 ^ 8 mod 256, v div 2 ^ 16 mod 256, v div 2 ^ 24])))
            | _ \<Rightarrow> None) (scan_lines text) of
           [] \<Rightarrow> [] | g # _ \<Rightarrow> g))"

record net_status =
  st_interface :: string
  st_address :: string
  st_carrier :: bool

record net_world =
  net_names :: "string list"                        \<comment> \<open>\<open>/sys/class/net\<close>\<close>
  net_carrier :: "string \<Rightarrow> string option"          \<comment> \<open>an interface's \<open>carrier\<close>\<close>
  net_addrs :: "string \<Rightarrow> (u32 \<times> nat) list option"  \<comment> \<open>its IPv4 addresses, \<open>None\<close>: no such interface\<close>
  net_route :: "string option"
  net_resolv :: "string option"

definition CurrentNet :: "net_world \<Rightarrow> string \<Rightarrow> net_status" where
  "CurrentNet w iface0 =
     (let iface = (if iface0 = [] then (case Interfaces (net_names w) of [] \<Rightarrow> [] | i # _ \<Rightarrow> i) else iface0)
      in \<lparr>st_interface = iface,
          st_address = (case net_addrs w iface of Some ((a, n) # _) \<Rightarrow> ip_net_string a n | _ \<Rightarrow> []),
          st_carrier = (case net_carrier w iface of None \<Rightarrow> False | Some t \<Rightarrow> trim_space t = ''1'')\<rparr>)"

definition Lease :: "net_world \<Rightarrow> string \<Rightarrow> net_config" where
  "Lease w iface =
     no_net\<lparr>Interface := iface, NetAddress := st_address (CurrentNet w iface),
       Gateway := defaultGateway (net_route w) iface,
       DNS := (case net_resolv w of None \<Rightarrow> []
         | Some text \<Rightarrow> List.map_filter (\<lambda>line. case str_fields line of
             [k, v] \<Rightarrow> if k = ''nameserver'' then Some v else None | _ \<Rightarrow> None) (scan_lines text))\<rparr>"

section \<open>The file\<close>

lemma trim_space_ends: "s \<noteq> [] \<Longrightarrow> \<not> is_space (hd s) \<Longrightarrow> \<not> is_space (last s) \<Longrightarrow> trim_space s = s"
  by (simp add: trim_space_def)

lemma trim_key:
  assumes "k \<noteq> []" "\<not> is_space (hd k)" "\<not> is_space (last k)" "v = [] \<or> \<not> is_space (last v)"
  shows "trim_space (k @ v) = k @ v"
  using assms by (cases "v = []") (auto intro!: trim_space_ends)

lemma net_line_keys:
  assumes "v = [] \<or> \<not> is_space (last v)"
  shows "net_line (''mode='' @ v) c = c\<lparr>Static := (v = ''static'')\<rparr>"
    "net_line (''interface='' @ v) c = c\<lparr>Interface := v\<rparr>"
    "net_line (''address='' @ v) c = c\<lparr>NetAddress := v\<rparr>"
    "net_line (''gateway='' @ v) c = c\<lparr>Gateway := v\<rparr>"
    "net_line (''dns='' @ v) c = c\<lparr>DNS := str_fields v\<rparr>"
    "net_line (''port='' @ v) c = c\<lparr>ScanPort := (case ParsePort v of None \<Rightarrow> 0 | Some p \<Rightarrow> p)\<rparr>"
  using trim_key [of "''mode=''" v, OF _ _ _ assms] trim_key [of "''interface=''" v, OF _ _ _ assms]
    trim_key [of "''address=''" v, OF _ _ _ assms] trim_key [of "''gateway=''" v, OF _ _ _ assms]
    trim_key [of "''dns=''" v, OF _ _ _ assms] trim_key [of "''port=''" v, OF _ _ _ assms]
  by (simp_all add: net_line_def cut_at_def is_space_def)

definition plain_text :: "string \<Rightarrow> bool" where "plain_text s \<longleftrightarrow> list_all (\<lambda>c. \<not> is_space c) s"

definition net_storable :: "net_config \<Rightarrow> bool" where
  \<comment> \<open>settings the file can hold: no white space inside a value, and a port the dialog accepts\<close>
  "net_storable c \<longleftrightarrow>
     plain_text (Interface c) \<and> plain_text (NetAddress c) \<and> plain_text (Gateway c) \<and>
     list_all (\<lambda>d. d \<noteq> [] \<and> plain_text d) (DNS c) \<and>
     (Static c \<longrightarrow> NetAddress c \<noteq> []) \<and>
     (ScanPort c = 0 \<or> (1 \<le> ScanPort c \<and> ScanPort c \<le> 65535 \<and> ScanPort c \<noteq> DefaultRDPPort))"

definition net_kept :: "net_config \<Rightarrow> net_config" where
  \<comment> \<open>with DHCP only the port is kept\<close>
  "net_kept c = (if Static c then c else no_net\<lparr>ScanPort := ScanPort c\<rparr>)"

lemma plain_last: "plain_text s \<Longrightarrow> s = [] \<or> \<not> is_space (last s)"
  by (metis last_in_set list_all_iff plain_text_def)

lemma plain_no_ends: "plain_text s \<Longrightarrow> newline \<notin> set s \<and> creturn \<notin> set s"
  by (auto simp: plain_text_def list_all_iff is_space_def)

lemma join_last:
  "list_all (\<lambda>d. d \<noteq> [] \<and> plain_text d) ds \<Longrightarrow> join_with '' '' ds = [] \<or> \<not> is_space (last (join_with '' '' ds))"
proof (induction "'' ''" ds rule: join_with.induct)
  case (3 w v vs)
  then have "join_with '' '' (v # vs) \<noteq> []" by (cases vs) auto
  then show ?case using 3 by auto
qed (use plain_last in auto)

lemma join_no_ends:
  "list_all (\<lambda>d. d \<noteq> [] \<and> plain_text d) ds \<Longrightarrow> newline \<notin> set (join_with '' '' ds) \<and> creturn \<notin> set (join_with '' '' ds)"
  by (induction "'' ''" ds rule: join_with.induct) (auto dest: plain_no_ends)

lemma itoa_plain: "0 \<le> p \<Longrightarrow> plain_text (itoa p)"
  using itoa_no_space by (fastforce simp: plain_text_def list_all_iff is_space_def is_digit_iff)

lemma ParsePort_itoa:
  assumes "1 \<le> p" "p \<le> 65535" "p \<noteq> DefaultRDPPort"
  shows "ParsePort (itoa p) = Some p"
proof -
  have "trim_space (itoa p) = itoa p"
    using itoa_plain [of p] assms by (intro trim_space_word) (simp add: plain_text_def list_all_iff)
  moreover have "itoa p \<noteq> []"
    using itoa_nat_digits [of "nat p"] assms by (simp add: itoa_def all_digits_def)
  ultimately show ?thesis
    using assms by (simp add: ParsePort_def atoi_itoa max_int_def Let_def)
qed

lemma lit_last: "''static'' = [] \<or> \<not> is_space (last ''static'')" "''dhcp'' = [] \<or> \<not> is_space (last ''dhcp'')"
  by (simp_all add: is_space_def)

lemma net_parse_encode:
  assumes "net_storable c"
  shows "net_parse (net_encode c) = net_kept c"
proof -
  have ok: "plain_text (Interface c)" "plain_text (NetAddress c)" "plain_text (Gateway c)"
    "list_all (\<lambda>d. d \<noteq> [] \<and> plain_text d) (DNS c)" "Static c \<Longrightarrow> NetAddress c \<noteq> []"
    and port: "ScanPort c = 0 \<or> (1 \<le> ScanPort c \<and> ScanPort c \<le> 65535 \<and> ScanPort c \<noteq> DefaultRDPPort)"
    using assms by (auto simp: net_storable_def)
  let ?port = "if ScanPort c \<noteq> 0 then [''port='' @ itoa (ScanPort c)] else []"
  let ?body = "if \<not> Static c then [''mode='' @ ''dhcp'']
     else [''mode='' @ ''static'', ''interface='' @ Interface c, ''address='' @ NetAddress c,
           ''gateway='' @ Gateway c, ''dns='' @ join_with '' '' (DNS c)]"
  have pp: "ScanPort c \<noteq> 0 \<Longrightarrow> plain_text (itoa (ScanPort c))" using port itoa_plain by auto
  have "scan_lines (net_encode c) = ?body @ ?port"
    unfolding net_encode_def
    using plain_no_ends [OF ok(1)] plain_no_ends [OF ok(2)] plain_no_ends [OF ok(3)] join_no_ends [OF ok(4)]
      plain_no_ends [OF pp]
    by (subst scan_with_ends) auto
  moreover have "fold net_line ?body no_net = net_kept (c\<lparr>ScanPort := 0\<rparr>)"
  proof (cases "Static c")
    case True
    have "str_fields (join_with '' '' (DNS c)) = DNS c"
      using ok(4) by (intro str_fields_words) (auto simp: list_all_iff plain_text_def)
    then have "fold net_line ?body no_net = c\<lparr>Static := True, ScanPort := 0\<rparr>"
      by (simp only: True not_True_eq_False if_False fold_simps net_line_keys [OF lit_last(1)]
          net_line_keys [OF plain_last [OF ok(1)]] net_line_keys [OF plain_last [OF ok(2)]]
          net_line_keys [OF plain_last [OF ok(3)]] net_line_keys [OF join_last [OF ok(4)]])
        (simp add: no_net_def)
    then show ?thesis using True by (simp add: net_kept_def)
  next
    case False
    have "fold net_line ?body no_net = no_net\<lparr>Static := False\<rparr>"
      by (simp only: False not_False_eq_True if_True fold_simps net_line_keys [OF lit_last(2)]) simp
    then show ?thesis using False by (simp add: net_kept_def no_net_def)
  qed
  moreover have "fold net_line ?port c' = c'\<lparr>ScanPort := (if ScanPort c = 0 then ScanPort c' else ScanPort c)\<rparr>" for c'
    using port pp net_line_keys(6) [OF plain_last [OF pp]] ParsePort_itoa by auto
  ultimately have "fold net_line (scan_lines (net_encode c)) no_net = net_kept c"
    by (simp add: net_kept_def no_net_def)
  then show ?thesis using ok(5) by (auto simp: net_parse_def net_kept_def no_net_def)
qed

section \<open>The form\<close>

lemma cidr_mask_inj: "n \<le> 32 \<Longrightarrow> m < n \<Longrightarrow> cidr_mask m \<noteq> cidr_mask n"
proof
  assume n: "n \<le> 32" "m < n" "cidr_mask m = cidr_mask n"
  then have "bit (cidr_mask m) (32 - n) = bit (cidr_mask n) (32 - n)" by simp
  then show False using n by (simp add: cidr_mask_def bit_simps)
qed

lemma mask_size_cidr: "n \<le> 32 \<Longrightarrow> mask_size (cidr_mask n) = Some n"
  unfolding mask_size_def find_Some_iff
  by (intro exI [of _ n]) (use cidr_mask_inj in \<open>auto simp: nth_append simp del: upt_Suc\<close>)

lemma ip4_plain: "plain_text (ip4_string w)"
  using ip4_chars(8) by (auto simp: plain_text_def list_all_iff)

lemma plain_trim: "plain_text s \<Longrightarrow> trim_space s = s"
  by (intro trim_space_word) (simp add: plain_text_def list_all_iff)

lemma ip4_nonempty: "ip4_string w \<noteq> []"
  using ip4_string_dot [of w] by auto

lemma atoi_ip4: "atoi (ip4_string w) = None"
proof -
  obtain a b where ab: "ip4_string w = a @ CHR ''.'' # b" "list_all is_digit a"
    using ip4_string_dot by blast
  have "strip_sign (ip4_string w) = (False, ip4_string w)"
    using ab by (cases a) (auto simp: strip_sign_def is_digit_iff)
  moreover have "\<not> all_digits (ip4_string w)"
    unfolding ab by (simp add: all_digits_def is_digit_iff)
  ultimately show ?thesis by (simp add: atoi_def)
qed

lemma parseMask_dotted: "0 < n \<Longrightarrow> n \<le> 32 \<Longrightarrow> parseMask (ip4_string (cidr_mask n)) = Some n"
proof -
  assume n: "0 < n" "n \<le> 32"
  have "trim_prefix (ip4_string (cidr_mask n)) ''/'' = ip4_string (cidr_mask n)"
    using ip4_chars(5) [of "hd (ip4_string (cidr_mask n))" "cidr_mask n"] ip4_nonempty [of "cidr_mask n"]
    by (cases "ip4_string (cidr_mask n)") (auto simp: trim_prefix_def)
  then show ?thesis
    using n by (simp add: parseMask_def plain_trim ip4_plain ip4_nonempty atoi_ip4 ParseIP4_def
        ParseIP_string mask_size_cidr Let_def)
qed

lemma parseMask_range: "parseMask s = Some n \<Longrightarrow> 0 < n \<and> n \<le> 32"
  by (auto simp: parseMask_def mask_size_def find_Some_iff Let_def split: if_splits option.splits)

definition form_ok :: "string \<Rightarrow> u32 \<Rightarrow> nat \<Rightarrow> u32 option \<Rightarrow> ip list \<Rightarrow> net_config" where
  \<comment> \<open>the settings for an address, a prefix length, a gateway and name servers\<close>
  "form_ok iface w n g ds =
     \<lparr>Static = True, Interface = iface, NetAddress = ip_net_string w n,
       Gateway = (case g of None \<Rightarrow> [] | Some v \<Rightarrow> ip4_string v), DNS = map ip_string ds, ScanPort = 0\<rparr>"

definition address_ok :: "u32 \<Rightarrow> bool" where
  "address_ok w \<longleftrightarrow> w \<noteq> 0 \<and> \<not> loopback4 w \<and> \<not> multicast4 w"

definition gateway_ok :: "u32 \<Rightarrow> nat \<Rightarrow> u32 option \<Rightarrow> bool" where
  "gateway_ok w n g \<longleftrightarrow> (case g of None \<Rightarrow> True | Some v \<Rightarrow> net_contains (w AND cidr_mask n) n v \<and> v \<noteq> w)"

lemma FromForm_ok:
  assumes "FromForm True iface ip0 m gw dns = Inr c"
  shows "\<exists>w n g ds. c = form_ok iface w n g ds \<and> address_ok w \<and> 0 < n \<and> n \<le> 32 \<and> gateway_ok w n g"
proof -
  let ?gw = "trim_space gw"
  obtain w where w: "ParseIP4 (trim_space ip0) = Some w" "address_ok w"
    using assms by (auto simp: FromForm_def address_ok_def Let_def split: option.splits if_splits)
  obtain n where n: "parseMask m = Some n"
    using assms w by (auto simp: FromForm_def address_ok_def Let_def split: option.splits if_splits)
  have nr: "0 < n" "n \<le> 32" using parseMask_range [OF n] by auto
  define g where "g = (if ?gw = [] then None else ParseIP4 ?gw)"
  have g: "gateway_ok w n g \<and> (?gw = [] \<or> g \<noteq> None)"
    using assms w n by (auto simp: FromForm_def address_ok_def gateway_ok_def g_def Let_def split: option.splits if_splits)
  obtain ds where ds: "form_dns dns = Some (map ip_string ds)"
  proof (cases "form_dns dns")
    case None
    then show ?thesis
      using assms w n by (auto simp: FromForm_def address_ok_def Let_def split: option.splits if_splits sum.splits)
  next
    case (Some xs)
    then have "xs = map ip_string (map the (map ParseIP (concat (map fields_of dns))))"
      by (auto simp: form_dns_def Let_def split: if_splits)
    then show ?thesis using that Some by blast
  qed
  have "c = form_ok iface w n g ds"
    using assms w n g ds
    by (auto simp: FromForm_def form_ok_def address_ok_def gateway_ok_def g_def no_net_def Let_def
        split: option.splits if_splits)
  then show ?thesis using w(2) nr g by blast
qed

lemma fields_of_plain:
  assumes "\<forall>c \<in> set s. \<not> form_sep c"
  shows "fields_of s = (if s = [] then [] else [s])"
proof -
  have "map (\<lambda>c. if form_sep c then CHR '' '' else c) s = s" "CHR '' '' \<notin> set s"
    using assms by (auto simp: map_idI form_sep_def)
  then show ?thesis by (simp add: fields_of_def split_on_no_sep)
qed

lemma form_dns_ip4:
  "form_dns (map (ip_string \<circ> IP4) ws @ es) = map_option (\<lambda>xs. map (ip_string \<circ> IP4) ws @ xs) (form_dns es)"
proof (induction ws)
  case Nil
  then show ?case by (cases "form_dns es") auto
next
  case (Cons w ws)
  have "fields_of (ip4_string w) = [ip4_string w]"
  proof -
    have "\<not> form_sep c" if "c \<in> set (ip4_string w)" for c
      using ip4_string_chars [OF that] by (auto simp: form_sep_def is_digit_iff)
    then show ?thesis using ip4_nonempty by (simp add: fields_of_plain)
  qed
  then have "form_dns (ip4_string w # fs) = map_option ((#) (ip4_string w)) (form_dns fs)" for fs
    by (auto simp: form_dns_def ParseIP_string Let_def)
  then show ?case using Cons.IH by (simp add: option.map_comp comp_def)
qed

lemma Form_ok: "n \<le> 32 \<Longrightarrow> Form (form_ok iface w n g ds) =
   (ip4_string w, ip4_string (cidr_mask n), case g of None \<Rightarrow> [] | Some v \<Rightarrow> ip4_string v,
    case ds of d # _ \<Rightarrow> ip_string d | [] \<Rightarrow> [], case ds of _ # d # _ \<Rightarrow> ip_string d | _ \<Rightarrow> [])"
  by (simp add: Form_def form_ok_def ParseCIDR_string Let_def split: list.split)

lemma FromForm_form_ok:
  assumes "address_ok w" "0 < n" "n \<le> 32" "gateway_ok w n g" "form_dns dns = Some (map ip_string ds)"
  shows "FromForm True iface (ip4_string w) (ip4_string (cidr_mask n)) (case g of None \<Rightarrow> [] | Some v \<Rightarrow> ip4_string v) dns =
    Inr (form_ok iface w n g ds)"
  using assms
  by (cases g) (simp_all add: FromForm_def form_ok_def address_ok_def gateway_ok_def plain_trim ip4_plain
      ip4_nonempty ParseIP4_def ParseIP_string parseMask_dotted no_net_def Let_def, simp add: trim_space_def trim_left_def trim_right_def)



end
