(* ===== verification/HostList.thy ===== *)
theory HostList
  imports Complex_Main Scanner
begin

text \<open>
  The server list (\<open>internal/ui/state.go\<close>): the hosts, the cursor and the
  window of rows shown, what a scan adds and what its end takes away.
  \<open>host_list\<close> is the part of \<open>UIState\<close> these operations touch; the
  rest of the state extends the record. A nil map of the code is an empty list.
\<close>

section \<open>The list\<close>

record host_list =
  Dirty :: bool
  hosts :: "host list"
  found :: "string list"        \<comment> \<open>the keys the scan under way has found\<close>
  kept :: "string list"         \<comment> \<open>the keys that came into the list another way\<close>
  SelectedIdx :: int
  ScrollOffset :: int
  ScanProgress :: rat
  ScanDone :: bool

definition clampInt :: "int \<Rightarrow> int \<Rightarrow> int \<Rightarrow> int" where
  "clampInt v lo hi = (let v1 = (if v < lo then lo else v) in if v1 > hi then hi else v1)"

fun index_same :: "host \<Rightarrow> host list \<Rightarrow> nat option" where
  \<comment> \<open>the first entry that is the same endpoint\<close>
  "index_same h [] = None"
| "index_same h (x # xs) = (if Same x h then Some 0 else map_option Suc (index_same h xs))"

definition AddHost :: "host \<Rightarrow> 'a host_list_scheme \<Rightarrow> 'a host_list_scheme \<times> int" where
  "AddHost h s =
     (let s1 = s\<lparr>kept := List.insert (AddrRDP h) (kept s)\<rparr>
      in case index_same h (hosts s) of
           Some i \<Rightarrow>
             let x = hosts s ! i
             in (if Hostname x = [] then s1\<lparr>hosts := (hosts s)[i := x\<lparr>Hostname := Hostname h\<rparr>]\<rparr> else s1, int i)
         | None \<Rightarrow> (s1\<lparr>hosts := hosts s @ [h], Dirty := True\<rparr>, int (length (hosts s))))"

definition AddStaticHost :: "int \<Rightarrow> string \<Rightarrow> 'a host_list_scheme \<Rightarrow> 'a host_list_scheme \<times> bool" where
  "AddStaticHost now raw s =
     (case ParseIPAddress now raw of None \<Rightarrow> (s, False) | Some h \<Rightarrow> (fst (AddHost h s), True))"

definition SelectedHost :: "'a host_list_scheme \<Rightarrow> host option" where
  "SelectedHost s =
     (let n = int (length (hosts s));
          i = (if SelectedIdx s < 0 then 0 else SelectedIdx s)
      in if n = 0 then None else Some (hosts s ! nat (if i \<ge> n then n - 1 else i)))"

definition VisibleHosts :: "int \<Rightarrow> 'a host_list_scheme \<Rightarrow> host list option" where
  \<comment> \<open>\<open>None\<close>: the slice expression panics\<close>
  "VisibleHosts maxRows s =
     (if hosts s = [] then Some []
      else
        let start = (if ScrollOffset s < 0 then 0 else ScrollOffset s);
            end0 = start + maxRows;
            end1 = (if end0 > int (length (hosts s)) then int (length (hosts s)) else end0)
        in if start \<le> end1 then Some (take (nat (end1 - start)) (drop (nat start) (hosts s))) else None)"

section \<open>Scans\<close>

definition found_in :: "host \<Rightarrow> host list \<Rightarrow> host list" where
  \<comment> \<open>\<open>HandleScanEvent\<close>: a host listed already takes the scan's record, but keeps its name if that has none\<close>
  "found_in h hs =
     (case index_same h hs of
        Some i \<Rightarrow> hs[i := (if Hostname h = [] then h\<lparr>Hostname := Hostname (hs ! i)\<rparr> else h)]
      | None \<Rightarrow> hs @ [h])"

definition stays :: "'a host_list_scheme \<Rightarrow> host \<Rightarrow> bool" where
  "stays s h \<longleftrightarrow> AddrRDP h \<in> set (found s) \<or> AddrRDP h \<in> set (kept s)"

definition dropUnfound :: "'a host_list_scheme \<Rightarrow> 'a host_list_scheme" where
  "dropUnfound s =
     (let cur = (case SelectedHost s of None \<Rightarrow> [] | Some h \<Rightarrow> AddrRDP h);
          (hs, sel) = foldl (\<lambda>(hs, sel) h. if stays s h
              then (hs @ [h], if AddrRDP h = cur then int (length hs) else sel) else (hs, sel))
            ([], SelectedIdx s) (hosts s);
          sel' = clampInt sel 0 (max (int (length hs) - 1) 0)
      in s\<lparr>hosts := hs, found := [], SelectedIdx := sel', ScrollOffset := clampInt (ScrollOffset s) 0 sel'\<rparr>)"

definition HandleScanEvent :: "scan_event \<Rightarrow> 'a host_list_scheme \<Rightarrow> 'a host_list_scheme" where
  "HandleScanEvent ev s0 =
     (let s = s0\<lparr>Dirty := True\<rparr>
      in case ev_type ev of
           EventHostFound \<Rightarrow>
             (case ev_host ev of None \<Rightarrow> s
              | Some h \<Rightarrow> s\<lparr>hosts := found_in h (hosts s), found := List.insert (AddrRDP h) (found s)\<rparr>)
         | EventScanProgress \<Rightarrow>
             (if Total ev > 0 then s\<lparr>ScanProgress := rat_of_int (Scanned ev) / rat_of_int (Total ev)\<rparr> else s)
         | EventScanComplete \<Rightarrow> dropUnfound (s\<lparr>ScanProgress := 1, ScanDone := True\<rparr>))"

definition Rescan :: "'a host_list_scheme \<Rightarrow> 'a host_list_scheme" where
  "Rescan s = s\<lparr>found := [], ScanDone := False, ScanProgress := 0, Dirty := True\<rparr>"

section \<open>The cursor\<close>

definition MoveSelection :: "int \<Rightarrow> int \<Rightarrow> 'a host_list_scheme \<Rightarrow> 'a host_list_scheme" where
  "MoveSelection delta maxRows s =
     (let n = int (length (hosts s));
          i0 = SelectedIdx s + delta;
          i1 = (if i0 < 0 then 0 else i0);
          i = (if i1 \<ge> n then n - 1 else i1);
          o1 = (if i < ScrollOffset s then i else ScrollOffset s);
          o2 = (if i \<ge> o1 + maxRows then i - maxRows + 1 else o1)
      in s\<lparr>Dirty := True, SelectedIdx := i, ScrollOffset := o2\<rparr>)"

definition pick_row :: "int \<Rightarrow> 'a host_list_scheme \<Rightarrow> 'a host_list_scheme" where
  \<comment> \<open>\<open>handleMouseClick\<close> on the list: the row under the pointer is selected\<close>
  "pick_row row s =
     (let i = ScrollOffset s + row
      in if i < 0 \<or> i \<ge> int (length (hosts s)) then s else s\<lparr>SelectedIdx := i\<rparr>)"

definition clear_list :: "'a host_list_scheme \<Rightarrow> 'a host_list_scheme" where
  \<comment> \<open>\<open>saveNetwork\<close>, when the port to scan has changed\<close>
  "clear_list s = s\<lparr>hosts := [], SelectedIdx := 0, ScrollOffset := 0\<rparr>"

section \<open>Endpoints\<close>

definition endpoint :: "host \<Rightarrow> ip \<times> int" where
  "endpoint h = (IP h, host_port h)"

lemma Same_endpoint: "Same x h \<longleftrightarrow> endpoint x = endpoint h"
  by (auto simp: Same_def endpoint_def)

lemma endpoint_update [simp]:
  "endpoint (h\<lparr>Hostname := n\<rparr>) = endpoint h" "host_port (h\<lparr>Hostname := n\<rparr>) = host_port h"
  by (simp_all add: endpoint_def host_port_def)

lemma key_update [simp]: "AddrRDP (h\<lparr>Hostname := n\<rparr>) = AddrRDP h"
  by (simp add: AddrRDP_def)

lemma index_same_None: "index_same h hs = None \<longleftrightarrow> endpoint h \<notin> endpoint ` set hs"
  by (induction hs) (auto simp: Same_endpoint)

lemma index_same_Some:
  "index_same h hs = Some i \<Longrightarrow> i < length hs \<and> endpoint (hs ! i) = endpoint h"
  by (induction hs arbitrary: i) (auto simp: Same_endpoint split: if_splits)

lemma map_endpoint_update:
  "i < length hs \<Longrightarrow> endpoint h = endpoint (hs ! i) \<Longrightarrow> map endpoint (hs[i := h]) = map endpoint hs"
  by (simp add: map_update list_update_same_conv)

lemma found_in_endpoints:
  "map endpoint (found_in h hs) = (if endpoint h \<in> endpoint ` set hs then map endpoint hs else map endpoint hs @ [endpoint h])"
proof (cases "index_same h hs")
  case None
  then show ?thesis using index_same_None [of h hs] by (auto simp: found_in_def)
next
  case (Some i)
  then have i: "i < length hs" "endpoint (hs ! i) = endpoint h"
    using index_same_Some by auto
  then have "endpoint h \<in> endpoint ` set hs" by (metis image_eqI nth_mem)
  then show ?thesis
    using Some i map_endpoint_update [of i hs h] map_endpoint_update [of i hs "h\<lparr>Hostname := Hostname (hs ! i)\<rparr>"]
    by (auto simp: found_in_def)
qed

lemma AddHost_spec:
  assumes "AddHost h s = (s', i)"
  shows "map endpoint (hosts s') =
      (if endpoint h \<in> endpoint ` set (hosts s) then map endpoint (hosts s) else map endpoint (hosts s) @ [endpoint h])"
    and "0 \<le> i" "i < int (length (hosts s'))" "endpoint (hosts s' ! nat i) = endpoint h"
    and "SelectedIdx s' = SelectedIdx s" "ScrollOffset s' = ScrollOffset s" "found s' = found s"
    and "set (kept s') = insert (AddrRDP h) (set (kept s))"
proof -
  show "map endpoint (hosts s') =
      (if endpoint h \<in> endpoint ` set (hosts s) then map endpoint (hosts s) else map endpoint (hosts s) @ [endpoint h])"
    "0 \<le> i" "i < int (length (hosts s'))" "endpoint (hosts s' ! nat i) = endpoint h"
    "SelectedIdx s' = SelectedIdx s" "ScrollOffset s' = ScrollOffset s" "found s' = found s"
    "set (kept s') = insert (AddrRDP h) (set (kept s))"
    using assms index_same_None [of h "hosts s"] index_same_Some [of h "hosts s"]
      map_endpoint_update [of "nat i" "hosts s" "(hosts s ! nat i)\<lparr>Hostname := Hostname h\<rparr>"]
    by (auto simp: AddHost_def Let_def split: option.splits if_splits)
qed

section \<open>The cursor stays in the list\<close>

definition list_ok :: "'a host_list_scheme \<Rightarrow> bool" where
  "list_ok s \<longleftrightarrow> distinct (map endpoint (hosts s)) \<and>
     -1 \<le> SelectedIdx s \<and> SelectedIdx s \<le> max 0 (int (length (hosts s)) - 1) \<and>
     -1 \<le> ScrollOffset s \<and> ScrollOffset s \<le> max 0 (int (length (hosts s)) - 1)"

definition drop_loop :: "(host \<Rightarrow> bool) \<Rightarrow> string \<Rightarrow> int \<Rightarrow> host list \<Rightarrow> host list \<times> int" where
  \<comment> \<open>the loop of \<open>dropUnfound\<close>\<close>
  "drop_loop P cur sel0 hs =
     foldl (\<lambda>(ks, sel) h. if P h then (ks @ [h], if AddrRDP h = cur then int (length ks) else sel) else (ks, sel))
       ([], sel0) hs"

lemma drop_loop_snoc:
  "drop_loop P cur sel0 (hs @ [h]) =
     (let (ks, sel) = drop_loop P cur sel0 hs
      in if P h then (ks @ [h], if AddrRDP h = cur then int (length ks) else sel) else (ks, sel))"
  by (simp add: drop_loop_def Let_def split_def)

lemma drop_loop_hosts [simp]: "fst (drop_loop P cur sel0 hs) = filter P hs"
  by (induction hs rule: rev_induct) (auto simp: drop_loop_snoc drop_loop_def Let_def split_def)

lemma drop_loop_cursor:
  "(snd (drop_loop P cur sel0 hs) = sel0 \<and> (\<forall>h \<in> set (filter P hs). AddrRDP h \<noteq> cur)) \<or>
   (\<exists>i < length (filter P hs). snd (drop_loop P cur sel0 hs) = int i \<and> AddrRDP (filter P hs ! i) = cur)"
proof (induction hs rule: rev_induct)
  case (snoc h hs)
  then show ?case
    using drop_loop_hosts [of P cur sel0 hs]
    by (cases "P h"; cases "AddrRDP h = cur")
      (auto simp: drop_loop_snoc Let_def split_def nth_append intro: less_SucI)
qed (simp add: drop_loop_def)

lemma dropUnfound_loop:
  "dropUnfound s =
     (let cur = (case SelectedHost s of None \<Rightarrow> [] | Some h \<Rightarrow> AddrRDP h);
          (hs, sel) = drop_loop (stays s) cur (SelectedIdx s) (hosts s);
          sel' = clampInt sel 0 (max (int (length hs) - 1) 0)
      in s\<lparr>hosts := hs, found := [], SelectedIdx := sel', ScrollOffset := clampInt (ScrollOffset s) 0 sel'\<rparr>)"
  by (simp add: dropUnfound_def drop_loop_def)

lemma dropUnfound_hosts: "hosts (dropUnfound s) = filter (stays s) (hosts s)"
  and dropUnfound_frame: "kept (dropUnfound s) = kept s" "found (dropUnfound s) = []"
  by (simp_all add: dropUnfound_loop Let_def split_def)

lemma distinct_filter_endpoint: "distinct (map endpoint hs) \<Longrightarrow> distinct (map endpoint (filter P hs))"
  by (induction hs) auto

lemma dropUnfound_ok: "list_ok s \<Longrightarrow> list_ok (dropUnfound s) \<and> 0 \<le> ScrollOffset (dropUnfound s) \<and>
    0 \<le> SelectedIdx (dropUnfound s) \<and> ScrollOffset (dropUnfound s) \<le> SelectedIdx (dropUnfound s)"
  by (auto simp: list_ok_def dropUnfound_loop clampInt_def Let_def split_def distinct_filter_endpoint)

lemma list_ok_frame [simp]:
  "list_ok (s\<lparr>Dirty := b\<rparr>) = list_ok s" "list_ok (s\<lparr>kept := k\<rparr>) = list_ok s" "list_ok (s\<lparr>found := k\<rparr>) = list_ok s"
  "list_ok (s\<lparr>ScanProgress := p\<rparr>) = list_ok s" "list_ok (s\<lparr>ScanDone := b\<rparr>) = list_ok s"
  by (simp_all add: list_ok_def)

lemma more_hosts_ok:
  assumes "list_ok s" "distinct (map endpoint hs)" "length (hosts s) \<le> length hs"
  shows "list_ok (s\<lparr>hosts := hs\<rparr>)"
  using assms by (auto simp: list_ok_def)

lemma found_in_ok:
  assumes "list_ok s" shows "list_ok (s\<lparr>hosts := found_in h (hosts s)\<rparr>)"
proof (rule more_hosts_ok [OF assms])
  have e: "map endpoint (found_in h (hosts s)) =
      (if endpoint h \<in> endpoint ` set (hosts s) then map endpoint (hosts s) else map endpoint (hosts s) @ [endpoint h])"
    by (rule found_in_endpoints)
  show "distinct (map endpoint (found_in h (hosts s)))"
    using assms unfolding e by (auto simp: list_ok_def)
  have "length (map endpoint (hosts s)) \<le> length (map endpoint (found_in h (hosts s)))"
    unfolding e by simp
  then show "length (hosts s) \<le> length (found_in h (hosts s))" by simp
qed

lemma HandleScanEvent_ok: "list_ok s \<Longrightarrow> list_ok (HandleScanEvent ev s)"
proof -
  assume ok: "list_ok s"
  have "list_ok (s\<lparr>Dirty := True, hosts := found_in h (hosts s), found := fs\<rparr>)" for h fs
    using found_in_ok [OF ok, of h] by (simp add: list_ok_def)
  then show ?thesis
    using ok dropUnfound_ok [of "s\<lparr>Dirty := True, ScanProgress := 1, ScanDone := True\<rparr>"]
    by (auto simp: HandleScanEvent_def Let_def split: scan_event_type.split option.split)
qed

lemma AddHost_ok:
  assumes "list_ok s" "AddHost h s = (s', i)"
  shows "list_ok s'" "list_ok (s'\<lparr>SelectedIdx := i\<rparr>)"
proof -
  note spec = AddHost_spec [OF assms(2)]
  have "length (map endpoint (hosts s)) \<le> length (map endpoint (hosts s'))"
    unfolding spec(1) by simp
  moreover have "distinct (map endpoint (hosts s'))"
    using assms(1) unfolding spec(1) by (auto simp: list_ok_def)
  ultimately show "list_ok s'" "list_ok (s'\<lparr>SelectedIdx := i\<rparr>)"
    using assms(1) spec(2,3,5,6) by (auto simp: list_ok_def)
qed

lemma MoveSelection_ok: "list_ok s \<Longrightarrow> 0 < rows \<Longrightarrow> list_ok (MoveSelection d rows s)"
  by (cases "hosts s") (auto simp: list_ok_def MoveSelection_def Let_def)

lemma pick_row_ok: "list_ok s \<Longrightarrow> list_ok (pick_row row s)"
  by (auto simp: list_ok_def pick_row_def Let_def)

lemma clear_list_ok: "list_ok (clear_list s)"
  by (simp add: list_ok_def clear_list_def)

lemma visible_ok: "list_ok s \<Longrightarrow> 0 \<le> rows \<Longrightarrow> \<exists>hs. VisibleHosts rows s = Some hs"
  by (auto simp: list_ok_def VisibleHosts_def Let_def)

datatype list_op = Scanning scan_event | Typed host | Row int | Step int | Again | Emptied
  \<comment> \<open>a scan event, a host typed in and connected to, a click, a cursor key or the wheel, F5, a new port\<close>

fun list_step :: "int \<Rightarrow> list_op \<Rightarrow> 'a host_list_scheme \<Rightarrow> 'a host_list_scheme" where
  "list_step rows (Scanning ev) s = HandleScanEvent ev s"
| "list_step rows (Typed h) s = (let (s', i) = AddHost h s in s'\<lparr>SelectedIdx := i\<rparr>)"
| "list_step rows (Row r) s = pick_row r s"
| "list_step rows (Step d) s = MoveSelection d rows s"
| "list_step rows Again s = Rescan s"
| "list_step rows Emptied s = clear_list s"

lemma list_step_ok: "list_ok s \<Longrightarrow> 0 < rows \<Longrightarrow> list_ok (list_step rows p s)"
  by (cases p) (auto simp: HandleScanEvent_ok MoveSelection_ok pick_row_ok clear_list_ok Rescan_def
      intro: AddHost_ok split: prod.split)

lemma list_run_ok: "list_ok s \<Longrightarrow> 0 < rows \<Longrightarrow> list_ok (fold (list_step rows) ps s)"
  by (induction ps arbitrary: s) (auto simp: list_step_ok)

definition empty_list :: host_list where
  \<comment> \<open>the list part of a new \<open>UIState\<close>\<close>
  "empty_list = \<lparr>Dirty = False, hosts = [], found = [], kept = [], SelectedIdx = 0, ScrollOffset = 0,
     ScanProgress = 0, ScanDone = False\<rparr>"

lemma moved_visible:
  assumes ok: "list_ok s" and rows: "0 < rows" and some: "hosts s \<noteq> []"
  shows "\<exists>h hs. SelectedHost (MoveSelection d rows s) = Some h \<and> VisibleHosts rows (MoveSelection d rows s) = Some hs \<and> h \<in> set hs"
proof -
  define t where "t = MoveSelection d rows s"
  have h: "hosts t = hosts s" by (simp add: t_def MoveSelection_def Let_def)
  have pos: "0 < int (length (hosts s))" using some by simp
  then have sel: "0 \<le> SelectedIdx t" "SelectedIdx t < int (length (hosts s))"
    "ScrollOffset t \<le> SelectedIdx t" "SelectedIdx t < ScrollOffset t + rows" "-1 \<le> ScrollOffset t"
    using ok rows by (auto simp: t_def MoveSelection_def list_ok_def Let_def)
  define a b where "a = nat (if ScrollOffset t < 0 then 0 else ScrollOffset t)"
    and "b = nat (SelectedIdx t)"
  have ab: "a \<le> b" "b < length (hosts s)" using sel by (auto simp: a_def b_def)
  obtain k where k: "VisibleHosts rows t = Some (take k (drop a (hosts s)))" "b - a < k"
  proof -
    have "VisibleHosts rows t = Some (take (nat (min (int a + rows) (int (length (hosts s))) - int a)) (drop a (hosts s)))"
      using some sel ab by (auto simp: VisibleHosts_def h Let_def a_def min_def)
    moreover have "b - a < nat (min (int a + rows) (int (length (hosts s))) - int a)"
      using sel ab by (auto simp: a_def b_def)
    ultimately show ?thesis using that by blast
  qed
  have "take k (drop a (hosts s)) ! (b - a) = hosts s ! b" "b - a < length (take k (drop a (hosts s)))"
    using ab k(2) by auto
  then have "hosts s ! b \<in> set (take k (drop a (hosts s)))" by (metis nth_mem)
  moreover have "SelectedHost t = Some (hosts s ! b)"
    using some sel pos by (auto simp: SelectedHost_def h Let_def b_def)
  ultimately show ?thesis using k(1) by (auto simp: t_def)
qed

text \<open>C22. The list can always be drawn and its cursor never gets lost: after any
  order of scan events, hosts typed in, clicks, cursor keys, rescans and changes of
  port, slicing out the visible rows does not panic for any number of them, no
  endpoint has two rows, there is a selected host exactly when there are hosts, and
  a cursor key brings the selected host into the rows shown.\<close>

theorem cursor_in_range:
  assumes "0 < rows"
  shows "let s = fold (list_step rows) ps empty_list
    in (\<forall>n \<ge> 0. VisibleHosts n s \<noteq> None) \<and> distinct (map endpoint (hosts s)) \<and>
       (SelectedHost s = None \<longleftrightarrow> hosts s = []) \<and>
       (hosts s \<noteq> [] \<longrightarrow> (\<exists>h hs. SelectedHost (MoveSelection d rows s) = Some h \<and>
          VisibleHosts rows (MoveSelection d rows s) = Some hs \<and> h \<in> set hs))"
proof -
  let ?s = "fold (list_step rows) ps empty_list"
  have ok: "list_ok ?s"
    by (rule list_run_ok [OF _ assms]) (simp add: list_ok_def empty_list_def)
  then have "\<forall>n \<ge> 0. VisibleHosts n ?s \<noteq> None" using visible_ok by fastforce
  then show ?thesis
    using ok moved_visible [OF ok assms] by (simp add: Let_def list_ok_def SelectedHost_def)
qed

definition named_host :: "u32 \<Rightarrow> string \<Rightarrow> host" where
  \<comment> \<open>for the examples\<close>
  "named_host w name = \<lparr>IP = IP4 w, Hostname = name, Port = 0, LatencyMs = 1, DiscoveredAt = 0\<rparr>"

theorem cursor_in_range_witness:
  "let s = fold (list_step 2) [Typed (named_host 1 ''a''), Typed (named_host 2 ''b''), Typed (named_host 3 ''c'')] empty_list
   in VisibleHosts 2 s \<noteq> None \<and>
      (\<exists>h hs. SelectedHost (MoveSelection 1 2 s) = Some h \<and> VisibleHosts 2 (MoveSelection 1 2 s) = Some hs \<and> h \<in> set hs)"
proof -
  let ?ps = "[Typed (named_host 1 ''a''), Typed (named_host 2 ''b''), Typed (named_host 3 ''c'')]"
  have "hosts (fold (list_step 2) ?ps empty_list) \<noteq> []"
    by (simp add: AddHost_def empty_list_def named_host_def Same_def Let_def)
  then show ?thesis
    using cursor_in_range [of 2 ?ps 1] by (simp add: Let_def)
qed

text \<open>While the list is empty a cursor key leaves the cursor and the window at
  \<open>-1\<close>. The window only goes back to 0 when the scan ends; until then a click on
  a row picks the host of the row above.\<close>

lemma row_off_by_one:
  "let s = fold (list_step 5) [Step 1, Scanning (event EventHostFound (Some (named_host 1 ''a'')) 0 0),
       Scanning (event EventHostFound (Some (named_host 2 ''b'')) 0 0)] empty_list
   in VisibleHosts 5 s = Some [named_host 1 ''a'', named_host 2 ''b''] \<and>
      SelectedHost (pick_row 1 s) = Some (named_host 1 ''a'')"
  by (simp add: Let_def MoveSelection_def HandleScanEvent_def event_def found_in_def empty_list_def named_host_def Same_def VisibleHosts_def
      pick_row_def SelectedHost_def)

section \<open>What a whole scan leaves\<close>

definition finds :: "scan_event list \<Rightarrow> host list" where
  "finds es = List.map_filter (\<lambda>e. if ev_type e = EventHostFound then ev_host e else None) es"

definition run_events :: "scan_event list \<Rightarrow> 'a host_list_scheme \<Rightarrow> 'a host_list_scheme" where
  "run_events = fold HandleScanEvent"

definition endpoint_addr :: "ip \<times> int \<Rightarrow> string" where
  "endpoint_addr e = JoinHostPort (ip_string (fst e)) (itoa (snd e))"

lemma key_endpoint: "AddrRDP h = endpoint_addr (endpoint h)"
  by (simp add: endpoint_addr_def endpoint_def AddrRDP_def)

lemma endpoint_key: "endpoint x = endpoint y \<Longrightarrow> AddrRDP x = AddrRDP y"
  by (simp add: key_endpoint)

lemma ip4_key: "ip4_host x \<Longrightarrow> ip4_host y \<Longrightarrow> AddrRDP x = AddrRDP y \<longleftrightarrow> endpoint x = endpoint y"
  using same_key [of x y] by (simp add: Same_endpoint)

lemma found_in_members: "x \<in> set (found_in h hs) \<Longrightarrow> x \<in> set hs \<or> x = h \<or> (\<exists>n. x = h\<lparr>Hostname := n\<rparr>)"
  using set_update_subset_insert [of hs] by (fastforce simp: found_in_def split: option.splits if_splits)

lemma ip4_rename [simp]: "ip4_host (h\<lparr>Hostname := n\<rparr>) = ip4_host h"
  by (simp add: ip4_host_def)

lemma found_event:
  assumes "list_all (\<lambda>e. ev_type e \<noteq> EventScanComplete) es"
  shows "\<exists>more. map endpoint (hosts (run_events es s)) = map endpoint (hosts s) @ more \<and>
      set more \<subseteq> endpoint ` set (finds es)"
    and "endpoint ` set (hosts (run_events es s)) = endpoint ` set (hosts s) \<union> endpoint ` set (finds es)"
    and "set (found (run_events es s)) = set (found s) \<union> AddrRDP ` set (finds es)"
    and "kept (run_events es s) = kept s" "SelectedIdx (run_events es s) = SelectedIdx s"
    and "\<forall>h \<in> set (hosts s) \<union> set (finds es). ip4_host h \<Longrightarrow> \<forall>h \<in> set (hosts (run_events es s)). ip4_host h"
proof -
  have "(\<exists>more. map endpoint (hosts (run_events es s)) = map endpoint (hosts s) @ more \<and>
      set more \<subseteq> endpoint ` set (finds es)) \<and>
    endpoint ` set (hosts (run_events es s)) = endpoint ` set (hosts s) \<union> endpoint ` set (finds es) \<and>
    set (found (run_events es s)) = set (found s) \<union> AddrRDP ` set (finds es) \<and>
    kept (run_events es s) = kept s \<and> SelectedIdx (run_events es s) = SelectedIdx s \<and>
    ((\<forall>h \<in> set (hosts s) \<union> set (finds es). ip4_host h) \<longrightarrow> (\<forall>h \<in> set (hosts (run_events es s)). ip4_host h))"
    using assms
  proof (induction es rule: rev_induct)
    case (snoc e es)
    let ?t = "run_events es s"
    have run: "run_events (es @ [e]) s = HandleScanEvent e ?t" by (simp add: run_events_def)
    show ?case
    proof (cases "ev_type e = EventHostFound \<and> ev_host e \<noteq> None")
      case True
      then obtain h where e: "ev_type e = EventHostFound" "ev_host e = Some h" by auto
      have t: "HandleScanEvent e ?t = ?t\<lparr>Dirty := True, hosts := found_in h (hosts ?t), found := List.insert (AddrRDP h) (found ?t)\<rparr>"
        using e by (simp add: HandleScanEvent_def Let_def)
      have f: "finds (es @ [e]) = finds es @ [h]" using e by (simp add: finds_def List.map_filter_def)
      note ends = found_in_endpoints [of h "hosts ?t"]
      have img: "endpoint ` set (found_in h (hosts ?t)) = insert (endpoint h) (endpoint ` set (hosts ?t))"
        using arg_cong [OF ends, of set] by (auto split: if_splits)
      show ?thesis
        using snoc found_in_members [of _ h "hosts ?t"] unfolding run t f by (auto simp: ends img) fastforce+
    next
      case False
      then have f: "finds (es @ [e]) = finds es" by (auto simp: finds_def List.map_filter_def)
      have "hosts (HandleScanEvent e ?t) = hosts ?t" "found (HandleScanEvent e ?t) = found ?t"
        "kept (HandleScanEvent e ?t) = kept ?t" "SelectedIdx (HandleScanEvent e ?t) = SelectedIdx ?t"
        using False snoc.prems by (cases "ev_type e"; auto simp: HandleScanEvent_def Let_def)+
      then show ?thesis using snoc by (simp add: run f)
    qed
  qed (simp add: run_events_def finds_def List.map_filter_def)
  then show "\<exists>more. map endpoint (hosts (run_events es s)) = map endpoint (hosts s) @ more \<and>
      set more \<subseteq> endpoint ` set (finds es)"
    "endpoint ` set (hosts (run_events es s)) = endpoint ` set (hosts s) \<union> endpoint ` set (finds es)"
    "set (found (run_events es s)) = set (found s) \<union> AddrRDP ` set (finds es)"
    "kept (run_events es s) = kept s" "SelectedIdx (run_events es s) = SelectedIdx s"
    "\<forall>h \<in> set (hosts s) \<union> set (finds es). ip4_host h \<Longrightarrow> \<forall>h \<in> set (hosts (run_events es s)). ip4_host h"
    by auto
qed

lemma selected_at:
  assumes "list_ok s" "hosts s \<noteq> []"
  shows "SelectedHost s = Some (hosts s ! nat (SelectedIdx s))" "nat (SelectedIdx s) < length (hosts s)"
proof -
  have "0 < length (hosts s)" "SelectedIdx s \<le> max 0 (int (length (hosts s)) - 1)"
    using assms by (simp_all add: list_ok_def)
  then show "nat (SelectedIdx s) < length (hosts s)" by arith
  then show "SelectedHost s = Some (hosts s ! nat (SelectedIdx s))"
    using assms by (auto simp: SelectedHost_def list_ok_def Let_def)
qed

lemma drop_keeps_cursor:
  assumes ok: "list_ok s" and sel: "SelectedHost s = Some h" and stay: "stays s h"
    and ip4: "\<forall>x \<in> set (hosts s). ip4_host x"
  shows "\<exists>h'. SelectedHost (dropUnfound s) = Some h' \<and> endpoint h' = endpoint h"
proof -
  let ?d = "drop_loop (stays s) (AddrRDP h) (SelectedIdx s) (hosts s)" and ?ks = "filter (stays s) (hosts s)"
  have ne: "hosts s \<noteq> []" using sel by (auto simp: SelectedHost_def Let_def split: if_splits)
  then have h: "h \<in> set (hosts s)" using selected_at [OF ok ne] sel by (metis nth_mem option.inject)
  then have "h \<in> set ?ks" using stay by simp
  then obtain i where i: "i < length ?ks" "snd ?d = int i" "AddrRDP (?ks ! i) = AddrRDP h"
    using drop_loop_cursor [of "stays s" "AddrRDP h" "SelectedIdx s" "hosts s"] by blast
  have "?ks ! i \<in> set (hosts s)" using nth_mem [OF i(1)] by simp
  then have e: "endpoint (?ks ! i) = endpoint h" using i(3) h ip4 ip4_key by blast
  have t: "hosts (dropUnfound s) = ?ks" "SelectedIdx (dropUnfound s) = int i"
    using i sel by (auto simp: dropUnfound_loop Let_def split_def clampInt_def)
  have "SelectedHost (dropUnfound s) = Some (?ks ! i)"
    using i(1) by (simp add: SelectedHost_def t Let_def) (auto simp: SelectedHost_def t Let_def)
  then show ?thesis using e by blast
qed

lemma scan_events_shape:
  assumes "scan_step net m s = Some s'"
    and "\<not> finished s \<Longrightarrow> list_all (\<lambda>e. ev_type e \<noteq> EventScanComplete) (sent_events s)"
    and "finished s \<Longrightarrow> \<exists>es. sent_events s = es @ [event EventScanComplete None (scan_total s) (scan_total s)] \<and>
      list_all (\<lambda>e. ev_type e \<noteq> EventScanComplete) es"
    and "scan_ok net ips s"
    and "list_all (\<lambda>e. ev_type e = EventHostFound \<longleftrightarrow> ev_host e \<noteq> None) (sent_events s)"
  shows "\<not> finished s' \<Longrightarrow> list_all (\<lambda>e. ev_type e \<noteq> EventScanComplete) (sent_events s')"
    and "finished s' \<Longrightarrow> \<exists>es. sent_events s' = es @ [event EventScanComplete None (scan_total s') (scan_total s')] \<and>
      list_all (\<lambda>e. ev_type e \<noteq> EventScanComplete) es"
    and "list_all (\<lambda>e. ev_type e = EventHostFound \<longleftrightarrow> ev_host e \<noteq> None) (sent_events s')"
proof -
  have fin: "finished s \<Longrightarrow> probing s = []" using assms(4) by (simp add: scan_ok_def)
  show "\<not> finished s' \<Longrightarrow> list_all (\<lambda>e. ev_type e \<noteq> EventScanComplete) (sent_events s')"
    using assms fin by (cases m) (auto simp: probe_ends_def event_def Let_def split: if_splits option.splits)
  show "finished s' \<Longrightarrow> \<exists>es. sent_events s' = es @ [event EventScanComplete None (scan_total s') (scan_total s')] \<and>
      list_all (\<lambda>e. ev_type e \<noteq> EventScanComplete) es"
    using assms fin by (cases m) (auto simp: event_def split: if_splits)
  show "list_all (\<lambda>e. ev_type e = EventHostFound \<longleftrightarrow> ev_host e \<noteq> None) (sent_events s')"
    using assms(1,5) by (cases m) (auto simp: probe_ends_def event_def Let_def split: if_splits option.splits)
qed

lemma scan_events_end:
  assumes "scan_run net ms s = Some s'" "scan_ok net ips s" "\<not> finished s" "sent_events s = []" "finished s'"
  shows "\<exists>es. sent_events s' = es @ [event EventScanComplete None (scan_total s') (scan_total s')] \<and>
      list_all (\<lambda>e. ev_type e \<noteq> EventScanComplete) es \<and> finds es = reported s'"
proof -
  have "(\<not> finished s' \<longrightarrow> list_all (\<lambda>e. ev_type e \<noteq> EventScanComplete) (sent_events s')) \<and>
    (finished s' \<longrightarrow> (\<exists>es. sent_events s' = es @ [event EventScanComplete None (scan_total s') (scan_total s')] \<and>
      list_all (\<lambda>e. ev_type e \<noteq> EventScanComplete) es)) \<and>
    list_all (\<lambda>e. ev_type e = EventHostFound \<longleftrightarrow> ev_host e \<noteq> None) (sent_events s')"
    if "scan_run net ms s = Some s'" "scan_ok net ips s"
      "\<not> finished s \<longrightarrow> list_all (\<lambda>e. ev_type e \<noteq> EventScanComplete) (sent_events s)"
      "finished s \<longrightarrow> (\<exists>es. sent_events s = es @ [event EventScanComplete None (scan_total s) (scan_total s)] \<and>
        list_all (\<lambda>e. ev_type e \<noteq> EventScanComplete) es)"
      "list_all (\<lambda>e. ev_type e = EventHostFound \<longleftrightarrow> ev_host e \<noteq> None) (sent_events s)" for s
    using that
  proof (induction ms arbitrary: s)
    case (Cons m ms)
    then obtain t where t: "scan_step net m s = Some t" "scan_run net ms t = Some s'"
      by (auto split: option.splits)
    note sh = scan_events_shape [OF t(1) _ _ Cons.prems(2,5)]
    show ?case
      using Cons.IH [OF t(2) scan_step_ok [OF Cons.prems(2) t(1)]] sh Cons.prems by blast
  qed simp
  from this [OF assms(1,2)] assms obtain es where es:
    "sent_events s' = es @ [event EventScanComplete None (scan_total s') (scan_total s')]"
    "list_all (\<lambda>e. ev_type e \<noteq> EventScanComplete) es"
    "list_all (\<lambda>e. ev_type e = EventHostFound \<longleftrightarrow> ev_host e \<noteq> None) es"
    by auto
  have "finds es = List.map_filter ev_host es"
    using es(3) by (induction es) (auto simp: finds_def List.map_filter_def)
  moreover have "reported s' = List.map_filter ev_host es"
    by (simp add: reported_def es(1) map_filter_append) (simp add: List.map_filter_def event_def)
  ultimately show ?thesis using es by auto
qed

definition scan_endpoint :: "scan_state \<Rightarrow> u32 \<Rightarrow> ip \<times> int" where
  \<comment> \<open>where a server found at an address answers\<close>
  "scan_endpoint s w = (IP4 w, if scan_port s = 0 then DefaultRDPPort else scan_port s)"

lemma reported_endpoints:
  assumes "list_all (\<lambda>h. Port h = scan_port s) hs" "mset (map IP hs) = answering net ws"
  shows "endpoint ` set hs = scan_endpoint s ` {w \<in> set ws. net w \<noteq> None}"
proof -
  have ips: "IP ` set hs = IP4 ` {w \<in> set ws. net w \<noteq> None}"
    using arg_cong [OF assms(2), of set_mset] by (auto simp: answering_def)
  have "endpoint h = (IP h, snd (scan_endpoint s 0))" if "h \<in> set hs" for h
    using assms(1) that by (auto simp: endpoint_def host_port_def scan_endpoint_def list_all_iff)
  then have "endpoint ` set hs = (\<lambda>a. (a, snd (scan_endpoint s 0))) ` (IP ` set hs)"
    by (auto simp: image_iff intro!: bexI)
  also have "\<dots> = scan_endpoint s ` {w \<in> set ws. net w \<noteq> None}"
    unfolding ips by (auto simp: scan_endpoint_def)
  finally show ?thesis .
qed

text \<open>The state as the scan's last event finds it: \<open>es\<close> are the events before.\<close>

definition before_end :: "scan_event list \<Rightarrow> 'a host_list_scheme \<Rightarrow> 'a host_list_scheme" where
  "before_end es l = (run_events es (Rescan l))\<lparr>Dirty := True, ScanProgress := 1, ScanDone := True\<rparr>"

lemma run_to_end: "run_events (es @ [event EventScanComplete None n n]) (Rescan l) = dropUnfound (before_end es l)"
  by (simp add: run_events_def before_end_def HandleScanEvent_def event_def Let_def)

lemma before_end_ok: "list_ok l \<Longrightarrow> list_ok (before_end es l)"
  unfolding before_end_def run_events_def list_ok_frame
  by (rule fold_invariant [where Q = "\<lambda>_. True" and P = list_ok]) (auto simp: HandleScanEvent_ok Rescan_def)

lemma before_end_spec:
  assumes es: "list_all (\<lambda>e. ev_type e \<noteq> EventScanComplete) es"
    and ip4: "\<forall>h \<in> set (hosts l) \<union> set (finds es). ip4_host h"
  shows "endpoint ` set (hosts (before_end es l)) = endpoint ` set (hosts l) \<union> endpoint ` set (finds es)"
    and "\<exists>more. map endpoint (hosts (before_end es l)) = map endpoint (hosts l) @ more"
    and "SelectedIdx (before_end es l) = SelectedIdx l"
    and "\<forall>h \<in> set (hosts (before_end es l)). ip4_host h"
    and "ip4_host h \<Longrightarrow>
      stays (before_end es l) h \<longleftrightarrow> endpoint h \<in> endpoint ` set (finds es) \<or> AddrRDP h \<in> set (kept l)"
proof -
  note ev = found_event [OF es, of "Rescan l"]
  have l0: "hosts (Rescan l) = hosts l" "kept (Rescan l) = kept l" "found (Rescan l) = []"
    "SelectedIdx (Rescan l) = SelectedIdx l"
    by (simp_all add: Rescan_def)
  show "endpoint ` set (hosts (before_end es l)) = endpoint ` set (hosts l) \<union> endpoint ` set (finds es)"
    "\<exists>more. map endpoint (hosts (before_end es l)) = map endpoint (hosts l) @ more"
    "SelectedIdx (before_end es l) = SelectedIdx l"
    using ev(1,2,5) by (auto simp: before_end_def l0)
  show "\<forall>h \<in> set (hosts (before_end es l)). ip4_host h"
    using ev(6) [unfolded l0, OF ip4] by (simp add: before_end_def)
  show "stays (before_end es l) h \<longleftrightarrow> endpoint h \<in> endpoint ` set (finds es) \<or> AddrRDP h \<in> set (kept l)"
    if "ip4_host h"
    using ev(3,4) ip4 ip4_key [OF that] by (auto simp: stays_def before_end_def l0 image_iff)
qed

lemma rescan_set:
  assumes es: "list_all (\<lambda>e. ev_type e \<noteq> EventScanComplete) es"
    and ip4: "\<forall>h \<in> set (hosts l) \<union> set (finds es). ip4_host h"
  shows "endpoint ` set (hosts (dropUnfound (before_end es l))) = endpoint ` set (finds es) \<union>
      endpoint ` {h \<in> set (hosts l). AddrRDP h \<in> set (kept l)}" (is "?A = ?B")
proof -
  note sp = before_end_spec [OF es ip4]
  have k: "stays (before_end es l) h \<longleftrightarrow>
      endpoint h \<in> endpoint ` set (finds es) \<or> endpoint_addr (endpoint h) \<in> set (kept l)"
    if "h \<in> set (hosts (before_end es l))" for h
    using sp(4,5) that by (simp add: key_endpoint)
  have "?A = {e \<in> endpoint ` set (hosts (before_end es l)). e \<in> endpoint ` set (finds es) \<or> endpoint_addr e \<in> set (kept l)}"
  proof -
    have f: "set (hosts (dropUnfound (before_end es l))) = {h \<in> set (hosts (before_end es l)).
        endpoint h \<in> endpoint ` set (finds es) \<or> endpoint_addr (endpoint h) \<in> set (kept l)}"
      using k by (auto simp: dropUnfound_hosts)
    show ?thesis unfolding f by blast
  qed
  also have "\<dots> = ?B"
    unfolding sp(1) by (auto simp: key_endpoint)
  finally show ?thesis .
qed

lemma rescan_cursor:
  assumes es: "list_all (\<lambda>e. ev_type e \<noteq> EventScanComplete) es"
    and ip4: "\<forall>h \<in> set (hosts l) \<union> set (finds es). ip4_host h" and ok: "list_ok l"
    and h: "SelectedHost l = Some h" "endpoint h \<in> endpoint ` set (hosts (dropUnfound (before_end es l)))"
  shows "\<exists>h'. SelectedHost (dropUnfound (before_end es l)) = Some h' \<and> endpoint h' = endpoint h"
proof -
  let ?t = "before_end es l"
  note sp = before_end_spec [OF es ip4] and ok1 = before_end_ok [OF ok, of es]
  have ne: "hosts l \<noteq> []" using h(1) by (auto simp: SelectedHost_def Let_def split: if_splits)
  note i = selected_at [OF ok ne]
  obtain more where more: "map endpoint (hosts ?t) = map endpoint (hosts l) @ more" using sp(2) by auto
  then have ne1: "hosts ?t \<noteq> []" using ne by auto
  have len: "nat (SelectedIdx l) < length (hosts ?t)"
    using i(2) arg_cong [OF more, of length] by simp
  then have "endpoint (hosts ?t ! nat (SelectedIdx l)) = endpoint (hosts l ! nat (SelectedIdx l))"
    using arg_cong [OF more, of "\<lambda>xs. xs ! nat (SelectedIdx l)"] i(2) by (simp add: nth_append)
  then have sel: "SelectedHost ?t = Some (hosts ?t ! nat (SelectedIdx l))"
    "endpoint (hosts ?t ! nat (SelectedIdx l)) = endpoint h"
    using selected_at [OF ok1 ne1] i(1) h(1) sp(3) by auto
  obtain x where x: "stays ?t x" "endpoint x = endpoint h" using h(2) by (auto simp: dropUnfound_hosts)
  then have "stays ?t (hosts ?t ! nat (SelectedIdx l))"
    using endpoint_key [of x "hosts ?t ! nat (SelectedIdx l)"] sel(2) by (simp add: stays_def)
  then show ?thesis using drop_keeps_cursor [OF ok1 sel(1) _ sp(4)] sel(2) by simp
qed

text \<open>C21. After a scan the list holds what it should and the user keeps their
  place. When a rescan that is not cancelled has run to its end, in whatever order
  its probes ended, the list holds exactly the servers that answered on the port
  scanned and, of those in it before, the ones typed in, saved or configured; no
  endpoint is there twice, and the cursor is still on the host it was on if that
  host is still there.\<close>

theorem list_shows_servers:
  assumes start: "scan_start conc before cidrs port = Some s0" and port: "0 \<le> port" "port \<le> 65535"
    and run: "scan_run net ms s0 = Some s" "Cancel \<notin> set ms" "finished s"
    and l: "list_ok l" "\<forall>h \<in> set (hosts l). ip4_host h"
  shows "let t = run_events (sent_events s) (Rescan l)
    in endpoint ` set (hosts t) = scan_endpoint s0 ` {w \<in> set (todo s0). net w \<noteq> None} \<union>
         endpoint ` {h \<in> set (hosts l). AddrRDP h \<in> set (kept l)} \<and>
       distinct (map endpoint (hosts t)) \<and>
       (\<forall>h. SelectedHost l = Some h \<and> endpoint h \<in> endpoint ` set (hosts t) \<longrightarrow>
          (\<exists>h'. SelectedHost t = Some h' \<and> endpoint h' = endpoint h))"
proof -
  have s0: "\<not> finished s0" "sent_events s0 = []" "scan_port s0 = (if port = DefaultRDPPort then 0 else port)"
    using start by (auto simp: scan_start_def)
  obtain es where es: "sent_events s = es @ [event EventScanComplete None (scan_total s) (scan_total s)]"
    "list_all (\<lambda>e. ev_type e \<noteq> EventScanComplete) es" "finds es = reported s"
    using scan_events_end [OF run(1) scan_start_ok [OF start] s0(1,2) run(3)] by blast
  note ok = scan_run_ok [OF scan_start_ok [OF start] run(1)]
  note fr = scan_run_frame [OF run(1,2)]
  have rep: "list_all (\<lambda>h. Port h = scan_port s0) (reported s)" "mset (map IP (reported s)) = answering net (todo s0)"
    using ok fr run(3) start by (auto simp: scan_ok_def scan_start_def)
  have "ip4_host h" if "h \<in> set (finds es)" for h
  proof -
    have "IP h \<in># answering net (todo s0)" "Port h = scan_port s0"
      using rep that unfolding es(3) by (auto simp: list_all_iff simp flip: rep(2))
    then show "ip4_host h" using port s0(3) by (auto simp: answering_def ip4_host_def)
  qed
  then have ip4: "\<forall>h \<in> set (hosts l) \<union> set (finds es). ip4_host h" using l(2) by auto
  have t: "run_events (sent_events s) (Rescan l) = dropUnfound (before_end es l)"
    by (simp add: es(1) run_to_end)
  have fnd: "endpoint ` set (finds es) = scan_endpoint s0 ` {w \<in> set (todo s0). net w \<noteq> None}"
    unfolding es(3) by (rule reported_endpoints [OF rep])
  have "distinct (map endpoint (hosts (dropUnfound (before_end es l))))"
    using dropUnfound_ok [OF before_end_ok [OF l(1)], of es] by (simp add: list_ok_def)
  then show ?thesis
    using rescan_set [OF es(2) ip4] rescan_cursor [OF es(2) ip4 l(1)] by (simp add: t Let_def fnd)
qed

definition old_list :: host_list where
  \<comment> \<open>for the example: a server typed in, and one an earlier scan found, which is selected\<close>
  "old_list = \<lparr>Dirty = False, hosts = [named_host 0x0A000001 ''far'', named_host 0xC0A80109 []], found = [],
     kept = [AddrRDP (named_host 0x0A000001 ''far'')], SelectedIdx = 1, ScrollOffset = 0, ScanProgress = 1, ScanDone = True\<rparr>"

theorem list_shows_servers_witness:
  "\<exists>s. scan_run one_server small_run small_scan = Some s \<and>
     (let t = run_events (sent_events s) (Rescan old_list)
      in endpoint ` set (hosts t) = {(IP4 0xC0A80109, 3389), (IP4 0x0A000001, 3389)} \<and>
         (\<exists>h'. SelectedHost t = Some h' \<and> endpoint h' = (IP4 0xC0A80109, 3389)))"
proof -
  obtain s where s: "scan_run one_server small_run small_scan = Some s" "finished s" "Cancel \<notin> set small_run"
    using small_scan_run by blast
  have ok: "list_ok old_list" "\<forall>h \<in> set (hosts old_list). ip4_host h"
    by (simp_all add: list_ok_def old_list_def named_host_def endpoint_def ip4_host_def)
  have sel: "SelectedHost old_list = Some (named_host 0xC0A80109 [])" by (simp add: old_list_def SelectedHost_def)
  have key: "AddrRDP (named_host 0xC0A80109 []) \<noteq> AddrRDP (named_host 0x0A000001 ''far'')"
    using ip4_key [of "named_host 0xC0A80109 []" "named_host 0x0A000001 ''far''"]
    by (simp add: ip4_host_def named_host_def endpoint_def)
  have "{h \<in> set (hosts old_list). AddrRDP h \<in> set (kept old_list)} = {named_host 0x0A000001 ''far''}"
    using key by (auto simp: old_list_def)
  then show ?thesis
    using list_shows_servers [OF small_scan_start _ _ s(1,3,2) ok] s(1) sel
    by (auto simp: Let_def small_scan_def one_server_def scan_endpoint_def endpoint_def named_host_def host_port_def
        DefaultRDPPort_def)
qed

end
