(* ===== verification/Keyboard.thy ===== *)
theory Keyboard
  imports Prelude GoStrings
begin

text \<open>
  \<open>internal/inputdev/keycodes.go\<close>: what a key types, in each keyboard layout,
  with Shift, Caps Lock and AltGr. A rune is its code point; 0 is no character.
  The active layout is an argument.
\<close>

section \<open>Keys\<close>

definition KeyEsc :: int where "KeyEsc = 1"
definition KeyBackspace :: int where "KeyBackspace = 14"
definition KeyTab :: int where "KeyTab = 15"
definition KeyEnter :: int where "KeyEnter = 28"
definition KeyCtrl :: int where "KeyCtrl = 29"
definition KeyLeftShift :: int where "KeyLeftShift = 42"
definition KeyRightShift :: int where "KeyRightShift = 54"
definition KeyAlt :: int where "KeyAlt = 56"
definition KeySpace :: int where "KeySpace = 57"
definition KeyCapsLock :: int where "KeyCapsLock = 58"
definition KeyRightCtrl :: int where "KeyRightCtrl = 97"
definition KeyRightAlt :: int where "KeyRightAlt = 100"
definition KeyF2 :: int where "KeyF2 = 60"
definition KeyF3 :: int where "KeyF3 = 61"
definition KeyF4 :: int where "KeyF4 = 62"
definition KeyF5 :: int where "KeyF5 = 63"
definition KeyF6 :: int where "KeyF6 = 64"
definition KeyF7 :: int where "KeyF7 = 65"
definition KeyF8 :: int where "KeyF8 = 66"
definition KeyF9 :: int where "KeyF9 = 67"
definition KeyF10 :: int where "KeyF10 = 68"
definition KeyUp :: int where "KeyUp = 103"
definition KeyPageUp :: int where "KeyPageUp = 104"
definition KeyLeft :: int where "KeyLeft = 105"
definition KeyRight :: int where "KeyRight = 106"
definition KeyEnd :: int where "KeyEnd = 107"
definition KeyDown :: int where "KeyDown = 108"
definition KeyPageDown :: int where "KeyPageDown = 109"
definition KeyDelete :: int where "KeyDelete = 111"

lemmas key_codes = KeyEsc_def KeyBackspace_def KeyTab_def KeyEnter_def KeyCtrl_def KeyLeftShift_def
  KeyRightShift_def KeyAlt_def KeySpace_def KeyCapsLock_def KeyRightCtrl_def KeyRightAlt_def KeyF2_def
  KeyF3_def KeyF4_def KeyF5_def KeyF6_def KeyF7_def KeyF8_def KeyF9_def KeyF10_def KeyUp_def KeyPageUp_def
  KeyLeft_def KeyRight_def KeyEnd_def KeyDown_def KeyPageDown_def KeyDelete_def

section \<open>Layouts\<close>

definition LayoutUS :: string where "LayoutUS = ''us''"
definition LayoutTRQ :: string where "LayoutTRQ = ''tr-q''"
definition LayoutTRF :: string where "LayoutTRF = ''tr-f''"

definition LayoutOrder :: "string list" where "LayoutOrder = [LayoutUS, LayoutTRQ, LayoutTRF]"

definition layout_label :: "string \<Rightarrow> string" where
  "layout_label l = (if l = LayoutTRQ then ''TR-Q'' else if l = LayoutTRF then ''TR-F'' else ''US'')"

definition LayoutForLanguage :: "string \<Rightarrow> string" where
  "LayoutForLanguage lang = (if lang = ''tr'' then LayoutTRQ else LayoutUS)"

definition usKeycodeToRune :: "(int \<times> nat \<times> nat) list" where
  \<comment> \<open>keycode, then the runes without and with Shift\<close>
  "usKeycodeToRune =
    [(2, 49, 33), (3, 50, 64), (4, 51, 35), (5, 52, 36), (6, 53, 37), (7, 54, 94), (8, 55, 38), (9, 56, 42),
     (10, 57, 40), (11, 48, 41), (12, 45, 95), (13, 61, 43), (16, 113, 81), (17, 119, 87), (18, 101, 69),
     (19, 114, 82), (20, 116, 84), (21, 121, 89), (22, 117, 85), (23, 105, 73), (24, 111, 79), (25, 112, 80),
     (26, 91, 123), (27, 93, 125), (30, 97, 65), (31, 115, 83), (32, 100, 68), (33, 102, 70), (34, 103, 71),
     (35, 104, 72), (36, 106, 74), (37, 107, 75), (38, 108, 76), (39, 59, 58), (40, 39, 34), (41, 96, 126),
     (43, 92, 124), (44, 122, 90), (45, 120, 88), (46, 99, 67), (47, 118, 86), (48, 98, 66), (49, 110, 78),
     (50, 109, 77), (51, 44, 60), (52, 46, 62), (53, 47, 63), (57, 32, 32), (71, 55, 55), (72, 56, 56),
     (73, 57, 57), (74, 45, 45), (75, 52, 52), (76, 53, 53), (77, 54, 54), (78, 43, 43), (79, 49, 49),
     (80, 50, 50), (81, 51, 51), (82, 48, 48), (83, 46, 46), (98, 47, 47), (55, 42, 42), (86, 92, 124)]"

definition trQOverrides :: "(int \<times> nat \<times> nat) list" where
  "trQOverrides =
    [(41, 34, 233), (2, 49, 33), (3, 50, 39), (4, 51, 94), (5, 52, 43), (6, 53, 37), (7, 54, 38), (8, 55, 47),
     (9, 56, 40), (10, 57, 41), (11, 48, 61), (12, 42, 63), (13, 45, 95), (23, 305, 73), (26, 287, 286),
     (27, 252, 220), (39, 351, 350), (40, 105, 304), (43, 44, 59), (51, 246, 214), (52, 231, 199),
     (53, 46, 58), (86, 60, 62)]"

definition trFOverrides :: "(int \<times> nat \<times> nat) list" where
  "trFOverrides =
    [(41, 43, 42), (2, 49, 33), (3, 50, 34), (4, 51, 94), (5, 52, 36), (6, 53, 37), (7, 54, 38), (8, 55, 39),
     (9, 56, 40), (10, 57, 41), (11, 48, 61), (12, 47, 63), (13, 45, 95), (16, 102, 70), (17, 103, 71),
     (18, 287, 286), (19, 305, 73), (20, 111, 79), (21, 100, 68), (22, 114, 82), (23, 110, 78), (24, 104, 72),
     (25, 112, 80), (26, 113, 81), (27, 119, 87), (30, 117, 85), (31, 105, 304), (32, 101, 69), (33, 97, 65),
     (34, 252, 220), (35, 116, 84), (36, 107, 75), (37, 109, 77), (38, 108, 76), (39, 121, 89),
     (40, 351, 350), (43, 120, 88), (44, 106, 74), (45, 246, 214), (46, 118, 86), (47, 99, 67),
     (48, 231, 199), (49, 122, 90), (50, 115, 83), (51, 98, 66), (52, 46, 58), (53, 44, 59), (86, 60, 62)]"

definition layouts :: "(string \<times> (int \<times> nat \<times> nat) list) list" where
  "layouts = [(LayoutUS, []), (LayoutTRQ, trQOverrides), (LayoutTRF, trFOverrides)]"

definition trQAltGr :: "(int \<times> nat) list" where
  "trQAltGr =
    [(41, 60), (2, 62), (3, 163), (4, 35), (5, 36), (6, 189), (7, 190), (8, 123), (9, 91), (10, 93),
     (11, 125), (12, 92), (13, 124), (16, 64), (18, 8364), (19, 182), (20, 8378), (21, 8592), (22, 251),
     (23, 238), (24, 244), (27, 126), (30, 226), (31, 223), (33, 170), (39, 180), (40, 39), (43, 96),
     (86, 124), (44, 171), (45, 187), (46, 162), (47, 8222), (48, 8220), (49, 8221), (50, 181), (51, 215),
     (52, 183)]"

definition trFAltGr :: "(int \<times> nat) list" where
  "trFAltGr =
    [(41, 172), (2, 185), (3, 178), (4, 35), (5, 188), (6, 189), (7, 190), (8, 123), (9, 91), (10, 93),
     (11, 125), (12, 92), (13, 124), (16, 64), (19, 182), (20, 244), (21, 165), (22, 174), (24, 176),
     (25, 163), (27, 126), (30, 251), (31, 238), (32, 8364), (33, 226), (34, 251), (35, 8378), (37, 181),
     (39, 180), (40, 35), (43, 96), (86, 124), (44, 171), (45, 187), (46, 8220), (47, 162), (48, 8221),
     (50, 167), (51, 215), (52, 247), (53, 183)]"

definition altGrLayouts :: "(string \<times> (int \<times> nat) list) list" where
  "altGrLayouts = [(LayoutTRQ, trQAltGr), (LayoutTRF, trFAltGr)]"

definition SetLayout :: "string \<Rightarrow> string" where
  \<comment> \<open>the layout active afterwards\<close>
  "SetLayout l = (if map_of layouts l = None then LayoutUS else l)"

definition NextLayout :: "string \<Rightarrow> string" where
  "NextLayout cur =
     (case filter (\<lambda>i. LayoutOrder ! i = cur) [0 ..< length LayoutOrder] of
        i # _ \<Rightarrow> SetLayout (LayoutOrder ! (Suc i mod length LayoutOrder))
      | [] \<Rightarrow> SetLayout LayoutUS)"

section \<open>What a key types\<close>

definition go_lookup :: "('a \<times> ('b \<times> 'c) list) list \<Rightarrow> 'a \<Rightarrow> ('b \<times> 'c) list" where
  \<comment> \<open>a map of maps: no entry is the nil map\<close>
  "go_lookup m k = (case map_of m k of None \<Rightarrow> [] | Some t \<Rightarrow> t)"

definition KeycodeToRuneIn :: "string \<Rightarrow> int \<Rightarrow> bool \<Rightarrow> nat" where
  "KeycodeToRuneIn l code shifted =
     (case (case map_of (go_lookup layouts l) code of None \<Rightarrow> map_of usKeycodeToRune code | Some p \<Rightarrow> Some p) of
        None \<Rightarrow> 0
      | Some (low, up) \<Rightarrow> if shifted then up else low)"

definition is_letter :: "nat \<Rightarrow> bool" where
  \<comment> \<open>\<open>unicode.IsLetter\<close>, for the code points below 0x2C2, which all the tables' are but for signs\<close>
  "is_letter r \<longleftrightarrow> (65 \<le> r \<and> r \<le> 90) \<or> (97 \<le> r \<and> r \<le> 122) \<or> r \<in> {0xAA, 0xB5, 0xBA} \<or>
     (0xC0 \<le> r \<and> r \<le> 0x2C1 \<and> r \<noteq> 0xD7 \<and> r \<noteq> 0xF7)"

definition KeycodeToRuneCapsIn :: "string \<Rightarrow> int \<Rightarrow> bool \<Rightarrow> bool \<Rightarrow> nat" where
  "KeycodeToRuneCapsIn l code shifted caps =
     KeycodeToRuneIn l code (if caps \<and> is_letter (KeycodeToRuneIn l code False) then \<not> shifted else shifted)"

definition KeycodeToRuneAltGrIn :: "string \<Rightarrow> int \<Rightarrow> nat" where
  "KeycodeToRuneAltGrIn l code =
     (case map_of (go_lookup altGrLayouts l) code of None \<Rightarrow> 0 | Some r \<Rightarrow> r)"

section \<open>Text as it is typed\<close>

definition utf8 :: "nat \<Rightarrow> string" where
  \<comment> \<open>\<open>string(r)\<close> for a rune of the tables, all below 0x10000\<close>
  "utf8 r =
     (if r < 0x80 then [char_of r]
      else if r < 0x800 then [char_of (0xC0 + r div 64), char_of (0x80 + r mod 64)]
      else [char_of (0xE0 + r div 4096), char_of (0x80 + r div 64 mod 64), char_of (0x80 + r mod 64)])"

definition follows :: "char \<Rightarrow> bool" where
  \<comment> \<open>a byte inside a character, not its first\<close>
  "follows c \<longleftrightarrow> 0x80 \<le> (of_char c :: nat) \<and> (of_char c :: nat) < 0xC0"

definition drop_rune :: "string \<Rightarrow> string" where
  \<comment> \<open>\<open>string(r[:len(r)-1])\<close>, on text that is valid UTF-8\<close>
  "drop_rune s = rev (drop 1 (dropWhile follows (rev s)))"

section \<open>Every character can be typed\<close>

definition typed_by :: "string \<Rightarrow> int \<Rightarrow> bool \<Rightarrow> bool \<Rightarrow> bool \<Rightarrow> nat" where
  \<comment> \<open>\<open>handleKey\<close>'s choice: what a press of the key types with Shift, with AltGr, with Caps Lock on\<close>
  "typed_by l code shifted altgr caps =
     (if altgr then KeycodeToRuneAltGrIn l code else KeycodeToRuneCapsIn l code shifted caps)"

definition effective :: "string \<Rightarrow> (int \<times> nat \<times> nat) list" where
  \<comment> \<open>a layout's keys: its own, then those it shares with US\<close>
  "effective l = go_lookup layouts l @
     filter (\<lambda>e. fst e \<notin> fst ` set (go_lookup layouts l)) usKeycodeToRune"

definition layout_runes :: "string \<Rightarrow> nat list" where
  "layout_runes l = map (fst \<circ> snd) (effective l) @ map (snd \<circ> snd) (effective l) @ map snd (go_lookup altGrLayouts l)"

lemma tables_distinct:
  "distinct (map fst usKeycodeToRune)" "distinct (map fst trQOverrides)" "distinct (map fst trFOverrides)"
  "distinct (map fst trQAltGr)" "distinct (map fst trFAltGr)"
  by (simp_all add: usKeycodeToRune_def trQOverrides_def trFOverrides_def trQAltGr_def trFAltGr_def)

lemma layout_tables_distinct:
  "distinct (map fst (go_lookup layouts l))" "distinct (map fst (go_lookup altGrLayouts l))"
  by (auto simp: go_lookup_def layouts_def altGrLayouts_def tables_distinct split: option.split if_splits)

lemma effective_key:
  assumes "(c, lo, up) \<in> set (effective l)"
  shows "KeycodeToRuneIn l c sh = (if sh then up else lo)"
proof (cases "(c, lo, up) \<in> set (go_lookup layouts l)")
  case True
  then show ?thesis using layout_tables_distinct(1) [of l] by (simp add: KeycodeToRuneIn_def)
next
  case False
  then have "(c, lo, up) \<in> set usKeycodeToRune" "c \<notin> fst ` set (go_lookup layouts l)"
    using assms by (auto simp: effective_def)
  then show ?thesis
    using tables_distinct(1) map_of_eq_None_iff [of "go_lookup layouts l" c] by (simp add: KeycodeToRuneIn_def)
qed

lemma layout_rune_typed:
  assumes "r \<in> set (layout_runes l)"
  shows "\<exists>code sh altgr. typed_by l code sh altgr caps = r"
proof -
  have "\<exists>sh. typed_by l c sh False caps = x" if "(c, lo, up) \<in> set (effective l)" "x = lo \<or> x = up" for c lo up x
    using effective_key [OF that(1)] that(2)
    by (auto simp: typed_by_def KeycodeToRuneCapsIn_def)
  moreover have "typed_by l c sh True caps = x" if "(c, x) \<in> set (go_lookup altGrLayouts l)" for c x sh
    using that layout_tables_distinct(2) [of l] by (simp add: typed_by_def KeycodeToRuneAltGrIn_def)
  ultimately show ?thesis
    using assms unfolding layout_runes_def by fastforce
qed

lemmas layout_tables = layout_runes_def effective_def go_lookup_def layouts_def altGrLayouts_def LayoutUS_def
  LayoutTRQ_def LayoutTRF_def usKeycodeToRune_def trQOverrides_def trFOverrides_def trQAltGr_def trFAltGr_def

lemma us_covers: "list_all (\<lambda>r. r \<in> set (layout_runes LayoutUS)) [32 ..< 127]"
  by (simp add: layout_tables upt_rec)

lemma trq_covers: "list_all (\<lambda>r. r \<in> set (layout_runes LayoutTRQ)) [32 ..< 127]"
  by (simp add: layout_tables upt_rec)

lemma trf_covers: "list_all (\<lambda>r. r \<in> set (layout_runes LayoutTRF)) [32 ..< 127]"
  by (simp add: layout_tables upt_rec)

lemma utf8_shape:
  assumes "0 < r" "r < 0x10000"
  shows "\<exists>c cs. utf8 r = c # cs \<and> \<not> follows c \<and> (\<forall>x \<in> set cs. follows x)"
proof -
  have "r < 0x800 \<Longrightarrow> 0xC0 + r div 64 < (256::nat)" "0xE0 + r div 4096 < (256::nat)"
    "0x80 + r mod 64 < (256::nat)" "0x80 + r div 64 mod 64 < (256::nat)"
    using assms by (simp_all add: less_mult_imp_div_less)
  then show ?thesis
    using assms by (auto simp: utf8_def follows_def)
qed

lemma drop_typed:
  assumes "0 < r" "r < 0x10000"
  shows "drop_rune (s @ utf8 r) = s"
proof -
  obtain c cs where u: "utf8 r = c # cs" "\<not> follows c" "\<forall>x \<in> set cs. follows x"
    using utf8_shape [OF assms] by blast
  have "dropWhile follows (rev cs @ c # rev s) = c # rev s"
    using u(2,3) by (subst dropWhile_append2) auto
  then show ?thesis by (simp add: drop_rune_def u(1))
qed



end
