(* ===== verification/Messages.thy ===== *)
theory Messages
  imports Keyboard "HOL-Library.Multiset"
begin

text \<open>
  \<open>internal/i18n/i18n.go\<close>: the texts of the user interface in English and
  Turkish. A key is named by its constant; a catalogue is in the keys' order.
  Characters outside ASCII are written as their UTF-8 bytes.
\<close>

section \<open>Languages and keys\<close>

definition LangEN :: string where "LangEN = ''en''"
definition LangTR :: string where "LangTR = ''tr''"
definition Default :: string where "Default = LangEN"
definition lang_order :: "string list" where "lang_order = [LangEN, LangTR]"

definition message_keys1 :: "string list" where
  "message_keys1 = [
     ''HostsFound'', ''HostsFoundOne'', ''Scanning'', ''ScanComplete'', ''NoServersFound'', ''SelectServer'',
     ''ColumnServer'', ''ColumnAddress'', ''ColumnLatency'', ''NoServersHint'', ''HintSelect'', ''HintConnect'',
     ''HintRefresh'', ''HintLanguage'', ''HintKeyboard'', ''BadgeSound'', ''BadgeKeyboard'', ''BadgeLanguage'',
     ''BadgeVideo'', ''VideoCPU'', ''Tagline'', ''ModalTitle'', ''LabelServer'', ''LabelUsername'',
     ''LabelPassword'', ''LabelDomain'', ''HintDomain'', ''ButtonConnect'', ''ButtonCancel'', ''Connecting'',
     ''Disconnected'', ''ErrTimeout'', ''ErrRefused'', ''ErrAuthFailed'', ''ErrRejected'', ''ErrBadAddress'',
     ''LanguageName'', ''HintAddress'', ''HintInstall'', ''InstallTitle'', ''InstallPick'', ''InstallNoDisk'',
     ''InstallErase'', ''InstallTable'', ''InstallKeys'', ''InstallLetter'', ''InstallStepMedium'',
     ''InstallStepPartition'', ''InstallStepFormat'', ''InstallStepCopy'', ''InstallStepBootloader'',
     ''InstallStepFirmware'', ''InstallDone'', ''InstallFailed'', ''InstallSelf'', ''InstallSelfWarn'',
     ''InstallDoneSelf'', ''HintNetwork'', ''NetTitle'', ''NetMode'', ''NetDHCP'', ''NetStatic'',
     ''NetAddress'', ''NetMask'', ''NetGateway'', ''NetDNS1'', ''NetDNS2'', ''NetPort'', ''NetSave'',
     ''NetCable'', ''NetNoCable'', ''NetNoAddress'', ''NetApplying'', ''NetSaved'', ''NetSessionOnly'',
     ''NetErrAddress'', ''NetErrMask'', ''NetErrGateway'', ''NetErrDNS'', ''NetErrPort'', ''NetErrApply'',
     ''HintAutoOff'', ''HintAutoDialog'', ''HintAutoLogon'', ''AutoCountdown'', ''AutoWaitNet'', ''AutoRetry'',
     ''AutoKeys'', ''NetWireless'', ''NetWifiChoose'']"

definition message_keys2 :: "string list" where
  "message_keys2 = [
     ''NetWifiOn'', ''NetWifiJoining'', ''NetWifiOff'', ''NetIfWireless'', ''WifiTitle'', ''WifiHidden'',
     ''WifiOpen'', ''WifiEnterprise'', ''WifiMarkOn'', ''WifiMarkJoining'', ''WifiMarkKept'', ''WifiScanning'',
     ''WifiNone'', ''WifiDown'', ''WifiStatusOn'', ''WifiStatusOff'', ''WifiStatusKept'', ''WifiNoAddress'',
     ''WifiJoining'', ''WifiFailed'', ''WifiRejected'', ''WifiRejectedUser'', ''WifiForgotten'',
     ''WifiNetwork'', ''WifiName'', ''WifiSecurity'', ''WifiErrName'', ''WifiErrUser'', ''WifiErrNoPassword'',
     ''WifiErrPassword'', ''WifiErrWEP'', ''HintForget'', ''HintBack'', ''HintUpdate'', ''UpdateTitle'',
     ''UpdateThis'', ''UpdateLatest'', ''UpdateNotChecked'', ''UpdateChecking'', ''UpdateUpToDate'',
     ''UpdateReady'', ''UpdateNoDisk'', ''UpdateDidNotStart'', ''UpdateDownloading'',
     ''UpdateDownloadingNoSize'', ''UpdateRestarting'', ''UpdateFailed'', ''UpdateCheckFailed'',
     ''UpdateErrNetwork'', ''UpdateErrDamaged'', ''UpdateErrStalled'', ''UpdateErrUnproven'',
     ''UpdateErrInsecure'', ''UpdateCancelled'', ''UpdateNew'', ''UpdateNoticeOK'', ''UpdateNoticeFailed'',
     ''ButtonCheck'', ''ButtonUpdate'', ''ButtonClose'', ''HintPower'', ''PowerTitle'', ''PowerQuestion'',
     ''PowerRestarting'', ''PowerSwitchingOff'', ''ButtonRestart'', ''ButtonSwitchOff'', ''PowerDriverRetry'',
     ''VideoSafe'', ''ButtonDriver'', ''PowerDriverNote'', ''PowerDriverTrying'']"

definition message_keys :: "string list" where
  "message_keys = message_keys1 @ message_keys2"

section \<open>The catalogues\<close>

definition english1 :: "(string \<times> string) list" where
  "english1 = [
     (''HostsFound'', ''%d servers found''),
     (''HostsFoundOne'', ''%d server found''),
     (''Scanning'', ''Scanning...''),
     (''ScanComplete'', ''Scan complete''),
     (''NoServersFound'', ''No servers found''),
     (''SelectServer'', ''Select a server''),
     (''ColumnServer'', ''SERVER''),
     (''ColumnAddress'', ''ADDRESS''),
     (''ColumnLatency'', ''LATENCY''),
     (''NoServersHint'', ''Nothing is listening on port %[2]d in %[1]s. F5 scans again, F7 connects to an address, F8 sets up the network and the port.''),
     (''HintSelect'', ''Select''),
     (''HintConnect'', ''Connect''),
     (''HintRefresh'', ''Refresh''),
     (''HintLanguage'', ''Language''),
     (''HintKeyboard'', ''Keyboard''),
     (''BadgeSound'', ''Sound''),
     (''BadgeKeyboard'', ''Keyboard''),
     (''BadgeLanguage'', ''Language''),
     (''BadgeVideo'', ''Video''),
     (''VideoCPU'', ''CPU''),
     (''Tagline'', ''REMOTE DESKTOP KIOSK''),
     (''ModalTitle'', ''Connection Details''),
     (''LabelServer'', ''Server:''),
     (''LabelUsername'', ''Username:''),
     (''LabelPassword'', ''Password:''),
     (''LabelDomain'', ''Domain:''),
     (''HintDomain'', ''Domain''),
     (''ButtonConnect'', ''Connect''),
     (''ButtonCancel'', ''Cancel''),
     (''Connecting'', ''Connecting... %s''),
     (''Disconnected'', ''Disconnected''),
     (''ErrTimeout'', ''Timeout: server unreachable''),
     (''ErrRefused'', ''Connection refused''),
     (''ErrAuthFailed'', ''Authentication failed''),
     (''ErrRejected'', ''Logon failed: wrong user name or password''),
     (''ErrBadAddress'', ''Server address not found''),
     (''LanguageName'', ''English''),
     (''HintAddress'', ''Address''),
     (''HintInstall'', ''Install''),
     (''InstallTitle'', ''Install to disk''),
     (''InstallPick'', ''Choose the disk to install on:''),
     (''InstallNoDisk'', ''No disk to install on (at least 4 GB).''),
     (''InstallErase'', ''Everything on %s will be erased.''),
     (''InstallTable'', ''Partition table: %s''),
     (''InstallKeys'', ''Press %s to install, Esc to go back.''),
     (''InstallLetter'', ''Y''),
     (''InstallStepMedium'', ''Reading the installation medium...''),
     (''InstallStepPartition'', ''Partitioning the disk...''),
     (''InstallStepFormat'', ''Creating file systems...''),
     (''InstallStepCopy'', ''Copying the system...''),
     (''InstallStepBootloader'', ''Installing the boot loader...''),
     (''InstallStepFirmware'', ''Adding the UEFI boot entry...''),
     (''InstallDone'', ''Installed. Remove the USB stick or CD and press Enter to restart.''),
     (''InstallFailed'', ''Installation failed: %s''),
     (''InstallSelf'', ''(this stick)''),
     (''InstallSelfWarn'', ''The kiosk runs from this stick: what it installs is copied into memory first. Do not unplug the stick until it is done.''),
     (''InstallDoneSelf'', ''Installed onto this stick. Press Enter to restart from it.''),
     (''HintNetwork'', ''Network''),
     (''NetTitle'', ''Network settings''),
     (''NetMode'', ''Connection:'')]"

definition english2 :: "(string \<times> string) list" where
  "english2 = [
     (''NetDHCP'', ''DHCP (automatic)''),
     (''NetStatic'', ''Manual''),
     (''NetAddress'', ''IP address:''),
     (''NetMask'', ''Subnet mask:''),
     (''NetGateway'', ''Gateway:''),
     (''NetDNS1'', ''Preferred DNS:''),
     (''NetDNS2'', ''Alternate DNS:''),
     (''NetPort'', ''RDP port:''),
     (''NetSave'', ''Save''),
     (''NetCable'', ''%s: cable in''),
     (''NetNoCable'', ''%s: no cable''),
     (''NetNoAddress'', ''no address''),
     (''NetApplying'', ''Applying...''),
     (''NetSaved'', ''Saved.''),
     (''NetSessionOnly'', ''Applied until restart: a CD has nowhere to save settings.''),
     (''NetErrAddress'', ''Invalid IP address''),
     (''NetErrMask'', ''Invalid subnet mask''),
     (''NetErrGateway'', ''The gateway is not in this subnet''),
     (''NetErrDNS'', ''Invalid DNS server address''),
     (''NetErrPort'', ''The RDP port is a number from 1 to 65535''),
     (''NetErrApply'', ''Could not apply: %s''),
     (''HintAutoOff'', ''At startup: the server list''),
     (''HintAutoDialog'', ''At startup: this server''),
     (''HintAutoLogon'', ''At startup: log on, password kept here''),
     (''AutoCountdown'', ''Logging on in %d s''),
     (''AutoWaitNet'', ''Waiting for the network''),
     (''AutoRetry'', ''Trying again in %d s''),
     (''AutoKeys'', ''Enter: now    Esc: server list''),
     (''NetWireless'', ''Wireless:''),
     (''NetWifiChoose'', ''Choose a network''),
     (''NetWifiOn'', ''%s  '' @ [CHR 0xC2, CHR 0xB7] @ ''  connected''),
     (''NetWifiJoining'', ''%s  '' @ [CHR 0xC2, CHR 0xB7] @ ''  connecting''),
     (''NetWifiOff'', ''%s  '' @ [CHR 0xC2, CHR 0xB7] @ ''  not connected''),
     (''NetIfWireless'', ''%s: wireless''),
     (''WifiTitle'', ''Wireless networks''),
     (''WifiHidden'', ''Hidden network...''),
     (''WifiOpen'', ''Open''),
     (''WifiEnterprise'', ''Enterprise''),
     (''WifiMarkOn'', ''Connected''),
     (''WifiMarkJoining'', ''Connecting''),
     (''WifiMarkKept'', ''Saved''),
     (''WifiScanning'', ''Looking for networks...''),
     (''WifiNone'', ''No networks found''),
     (''WifiDown'', ''The wireless service is not answering''),
     (''WifiStatusOn'', ''Connected to %s''),
     (''WifiStatusOff'', ''Not connected''),
     (''WifiStatusKept'', ''saved: %s''),
     (''WifiNoAddress'', ''waiting for an address''),
     (''WifiJoining'', ''Connecting to %s...''),
     (''WifiFailed'', ''Could not connect to %s''),
     (''WifiRejected'', ''The network did not accept the password''),
     (''WifiRejectedUser'', ''The network did not accept the user name or password''),
     (''WifiForgotten'', ''%s forgotten''),
     (''WifiNetwork'', ''Network:''),
     (''WifiName'', ''Name:''),
     (''WifiSecurity'', ''Security:''),
     (''WifiErrName'', ''Type the network's name''),
     (''WifiErrUser'', ''Type the user name''),
     (''WifiErrNoPassword'', ''Type the password''),
     (''WifiErrPassword'', ''A WPA password is 8 to 63 characters'')]"

definition english3 :: "(string \<times> string) list" where
  "english3 = [
     (''WifiErrWEP'', ''WEP networks are not supported''),
     (''HintForget'', ''Forget''),
     (''HintBack'', ''Back''),
     (''HintUpdate'', ''Update''),
     (''UpdateTitle'', ''Software update''),
     (''UpdateThis'', ''This version:''),
     (''UpdateLatest'', ''Latest:''),
     (''UpdateNotChecked'', ''not checked yet''),
     (''UpdateChecking'', ''checking...''),
     (''UpdateUpToDate'', ''This is the latest version.''),
     (''UpdateReady'', ''%s is out. Update downloads it and restarts into it; should it not start on this machine, the kiosk comes back on this version.''),
     (''UpdateNoDisk'', ''%s has no update for installed kiosks; it installs from a USB stick.''),
     (''UpdateDidNotStart'', ''%s did not start on this machine, so the kiosk went back to this version.''),
     (''UpdateDownloading'', ''Downloading %s: %d of %d MB''),
     (''UpdateDownloadingNoSize'', ''Downloading %s: %d MB''),
     (''UpdateRestarting'', ''%s is installed. Restarting...''),
     (''UpdateFailed'', ''Update failed: %s''),
     (''UpdateCheckFailed'', ''Could not check: %s''),
     (''UpdateErrNetwork'', ''the release server cannot be reached (%s)''),
     (''UpdateErrDamaged'', ''the download was damaged; try again''),
     (''UpdateErrStalled'', ''the download stopped; check the network and try again''),
     (''UpdateErrUnproven'', ''this start-up is still being checked; try again in a minute''),
     (''UpdateErrInsecure'', ''the release server is not on HTTPS; updates come over HTTPS only''),
     (''UpdateCancelled'', ''cancelled''),
     (''UpdateNew'', ''New version %s (F9)''),
     (''UpdateNoticeOK'', ''Updated: %s is installed and running.''),
     (''UpdateNoticeFailed'', ''Update failed: %s did not start on this machine, so the kiosk went back to %s.''),
     (''ButtonCheck'', ''Check''),
     (''ButtonUpdate'', ''Update''),
     (''ButtonClose'', ''Close''),
     (''HintPower'', ''Power''),
     (''PowerTitle'', ''Restart or switch off''),
     (''PowerQuestion'', ''Restart the kiosk, or switch it off? A session in progress on a server stays there, to go back to.''),
     (''PowerRestarting'', ''Restarting...''),
     (''PowerSwitchingOff'', ''Switching off...''),
     (''ButtonRestart'', ''Restart''),
     (''ButtonSwitchOff'', ''Switch off''),
     (''PowerDriverRetry'', ''The update gives this machine's graphics card its driver back. Restarting to use it...''),
     (''VideoSafe'', ''safe graphics''),
     (''ButtonDriver'', ''Try driver''),
     (''PowerDriverNote'', ''The graphics card is in safe graphics: two starts died loading its driver, perhaps from the power being cut. Try driver restarts the kiosk with it once; should that fail too, it comes back in safe graphics.''),
     (''PowerDriverTrying'', ''Restarting to try the graphics card's driver...'')]"

definition english :: "(string \<times> string) list" where
  "english = english1 @ english2 @ english3"

definition turkish1 :: "(string \<times> string) list" where
  "turkish1 = [
     (''HostsFound'', ''%d sunucu bulundu''),
     (''HostsFoundOne'', ''%d sunucu bulundu''),
     (''Scanning'', ''Taran'' @ [CHR 0xC4, CHR 0xB1] @ ''yor...''),
     (''ScanComplete'', ''Tarama tamamland'' @ [CHR 0xC4, CHR 0xB1]),
     (''NoServersFound'', ''Sunucu bulunamad'' @ [CHR 0xC4, CHR 0xB1]),
     (''SelectServer'', ''Bir sunucu se'' @ [CHR 0xC3, CHR 0xA7] @ ''in''),
     (''ColumnServer'', ''SUNUCU''),
     (''ColumnAddress'', ''ADRES''),
     (''ColumnLatency'', ''GEC'' @ [CHR 0xC4, CHR 0xB0] @ ''KME''),
     (''NoServersHint'', ''%[1]s a'' @ [CHR 0xC4, CHR 0x9F, CHR 0xC4, CHR 0xB1] @ ''nda %[2]d portunu dinleyen bir sunucu yok. F5 yeniden tarar, F7 adres girer, F8 a'' @ [CHR 0xC4, CHR 0x9F] @ '' ve port ayarlar'' @ [CHR 0xC4, CHR 0xB1] @ ''n'' @ [CHR 0xC4, CHR 0xB1] @ '' a'' @ [CHR 0xC3, CHR 0xA7] @ ''ar.''),
     (''HintSelect'', ''Se'' @ [CHR 0xC3, CHR 0xA7]),
     (''HintConnect'', ''Ba'' @ [CHR 0xC4, CHR 0x9F] @ ''lan''),
     (''HintRefresh'', ''Yenile''),
     (''HintLanguage'', ''Dil''),
     (''HintKeyboard'', ''Klavye''),
     (''BadgeSound'', ''Ses''),
     (''BadgeKeyboard'', ''Klavye''),
     (''BadgeLanguage'', ''Dil''),
     (''BadgeVideo'', ''Video''),
     (''VideoCPU'', [CHR 0xC4, CHR 0xB0, CHR 0xC5, CHR 0x9F] @ ''lemci''),
     (''Tagline'', ''UZAK MASA'' @ [CHR 0xC3, CHR 0x9C] @ ''ST'' @ [CHR 0xC3, CHR 0x9C] @ '' '' @ [CHR 0xC4, CHR 0xB0] @ ''STEMC'' @ [CHR 0xC4, CHR 0xB0] @ ''S'' @ [CHR 0xC4, CHR 0xB0]),
     (''ModalTitle'', ''Ba'' @ [CHR 0xC4, CHR 0x9F] @ ''lant'' @ [CHR 0xC4, CHR 0xB1] @ '' Bilgileri''),
     (''LabelServer'', ''Sunucu:''),
     (''LabelUsername'', ''Kullan'' @ [CHR 0xC4, CHR 0xB1] @ ''c'' @ [CHR 0xC4, CHR 0xB1] @ '':''),
     (''LabelPassword'', ''Parola:''),
     (''LabelDomain'', ''Etki alan'' @ [CHR 0xC4, CHR 0xB1] @ '':''),
     (''HintDomain'', ''Etki alan'' @ [CHR 0xC4, CHR 0xB1]),
     (''ButtonConnect'', ''Ba'' @ [CHR 0xC4, CHR 0x9F] @ ''lan''),
     (''ButtonCancel'', [CHR 0xC4, CHR 0xB0] @ ''ptal''),
     (''Connecting'', ''Ba'' @ [CHR 0xC4, CHR 0x9F] @ ''lan'' @ [CHR 0xC4, CHR 0xB1] @ ''yor... %s''),
     (''Disconnected'', ''Ba'' @ [CHR 0xC4, CHR 0x9F] @ ''lant'' @ [CHR 0xC4, CHR 0xB1] @ '' kesildi''),
     (''ErrTimeout'', ''Zaman a'' @ [CHR 0xC5, CHR 0x9F, CHR 0xC4, CHR 0xB1] @ ''m'' @ [CHR 0xC4, CHR 0xB1] @ '': sunucuya ula'' @ [CHR 0xC5, CHR 0x9F, CHR 0xC4, CHR 0xB1] @ ''lam'' @ [CHR 0xC4, CHR 0xB1] @ ''yor''),
     (''ErrRefused'', ''Ba'' @ [CHR 0xC4, CHR 0x9F] @ ''lant'' @ [CHR 0xC4, CHR 0xB1] @ '' reddedildi''),
     (''ErrAuthFailed'', ''Kimlik do'' @ [CHR 0xC4, CHR 0x9F] @ ''rulama ba'' @ [CHR 0xC5, CHR 0x9F] @ ''ar'' @ [CHR 0xC4, CHR 0xB1] @ ''s'' @ [CHR 0xC4, CHR 0xB1] @ ''z''),
     (''ErrRejected'', ''Oturum a'' @ [CHR 0xC3, CHR 0xA7, CHR 0xC4, CHR 0xB1] @ ''lamad'' @ [CHR 0xC4, CHR 0xB1] @ '': kullan'' @ [CHR 0xC4, CHR 0xB1] @ ''c'' @ [CHR 0xC4, CHR 0xB1] @ '' ad'' @ [CHR 0xC4, CHR 0xB1] @ '' veya parola yanl'' @ [CHR 0xC4, CHR 0xB1, CHR 0xC5, CHR 0x9F]),
     (''ErrBadAddress'', ''Sunucu adresi bulunamad'' @ [CHR 0xC4, CHR 0xB1]),
     (''LanguageName'', ''T'' @ [CHR 0xC3, CHR 0xBC] @ ''rk'' @ [CHR 0xC3, CHR 0xA7] @ ''e''),
     (''HintAddress'', ''Adres gir''),
     (''HintInstall'', ''Diske kur''),
     (''InstallTitle'', ''Diske kurulum''),
     (''InstallPick'', ''Kurulacak diski se'' @ [CHR 0xC3, CHR 0xA7] @ ''in:''),
     (''InstallNoDisk'', ''Kurulabilecek disk yok (en az 4 GB).''),
     (''InstallErase'', ''%s '' @ [CHR 0xC3, CHR 0xBC] @ ''zerindeki HER '' @ [CHR 0xC5, CHR 0x9E] @ ''EY silinecek.''),
     (''InstallTable'', ''B'' @ [CHR 0xC3, CHR 0xB6] @ ''l'' @ [CHR 0xC3, CHR 0xBC] @ ''m tablosu: %s''),
     (''InstallKeys'', ''Kurmak i'' @ [CHR 0xC3, CHR 0xA7] @ ''in %s, geri d'' @ [CHR 0xC3, CHR 0xB6] @ ''nmek i'' @ [CHR 0xC3, CHR 0xA7] @ ''in Esc.''),
     (''InstallLetter'', ''E''),
     (''InstallStepMedium'', ''Kurulum ortam'' @ [CHR 0xC4, CHR 0xB1] @ '' okunuyor...''),
     (''InstallStepPartition'', ''Disk b'' @ [CHR 0xC3, CHR 0xB6] @ ''l'' @ [CHR 0xC3, CHR 0xBC] @ ''mleniyor...''),
     (''InstallStepFormat'', ''Dosya sistemleri olu'' @ [CHR 0xC5, CHR 0x9F] @ ''turuluyor...''),
     (''InstallStepCopy'', ''Sistem kopyalan'' @ [CHR 0xC4, CHR 0xB1] @ ''yor...''),
     (''InstallStepBootloader'', [CHR 0xC3, CHR 0x96] @ ''ny'' @ [CHR 0xC3, CHR 0xBC] @ ''kleyici kuruluyor...''),
     (''InstallStepFirmware'', ''UEFI '' @ [CHR 0xC3, CHR 0xB6] @ ''ny'' @ [CHR 0xC3, CHR 0xBC] @ ''kleme kayd'' @ [CHR 0xC4, CHR 0xB1] @ '' ekleniyor...''),
     (''InstallDone'', ''Kurulum tamam. USB belle'' @ [CHR 0xC4, CHR 0x9F] @ ''i veya CD'yi '' @ [CHR 0xC3, CHR 0xA7, CHR 0xC4, CHR 0xB1] @ ''kar'' @ [CHR 0xC4, CHR 0xB1] @ ''p Enter'a bas'' @ [CHR 0xC4, CHR 0xB1] @ ''n.''),
     (''InstallFailed'', ''Kurulum ba'' @ [CHR 0xC5, CHR 0x9F] @ ''ar'' @ [CHR 0xC4, CHR 0xB1] @ ''s'' @ [CHR 0xC4, CHR 0xB1] @ ''z: %s''),
     (''InstallSelf'', ''('' @ [CHR 0xC3, CHR 0xA7] @ ''al'' @ [CHR 0xC4, CHR 0xB1, CHR 0xC5, CHR 0x9F] @ ''an bellek)''),
     (''InstallSelfWarn'', ''Kiosk bu bellekten '' @ [CHR 0xC3, CHR 0xA7] @ ''al'' @ [CHR 0xC4, CHR 0xB1, CHR 0xC5, CHR 0x9F, CHR 0xC4, CHR 0xB1] @ ''yor: kurulacaklar '' @ [CHR 0xC3, CHR 0xB6] @ ''nce RAM'e kopyalan'' @ [CHR 0xC4, CHR 0xB1] @ ''r. Kurulum bitene kadar belle'' @ [CHR 0xC4, CHR 0x9F] @ ''i '' @ [CHR 0xC3, CHR 0xA7, CHR 0xC4, CHR 0xB1] @ ''karmay'' @ [CHR 0xC4, CHR 0xB1] @ ''n.''),
     (''InstallDoneSelf'', ''Bu belle'' @ [CHR 0xC4, CHR 0x9F] @ ''e kuruldu. Ondan yeniden ba'' @ [CHR 0xC5, CHR 0x9F] @ ''latmak i'' @ [CHR 0xC3, CHR 0xA7] @ ''in Enter'a bas'' @ [CHR 0xC4, CHR 0xB1] @ ''n.''),
     (''HintNetwork'', ''A'' @ [CHR 0xC4, CHR 0x9F]),
     (''NetTitle'', ''A'' @ [CHR 0xC4, CHR 0x9F] @ '' ayarlar'' @ [CHR 0xC4, CHR 0xB1]),
     (''NetMode'', ''Ba'' @ [CHR 0xC4, CHR 0x9F] @ ''lant'' @ [CHR 0xC4, CHR 0xB1] @ '':'')]"

definition turkish2 :: "(string \<times> string) list" where
  "turkish2 = [
     (''NetDHCP'', ''DHCP (otomatik)''),
     (''NetStatic'', ''Manuel''),
     (''NetAddress'', ''IP adresi:''),
     (''NetMask'', ''Alt a'' @ [CHR 0xC4, CHR 0x9F] @ '' maskesi:''),
     (''NetGateway'', ''A'' @ [CHR 0xC4, CHR 0x9F] @ '' ge'' @ [CHR 0xC3, CHR 0xA7] @ ''idi:''),
     (''NetDNS1'', ''Tercih edilen DNS:''),
     (''NetDNS2'', ''Alternatif DNS:''),
     (''NetPort'', ''RDP portu:''),
     (''NetSave'', ''Kaydet''),
     (''NetCable'', ''%s: kablo tak'' @ [CHR 0xC4, CHR 0xB1] @ ''l'' @ [CHR 0xC4, CHR 0xB1]),
     (''NetNoCable'', ''%s: kablo yok''),
     (''NetNoAddress'', ''adres yok''),
     (''NetApplying'', ''Uygulan'' @ [CHR 0xC4, CHR 0xB1] @ ''yor...''),
     (''NetSaved'', ''Kaydedildi.''),
     (''NetSessionOnly'', ''Yeniden ba'' @ [CHR 0xC5, CHR 0x9F] @ ''lat'' @ [CHR 0xC4, CHR 0xB1] @ ''lana dek uyguland'' @ [CHR 0xC4, CHR 0xB1] @ '': CD'de ayar kaydedilecek yer yok.''),
     (''NetErrAddress'', ''IP adresi ge'' @ [CHR 0xC3, CHR 0xA7] @ ''ersiz''),
     (''NetErrMask'', ''Alt a'' @ [CHR 0xC4, CHR 0x9F] @ '' maskesi ge'' @ [CHR 0xC3, CHR 0xA7] @ ''ersiz''),
     (''NetErrGateway'', ''A'' @ [CHR 0xC4, CHR 0x9F] @ '' ge'' @ [CHR 0xC3, CHR 0xA7] @ ''idi bu alt a'' @ [CHR 0xC4, CHR 0x9F] @ ''da de'' @ [CHR 0xC4, CHR 0x9F] @ ''il''),
     (''NetErrDNS'', ''DNS sunucusu adresi ge'' @ [CHR 0xC3, CHR 0xA7] @ ''ersiz''),
     (''NetErrPort'', ''RDP portu 1 ile 65535 aras'' @ [CHR 0xC4, CHR 0xB1] @ '' bir say'' @ [CHR 0xC4, CHR 0xB1] @ '' olmal'' @ [CHR 0xC4, CHR 0xB1]),
     (''NetErrApply'', ''Uygulanamad'' @ [CHR 0xC4, CHR 0xB1] @ '': %s''),
     (''HintAutoOff'', ''A'' @ [CHR 0xC3, CHR 0xA7, CHR 0xC4, CHR 0xB1] @ ''l'' @ [CHR 0xC4, CHR 0xB1, CHR 0xC5, CHR 0x9F] @ ''ta: sunucu listesi''),
     (''HintAutoDialog'', ''A'' @ [CHR 0xC3, CHR 0xA7, CHR 0xC4, CHR 0xB1] @ ''l'' @ [CHR 0xC4, CHR 0xB1, CHR 0xC5, CHR 0x9F] @ ''ta: bu sunucu''),
     (''HintAutoLogon'', ''A'' @ [CHR 0xC3, CHR 0xA7, CHR 0xC4, CHR 0xB1] @ ''l'' @ [CHR 0xC4, CHR 0xB1, CHR 0xC5, CHR 0x9F] @ ''ta: oturum a'' @ [CHR 0xC3, CHR 0xA7] @ '', parola cihazda saklan'' @ [CHR 0xC4, CHR 0xB1] @ ''r''),
     (''AutoCountdown'', ''%d sn i'' @ [CHR 0xC3, CHR 0xA7] @ ''inde oturum a'' @ [CHR 0xC3, CHR 0xA7, CHR 0xC4, CHR 0xB1] @ ''lacak''),
     (''AutoWaitNet'', ''A'' @ [CHR 0xC4, CHR 0x9F] @ '' bekleniyor''),
     (''AutoRetry'', ''%d sn sonra yeniden denenecek''),
     (''AutoKeys'', ''Enter: hemen    Esc: sunucu listesi''),
     (''NetWireless'', ''Kablosuz:''),
     (''NetWifiChoose'', ''A'' @ [CHR 0xC4, CHR 0x9F] @ '' se'' @ [CHR 0xC3, CHR 0xA7] @ ''in''),
     (''NetWifiOn'', ''%s  '' @ [CHR 0xC2, CHR 0xB7] @ ''  ba'' @ [CHR 0xC4, CHR 0x9F] @ ''l'' @ [CHR 0xC4, CHR 0xB1]),
     (''NetWifiJoining'', ''%s  '' @ [CHR 0xC2, CHR 0xB7] @ ''  ba'' @ [CHR 0xC4, CHR 0x9F] @ ''lan'' @ [CHR 0xC4, CHR 0xB1] @ ''yor''),
     (''NetWifiOff'', ''%s  '' @ [CHR 0xC2, CHR 0xB7] @ ''  ba'' @ [CHR 0xC4, CHR 0x9F] @ ''l'' @ [CHR 0xC4, CHR 0xB1] @ '' de'' @ [CHR 0xC4, CHR 0x9F] @ ''il''),
     (''NetIfWireless'', ''%s: kablosuz''),
     (''WifiTitle'', ''Kablosuz a'' @ [CHR 0xC4, CHR 0x9F] @ ''lar''),
     (''WifiHidden'', ''Gizli a'' @ [CHR 0xC4, CHR 0x9F] @ ''...''),
     (''WifiOpen'', ''A'' @ [CHR 0xC3, CHR 0xA7, CHR 0xC4, CHR 0xB1] @ ''k''),
     (''WifiEnterprise'', ''Kurumsal''),
     (''WifiMarkOn'', ''Ba'' @ [CHR 0xC4, CHR 0x9F] @ ''l'' @ [CHR 0xC4, CHR 0xB1]),
     (''WifiMarkJoining'', ''Ba'' @ [CHR 0xC4, CHR 0x9F] @ ''lan'' @ [CHR 0xC4, CHR 0xB1] @ ''yor''),
     (''WifiMarkKept'', ''Kay'' @ [CHR 0xC4, CHR 0xB1] @ ''tl'' @ [CHR 0xC4, CHR 0xB1]),
     (''WifiScanning'', ''A'' @ [CHR 0xC4, CHR 0x9F] @ ''lar aran'' @ [CHR 0xC4, CHR 0xB1] @ ''yor...''),
     (''WifiNone'', ''A'' @ [CHR 0xC4, CHR 0x9F] @ '' bulunamad'' @ [CHR 0xC4, CHR 0xB1]),
     (''WifiDown'', ''Kablosuz hizmeti yan'' @ [CHR 0xC4, CHR 0xB1] @ ''t vermiyor''),
     (''WifiStatusOn'', ''Ba'' @ [CHR 0xC4, CHR 0x9F] @ ''l'' @ [CHR 0xC4, CHR 0xB1] @ '': %s''),
     (''WifiStatusOff'', ''Ba'' @ [CHR 0xC4, CHR 0x9F] @ ''l'' @ [CHR 0xC4, CHR 0xB1] @ '' de'' @ [CHR 0xC4, CHR 0x9F] @ ''il''),
     (''WifiStatusKept'', ''kay'' @ [CHR 0xC4, CHR 0xB1] @ ''tl'' @ [CHR 0xC4, CHR 0xB1] @ '': %s''),
     (''WifiNoAddress'', ''adres bekleniyor''),
     (''WifiJoining'', ''Ba'' @ [CHR 0xC4, CHR 0x9F] @ ''lan'' @ [CHR 0xC4, CHR 0xB1] @ ''l'' @ [CHR 0xC4, CHR 0xB1] @ ''yor: %s...''),
     (''WifiFailed'', ''Ba'' @ [CHR 0xC4, CHR 0x9F] @ ''lan'' @ [CHR 0xC4, CHR 0xB1] @ ''lamad'' @ [CHR 0xC4, CHR 0xB1] @ '': %s''),
     (''WifiRejected'', ''A'' @ [CHR 0xC4, CHR 0x9F] @ '' parolay'' @ [CHR 0xC4, CHR 0xB1] @ '' kabul etmedi''),
     (''WifiRejectedUser'', ''A'' @ [CHR 0xC4, CHR 0x9F] @ '' kullan'' @ [CHR 0xC4, CHR 0xB1] @ ''c'' @ [CHR 0xC4, CHR 0xB1] @ '' ad'' @ [CHR 0xC4, CHR 0xB1] @ ''n'' @ [CHR 0xC4, CHR 0xB1] @ '' veya parolay'' @ [CHR 0xC4, CHR 0xB1] @ '' kabul etmedi''),
     (''WifiForgotten'', ''Unutuldu: %s''),
     (''WifiNetwork'', ''A'' @ [CHR 0xC4, CHR 0x9F] @ '':''),
     (''WifiName'', ''A'' @ [CHR 0xC4, CHR 0x9F] @ '' ad'' @ [CHR 0xC4, CHR 0xB1] @ '':''),
     (''WifiSecurity'', ''G'' @ [CHR 0xC3, CHR 0xBC] @ ''venlik:''),
     (''WifiErrName'', ''A'' @ [CHR 0xC4, CHR 0x9F, CHR 0xC4, CHR 0xB1] @ ''n ad'' @ [CHR 0xC4, CHR 0xB1] @ ''n'' @ [CHR 0xC4, CHR 0xB1] @ '' yaz'' @ [CHR 0xC4, CHR 0xB1] @ ''n''),
     (''WifiErrUser'', ''Kullan'' @ [CHR 0xC4, CHR 0xB1] @ ''c'' @ [CHR 0xC4, CHR 0xB1] @ '' ad'' @ [CHR 0xC4, CHR 0xB1] @ ''n'' @ [CHR 0xC4, CHR 0xB1] @ '' yaz'' @ [CHR 0xC4, CHR 0xB1] @ ''n''),
     (''WifiErrNoPassword'', ''Parolay'' @ [CHR 0xC4, CHR 0xB1] @ '' yaz'' @ [CHR 0xC4, CHR 0xB1] @ ''n''),
     (''WifiErrPassword'', ''WPA parolas'' @ [CHR 0xC4, CHR 0xB1] @ '' 8-63 karakterdir'')]"

definition turkish3 :: "(string \<times> string) list" where
  "turkish3 = [
     (''WifiErrWEP'', ''WEP a'' @ [CHR 0xC4, CHR 0x9F] @ ''lar'' @ [CHR 0xC4, CHR 0xB1] @ '' desteklenmiyor''),
     (''HintForget'', ''Unut''),
     (''HintBack'', ''Geri''),
     (''HintUpdate'', ''G'' @ [CHR 0xC3, CHR 0xBC] @ ''ncelleme''),
     (''UpdateTitle'', ''Yaz'' @ [CHR 0xC4, CHR 0xB1] @ ''l'' @ [CHR 0xC4, CHR 0xB1] @ ''m g'' @ [CHR 0xC3, CHR 0xBC] @ ''ncellemesi''),
     (''UpdateThis'', ''Bu s'' @ [CHR 0xC3, CHR 0xBC] @ ''r'' @ [CHR 0xC3, CHR 0xBC] @ ''m:''),
     (''UpdateLatest'', ''Son s'' @ [CHR 0xC3, CHR 0xBC] @ ''r'' @ [CHR 0xC3, CHR 0xBC] @ ''m:''),
     (''UpdateNotChecked'', ''hen'' @ [CHR 0xC3, CHR 0xBC] @ ''z denetlenmedi''),
     (''UpdateChecking'', ''denetleniyor...''),
     (''UpdateUpToDate'', ''En son s'' @ [CHR 0xC3, CHR 0xBC] @ ''r'' @ [CHR 0xC3, CHR 0xBC] @ ''m bu.''),
     (''UpdateReady'', ''%s '' @ [CHR 0xC3, CHR 0xA7, CHR 0xC4, CHR 0xB1] @ ''kt'' @ [CHR 0xC4, CHR 0xB1] @ ''. G'' @ [CHR 0xC3, CHR 0xBC] @ ''ncelle onu indirir ve kiosk onunla yeniden ba'' @ [CHR 0xC5, CHR 0x9F] @ ''lar; bu makinede a'' @ [CHR 0xC3, CHR 0xA7, CHR 0xC4, CHR 0xB1] @ ''lmazsa kiosk bu s'' @ [CHR 0xC3, CHR 0xBC] @ ''r'' @ [CHR 0xC3, CHR 0xBC] @ ''me geri d'' @ [CHR 0xC3, CHR 0xB6] @ ''ner.''),
     (''UpdateNoDisk'', ''%s i'' @ [CHR 0xC3, CHR 0xA7] @ ''in diske kurulu kiosk g'' @ [CHR 0xC3, CHR 0xBC] @ ''ncellemesi yok; USB bellekten kurulur.''),
     (''UpdateDidNotStart'', ''%s bu makinede a'' @ [CHR 0xC3, CHR 0xA7, CHR 0xC4, CHR 0xB1] @ ''lamad'' @ [CHR 0xC4, CHR 0xB1] @ ''; kiosk bu s'' @ [CHR 0xC3, CHR 0xBC] @ ''r'' @ [CHR 0xC3, CHR 0xBC] @ ''me geri d'' @ [CHR 0xC3, CHR 0xB6] @ ''nd'' @ [CHR 0xC3, CHR 0xBC] @ ''.''),
     (''UpdateDownloading'', ''%s indiriliyor: %d / %d MB''),
     (''UpdateDownloadingNoSize'', ''%s indiriliyor: %d MB''),
     (''UpdateRestarting'', ''%s kuruldu. Yeniden ba'' @ [CHR 0xC5, CHR 0x9F] @ ''lat'' @ [CHR 0xC4, CHR 0xB1] @ ''l'' @ [CHR 0xC4, CHR 0xB1] @ ''yor...''),
     (''UpdateFailed'', ''G'' @ [CHR 0xC3, CHR 0xBC] @ ''ncelleme ba'' @ [CHR 0xC5, CHR 0x9F] @ ''ar'' @ [CHR 0xC4, CHR 0xB1] @ ''s'' @ [CHR 0xC4, CHR 0xB1] @ ''z: %s''),
     (''UpdateCheckFailed'', ''Denetlenemedi: %s''),
     (''UpdateErrNetwork'', ''s'' @ [CHR 0xC3, CHR 0xBC] @ ''r'' @ [CHR 0xC3, CHR 0xBC] @ ''m sunucusuna ula'' @ [CHR 0xC5, CHR 0x9F, CHR 0xC4, CHR 0xB1] @ ''lam'' @ [CHR 0xC4, CHR 0xB1] @ ''yor (%s)''),
     (''UpdateErrDamaged'', ''indirilen dosya bozuk; yeniden deneyin''),
     (''UpdateErrStalled'', ''indirme durdu; a'' @ [CHR 0xC4, CHR 0x9F, CHR 0xC4, CHR 0xB1] @ '' denetleyip yeniden deneyin''),
     (''UpdateErrUnproven'', ''bu a'' @ [CHR 0xC3, CHR 0xA7, CHR 0xC4, CHR 0xB1] @ ''l'' @ [CHR 0xC4, CHR 0xB1, CHR 0xC5, CHR 0x9F] @ '' hen'' @ [CHR 0xC3, CHR 0xBC] @ ''z do'' @ [CHR 0xC4, CHR 0x9F] @ ''rulan'' @ [CHR 0xC4, CHR 0xB1] @ ''yor; bir dakika sonra yeniden deneyin''),
     (''UpdateErrInsecure'', ''s'' @ [CHR 0xC3, CHR 0xBC] @ ''r'' @ [CHR 0xC3, CHR 0xBC] @ ''m sunucusu HTTPS de'' @ [CHR 0xC4, CHR 0x9F] @ ''il; g'' @ [CHR 0xC3, CHR 0xBC] @ ''ncelleme yaln'' @ [CHR 0xC4, CHR 0xB1] @ ''z HTTPS ile al'' @ [CHR 0xC4, CHR 0xB1] @ ''n'' @ [CHR 0xC4, CHR 0xB1] @ ''r''),
     (''UpdateCancelled'', ''iptal edildi''),
     (''UpdateNew'', ''Yeni s'' @ [CHR 0xC3, CHR 0xBC] @ ''r'' @ [CHR 0xC3, CHR 0xBC] @ ''m %s (F9)''),
     (''UpdateNoticeOK'', ''G'' @ [CHR 0xC3, CHR 0xBC] @ ''ncelleme ba'' @ [CHR 0xC5, CHR 0x9F] @ ''ar'' @ [CHR 0xC4, CHR 0xB1] @ ''l'' @ [CHR 0xC4, CHR 0xB1] @ '': %s kuruldu ve '' @ [CHR 0xC3, CHR 0xA7] @ ''al'' @ [CHR 0xC4, CHR 0xB1, CHR 0xC5, CHR 0x9F, CHR 0xC4, CHR 0xB1] @ ''yor.''),
     (''UpdateNoticeFailed'', ''G'' @ [CHR 0xC3, CHR 0xBC] @ ''ncelleme ba'' @ [CHR 0xC5, CHR 0x9F] @ ''ar'' @ [CHR 0xC4, CHR 0xB1] @ ''s'' @ [CHR 0xC4, CHR 0xB1] @ ''z: %s bu makinede a'' @ [CHR 0xC3, CHR 0xA7, CHR 0xC4, CHR 0xB1] @ ''lamad'' @ [CHR 0xC4, CHR 0xB1] @ '', kiosk %s s'' @ [CHR 0xC3, CHR 0xBC] @ ''r'' @ [CHR 0xC3, CHR 0xBC] @ ''m'' @ [CHR 0xC3, CHR 0xBC] @ ''ne geri d'' @ [CHR 0xC3, CHR 0xB6] @ ''nd'' @ [CHR 0xC3, CHR 0xBC] @ ''.''),
     (''ButtonCheck'', ''Denetle''),
     (''ButtonUpdate'', ''G'' @ [CHR 0xC3, CHR 0xBC] @ ''ncelle''),
     (''ButtonClose'', ''Kapat''),
     (''HintPower'', ''Kapat''),
     (''PowerTitle'', ''Yeniden ba'' @ [CHR 0xC5, CHR 0x9F] @ ''lat ya da kapat''),
     (''PowerQuestion'', ''Kiosk yeniden ba'' @ [CHR 0xC5, CHR 0x9F] @ ''lat'' @ [CHR 0xC4, CHR 0xB1] @ ''ls'' @ [CHR 0xC4, CHR 0xB1] @ ''n m'' @ [CHR 0xC4, CHR 0xB1] @ '', kapat'' @ [CHR 0xC4, CHR 0xB1] @ ''ls'' @ [CHR 0xC4, CHR 0xB1] @ ''n m'' @ [CHR 0xC4, CHR 0xB1] @ ''? Sunucuda a'' @ [CHR 0xC3, CHR 0xA7, CHR 0xC4, CHR 0xB1] @ ''k oturum varsa orada kal'' @ [CHR 0xC4, CHR 0xB1] @ ''r, yeniden ba'' @ [CHR 0xC4, CHR 0x9F] @ ''lan'' @ [CHR 0xC4, CHR 0xB1] @ ''nca ona d'' @ [CHR 0xC3, CHR 0xB6] @ ''n'' @ [CHR 0xC3, CHR 0xBC] @ ''l'' @ [CHR 0xC3, CHR 0xBC] @ ''r.''),
     (''PowerRestarting'', ''Yeniden ba'' @ [CHR 0xC5, CHR 0x9F] @ ''lat'' @ [CHR 0xC4, CHR 0xB1] @ ''l'' @ [CHR 0xC4, CHR 0xB1] @ ''yor...''),
     (''PowerSwitchingOff'', ''Kapat'' @ [CHR 0xC4, CHR 0xB1] @ ''l'' @ [CHR 0xC4, CHR 0xB1] @ ''yor...''),
     (''ButtonRestart'', ''Yeniden ba'' @ [CHR 0xC5, CHR 0x9F] @ ''lat''),
     (''ButtonSwitchOff'', ''Kapat''),
     (''PowerDriverRetry'', ''G'' @ [CHR 0xC3, CHR 0xBC] @ ''ncelleme bu makinenin ekran kart'' @ [CHR 0xC4, CHR 0xB1] @ ''na s'' @ [CHR 0xC3, CHR 0xBC] @ ''r'' @ [CHR 0xC3, CHR 0xBC] @ ''c'' @ [CHR 0xC3, CHR 0xBC] @ ''s'' @ [CHR 0xC3, CHR 0xBC] @ ''n'' @ [CHR 0xC3, CHR 0xBC] @ '' geri veriyor. Kullanmak i'' @ [CHR 0xC3, CHR 0xA7] @ ''in yeniden ba'' @ [CHR 0xC5, CHR 0x9F] @ ''lat'' @ [CHR 0xC4, CHR 0xB1] @ ''l'' @ [CHR 0xC4, CHR 0xB1] @ ''yor...''),
     (''VideoSafe'', ''g'' @ [CHR 0xC3, CHR 0xBC] @ ''venli grafik''),
     (''ButtonDriver'', ''S'' @ [CHR 0xC3, CHR 0xBC] @ ''r'' @ [CHR 0xC3, CHR 0xBC] @ ''c'' @ [CHR 0xC3, CHR 0xBC] @ ''y'' @ [CHR 0xC3, CHR 0xBC] @ '' dene''),
     (''PowerDriverNote'', ''Ekran kart'' @ [CHR 0xC4, CHR 0xB1] @ '' g'' @ [CHR 0xC3, CHR 0xBC] @ ''venli grafikte: iki a'' @ [CHR 0xC3, CHR 0xA7, CHR 0xC4, CHR 0xB1] @ ''l'' @ [CHR 0xC4, CHR 0xB1, CHR 0xC5, CHR 0x9F] @ '' s'' @ [CHR 0xC3, CHR 0xBC] @ ''r'' @ [CHR 0xC3, CHR 0xBC] @ ''c'' @ [CHR 0xC3, CHR 0xBC] @ ''s'' @ [CHR 0xC3, CHR 0xBC] @ '' y'' @ [CHR 0xC3, CHR 0xBC] @ ''klenirken yar'' @ [CHR 0xC4, CHR 0xB1] @ ''da kald'' @ [CHR 0xC4, CHR 0xB1] @ '', belki fi'' @ [CHR 0xC5, CHR 0x9F] @ '' '' @ [CHR 0xC3, CHR 0xA7] @ ''ekildi'' @ [CHR 0xC4, CHR 0x9F] @ ''i i'' @ [CHR 0xC3, CHR 0xA7] @ ''in. S'' @ [CHR 0xC3, CHR 0xBC] @ ''r'' @ [CHR 0xC3, CHR 0xBC] @ ''c'' @ [CHR 0xC3, CHR 0xBC] @ ''y'' @ [CHR 0xC3, CHR 0xBC] @ '' dene d'' @ [CHR 0xC3, CHR 0xBC, CHR 0xC4, CHR 0x9F] @ ''mesi kiosk'' @ [CHR 0xC4, CHR 0xB1] @ '' s'' @ [CHR 0xC3, CHR 0xBC] @ ''r'' @ [CHR 0xC3, CHR 0xBC] @ ''c'' @ [CHR 0xC3, CHR 0xBC] @ ''yle bir kez yeniden ba'' @ [CHR 0xC5, CHR 0x9F] @ ''lat'' @ [CHR 0xC4, CHR 0xB1] @ ''r; yine olmazsa g'' @ [CHR 0xC3, CHR 0xBC] @ ''venli grafikle a'' @ [CHR 0xC3, CHR 0xA7, CHR 0xC4, CHR 0xB1] @ ''l'' @ [CHR 0xC4, CHR 0xB1] @ ''r.''),
     (''PowerDriverTrying'', ''Ekran kart'' @ [CHR 0xC4, CHR 0xB1] @ ''n'' @ [CHR 0xC4, CHR 0xB1] @ ''n s'' @ [CHR 0xC3, CHR 0xBC] @ ''r'' @ [CHR 0xC3, CHR 0xBC] @ ''c'' @ [CHR 0xC3, CHR 0xBC] @ ''s'' @ [CHR 0xC3, CHR 0xBC] @ ''n'' @ [CHR 0xC3, CHR 0xBC] @ '' denemek i'' @ [CHR 0xC3, CHR 0xA7] @ ''in yeniden ba'' @ [CHR 0xC5, CHR 0x9F] @ ''lat'' @ [CHR 0xC4, CHR 0xB1] @ ''l'' @ [CHR 0xC4, CHR 0xB1] @ ''yor...'')]"

definition turkish :: "(string \<times> string) list" where
  "turkish = turkish1 @ turkish2 @ turkish3"

definition catalogues :: "(string \<times> (string \<times> string) list) list" where
  "catalogues = [(LangEN, english), (LangTR, turkish)]"

section \<open>Choosing a language\<close>

definition Set_lang :: "string \<Rightarrow> string" where
  \<comment> \<open>\<open>Set\<close>: the language active afterwards\<close>
  "Set_lang l = (if map_of catalogues l = None then Default else l)"

definition Next_lang :: "string \<Rightarrow> string" where
  "Next_lang cur =
     (case filter (\<lambda>i. lang_order ! i = cur) [0 ..< length lang_order] of
        i # _ \<Rightarrow> Set_lang (lang_order ! (Suc i mod length lang_order))
      | [] \<Rightarrow> Set_lang Default)"

definition locale_mark :: "char \<Rightarrow> bool" where
  "locale_mark c \<longleftrightarrow> c = CHR ''_'' \<or> c = CHR ''-'' \<or> c = CHR ''.''"

definition Parse_lang :: "string \<Rightarrow> string \<times> bool" where
  "Parse_lang s0 =
     (let s = to_lower (trim_space s0);
          p = takeWhile (\<lambda>c. \<not> locale_mark c) s;
          l = (if p \<noteq> [] then p else s)
      in if s = [] then (Default, False) else if l \<in> set lang_order then (l, True) else (Default, False))"

section \<open>Texts\<close>

definition T_msg :: "string \<Rightarrow> string \<Rightarrow> string" where
  \<comment> \<open>\<open>T\<close>, in a language\<close>
  "T_msg lang k = (case map_of (go_lookup catalogues lang) k of None \<Rightarrow> [] | Some s \<Rightarrow> s)"

datatype fmt_part = Plain char | Verb "nat option" char   \<comment> \<open>with an explicit argument, from 1\<close>
datatype fmt_arg = ArgS string | ArgD int

fun fmt_parts :: "string \<Rightarrow> fmt_part list" where
  \<comment> \<open>a format, as far as the catalogues go: \<open>%s\<close>, \<open>%d\<close>, \<open>%[1]s\<close>\<close>
  "fmt_parts [] = []"
| "fmt_parts (c # s) =
     (if c \<noteq> CHR ''%'' then Plain c # fmt_parts s
      else case s of [] \<Rightarrow> [Verb None CHR ''%'']
        | v # r \<Rightarrow>
          (case r of n # b # w # r' \<Rightarrow>
              if v = CHR ''['' \<and> b = CHR '']'' then Verb (Some (of_char n - 48)) w # fmt_parts r'
              else Verb None v # fmt_parts r
            | _ \<Rightarrow> Verb None v # fmt_parts r))"

fun fmt_uses :: "nat \<Rightarrow> fmt_part list \<Rightarrow> (nat \<times> char) list" where
  \<comment> \<open>the arguments a format takes, from 0, and how\<close>
  "fmt_uses n [] = []"
| "fmt_uses n (Plain c # ps) = fmt_uses n ps"
| "fmt_uses n (Verb None v # ps) = (n, v) # fmt_uses (Suc n) ps"
| "fmt_uses n (Verb (Some k) v # ps) = (k - 1, v) # fmt_uses k ps"

definition reordered :: "fmt_part list \<Rightarrow> bool" where
  "reordered ps \<longleftrightarrow> list_ex (\<lambda>p. case p of Verb (Some _) _ \<Rightarrow> True | _ \<Rightarrow> False) ps"

fun fmt_fits :: "char \<Rightarrow> fmt_arg \<Rightarrow> bool" where
  "fmt_fits v (ArgS _) = (v = CHR ''s'')"
| "fmt_fits v (ArgD _) = (v = CHR ''d'')"

fun fmt_arg_text :: "fmt_arg \<Rightarrow> string" where
  "fmt_arg_text (ArgS s) = s"
| "fmt_arg_text (ArgD i) = itoa i"

fun fmt_render :: "nat \<Rightarrow> fmt_arg list \<Rightarrow> fmt_part list \<Rightarrow> string" where
  "fmt_render n args [] = []"
| "fmt_render n args (Plain c # ps) = c # fmt_render n args ps"
| "fmt_render n args (Verb None v # ps) = fmt_arg_text (args ! n) @ fmt_render (Suc n) args ps"
| "fmt_render n args (Verb (Some k) v # ps) = fmt_arg_text (args ! (k - 1)) @ fmt_render k args ps"

definition go_sprintf :: "string \<Rightarrow> fmt_arg list \<Rightarrow> string option" where
  \<comment> \<open>\<open>fmt.Sprintf\<close>; \<open>None\<close>: an argument is missing, left over or of the wrong type, which Go
    writes into the text as \<open>%!d(string=...)\<close> and the like\<close>
  "go_sprintf f args =
     (let ps = fmt_parts f; us = fmt_uses 0 ps
      in if list_all (\<lambda>(i, v). i < length args \<and> fmt_fits v (args ! i)) us \<and>
            (reordered ps \<or> length args = length us)
         then Some (fmt_render 0 args ps) else None)"

definition Tf_msg :: "string \<Rightarrow> string \<Rightarrow> fmt_arg list \<Rightarrow> string option" where
  "Tf_msg lang k args = go_sprintf (T_msg lang k) args"

definition HostCount :: "string \<Rightarrow> int \<Rightarrow> string option" where
  "HostCount lang n = Tf_msg lang (if n = 1 then ''HostsFoundOne'' else ''HostsFound'') [ArgD n]"

section \<open>Nothing is missing in either language\<close>

definition uses_of :: "nat \<Rightarrow> string \<Rightarrow> (nat \<times> char) list" where
  "uses_of n s = fmt_uses n (fmt_parts s)"

definition reorders :: "string \<Rightarrow> bool" where
  "reorders s = reordered (fmt_parts s)"

lemma uses_of_eval:
  "uses_of n [] = []"
  "c \<noteq> CHR ''%'' \<Longrightarrow> uses_of n (c # s) = uses_of n s"
  "v \<noteq> CHR ''['' \<Longrightarrow> uses_of n (CHR ''%'' # v # s) = (n, v) # uses_of (Suc n) s"
  "uses_of n (CHR ''%'' # CHR ''['' # d # CHR '']'' # w # s) = (of_char d - 48 - 1, w) # uses_of (of_char d - 48) s"
  by (auto simp: uses_of_def split: list.split)

lemma reorders_eval:
  "reorders [] = False"
  "c \<noteq> CHR ''%'' \<Longrightarrow> reorders (c # s) = reorders s"
  "v \<noteq> CHR ''['' \<Longrightarrow> reorders (CHR ''%'' # v # s) = reorders s"
  "reorders (CHR ''%'' # CHR ''['' # d # CHR '']'' # w # s) = True"
  by (auto simp: reorders_def reordered_def split: list.split)

definition same_args :: "string \<Rightarrow> string \<Rightarrow> bool" where
  "same_args a b \<longleftrightarrow> reorders a = reorders b \<and> mset (uses_of 0 a) = mset (uses_of 0 b)"

lemmas part_eval = same_args_def uses_of_eval reorders_eval

lemma part1: "list_all2 (\<lambda>x y. same_args (snd x) (snd y)) english1 turkish1"
  by (simp add: english1_def turkish1_def part_eval)

lemma part2: "list_all2 (\<lambda>x y. same_args (snd x) (snd y)) english2 turkish2"
  by (simp add: english2_def turkish2_def part_eval)

lemma part3: "list_all2 (\<lambda>x y. same_args (snd x) (snd y)) english3 turkish3"
  by (simp add: english3_def turkish3_def part_eval)

lemma same_keys_languages: "map fst english = message_keys" "map fst turkish = message_keys"
  by (simp_all only: english_def english1_def english2_def english3_def turkish_def turkish1_def turkish2_def turkish3_def
      message_keys_def message_keys1_def message_keys2_def map_append list.map fst_conv append.simps)

lemma none_empty: "list_all (\<lambda>e. snd e \<noteq> []) english" "list_all (\<lambda>e. snd e \<noteq> []) turkish"
  by (simp_all add: english_def english1_def english2_def english3_def turkish_def turkish1_def turkish2_def turkish3_def)

lemma same_args_sprintf: "same_args a b \<Longrightarrow> go_sprintf a args = None \<longleftrightarrow> go_sprintf b args = None"
proof -
  assume "same_args a b"
  then have m: "mset (uses_of 0 a) = mset (uses_of 0 b)" and r: "reorders a = reorders b"
    by (auto simp: same_args_def)
  show ?thesis
    using mset_eq_setD [OF m] mset_eq_length [OF m] r
    by (simp add: go_sprintf_def Let_def list_all_iff uses_of_def reorders_def)
qed

lemma lookup_both:
  "list_all2 (\<lambda>x y. P (snd x) (snd y)) xs ys \<Longrightarrow> map fst xs = map fst ys \<Longrightarrow> k \<in> set (map fst xs) \<Longrightarrow>
   \<exists>a b. map_of xs k = Some a \<and> map_of ys k = Some b \<and> P a b \<and> a \<in> snd ` set xs \<and> b \<in> snd ` set ys"
  by (induction xs ys rule: list_all2_induct) auto

text \<open>C18. The two languages say the same things: every text there is a key for has
  a wording in English and in Turkish, never an empty one; whatever the program
  puts into a text fits the one wording exactly when it fits the other, so a
  translation never shows \<open>%!d(string=...)\<close> where the original shows a name; and
  F2 goes from one language to the other and back.\<close>

theorem translations_agree:
  assumes "k \<in> set message_keys"
  shows "T_msg LangEN k \<noteq> [] \<and> T_msg LangTR k \<noteq> [] \<and>
    (Tf_msg LangEN k args = None \<longleftrightarrow> Tf_msg LangTR k args = None) \<and>
    Next_lang LangEN = LangTR \<and> Next_lang LangTR = LangEN"
proof -
  have tables: "go_lookup catalogues LangEN = english" "go_lookup catalogues LangTR = turkish"
    by (simp_all add: go_lookup_def catalogues_def LangEN_def LangTR_def)
  have all: "list_all2 (\<lambda>x y. same_args (snd x) (snd y)) english turkish"
    unfolding english_def turkish_def by (intro list_all2_appendI part1 part2 part3)
  obtain a b where ab: "map_of english k = Some a" "map_of turkish k = Some b" "same_args a b"
    "a \<in> snd ` set english" "b \<in> snd ` set turkish"
    using lookup_both [OF all, of k] assms unfolding same_keys_languages by blast
  then have t: "T_msg LangEN k = a" "T_msg LangTR k = b" by (simp_all add: T_msg_def tables)
  have "a \<noteq> []" "b \<noteq> []" using ab(4,5) none_empty by (auto simp: list_all_iff)
  moreover have "Next_lang LangEN = LangTR" "Next_lang LangTR = LangEN"
    by (simp_all add: Next_lang_def lang_order_def Set_lang_def catalogues_def LangEN_def LangTR_def upt_rec)
  ultimately show ?thesis
    using same_args_sprintf [OF ab(3), of args] t by (simp add: Tf_msg_def)
qed

theorem translations_agree_witness:
  "Tf_msg LangTR ''HostsFound'' [ArgS ''x''] = None \<longleftrightarrow> Tf_msg LangEN ''HostsFound'' [ArgS ''x''] = None"
proof -
  have "''HostsFound'' \<in> set message_keys" by (simp add: message_keys_def message_keys1_def)
  from translations_agree [OF this, of "[ArgS ''x'']"] show ?thesis by simp
qed

end
