(* ===== verification/InputReader.thy ===== *)
theory InputReader
  imports Complex_Main Keyboard
begin

text \<open>
  \<open>internal/inputdev/reader.go\<close>: which evdev nodes are read, and what their
  events become: keys with their runes, clicks, the wheel, and the pointer, which
  mice move, touchpads drag and tablets place. An event of the kernel is a
  \<open>linux_event\<close>; what \<open>emit\<close> delivers is logged in \<open>delivered\<close>. Fractions of a
  pixel (\<open>float64\<close>) are rationals, so rounding errors of the hardware's
  arithmetic are not modelled.
\<close>

section \<open>Devices\<close>

definition parseBitmap :: "string \<Rightarrow> nat list" where
  \<comment> \<open>the lowest group first; a group that is no number stays 0\<close>
  "parseBitmap v = rev (map (\<lambda>f. case parse_uint 16 64 f of None \<Rightarrow> 0 | Some n \<Rightarrow> n) (str_fields v))"

definition has_bit :: "nat list \<Rightarrow> nat \<Rightarrow> bool" where
  "has_bit b i = (i div 64 < length b \<and> bit (b ! (i div 64)) (i mod 64))"

record input_block =
  dev_name :: string
  dev_handlers :: "string list"
  ev_bits :: "nat list"
  key_bits :: "nat list"
  rel_bits :: "nat list"
  abs_bits :: "nat list"
  prop_bits :: "nat list"

definition no_block :: input_block where
  "no_block = \<lparr>dev_name = [], dev_handlers = [], ev_bits = [], key_bits = [], rel_bits = [], abs_bits = [], prop_bits = []\<rparr>"

definition isKeyboard :: "input_block \<Rightarrow> bool" where
  "isKeyboard d \<longleftrightarrow> has_bit (ev_bits d) 1 \<and> list_all (has_bit (key_bits d)) [30, 44, 28, 57]"

definition isPointer :: "input_block \<Rightarrow> bool" where
  "isPointer d \<longleftrightarrow>
     (has_bit (ev_bits d) 2 \<and> has_bit (rel_bits d) 0 \<and> has_bit (rel_bits d) 1 \<and> has_bit (key_bits d) 0x110) \<or>
     (has_bit (ev_bits d) 3 \<and> has_bit (abs_bits d) 0 \<and> has_bit (abs_bits d) 1 \<and>
       (has_bit (key_bits d) 0x14A \<or> has_bit (key_bits d) 0x110))"

definition device_node :: "input_block \<Rightarrow> string" where
  "device_node d = (case filter (\<lambda>h. has_prefix h ''event'') (dev_handlers d) of
     h # _ \<Rightarrow> ''/dev/input/'' @ h | [] \<Rightarrow> [])"

definition device_line :: "string \<Rightarrow> input_block \<Rightarrow> input_block" where
  \<comment> \<open>a line of a stanza other than its first\<close>
  "device_line l d =
     (case cut_prefix l ''N: Name='' of Some v \<Rightarrow>
        d\<lparr>dev_name := trim_right (\<lambda>c. c = CHR 0x22) (trim_left (\<lambda>c. c = CHR 0x22) v)\<rparr>
      | None \<Rightarrow> (case cut_prefix l ''H: Handlers='' of Some v \<Rightarrow> d\<lparr>dev_handlers := str_fields v\<rparr>
      | None \<Rightarrow> (case cut_prefix l ''B: PROP='' of Some v \<Rightarrow> d\<lparr>prop_bits := parseBitmap v\<rparr>
      | None \<Rightarrow> (case cut_prefix l ''B: EV='' of Some v \<Rightarrow> d\<lparr>ev_bits := parseBitmap v\<rparr>
      | None \<Rightarrow> (case cut_prefix l ''B: KEY='' of Some v \<Rightarrow> d\<lparr>key_bits := parseBitmap v\<rparr>
      | None \<Rightarrow> (case cut_prefix l ''B: REL='' of Some v \<Rightarrow> d\<lparr>rel_bits := parseBitmap v\<rparr>
      | None \<Rightarrow> (case cut_prefix l ''B: ABS='' of Some v \<Rightarrow> d\<lparr>abs_bits := parseBitmap v\<rparr>
      | None \<Rightarrow> d)))))))"

definition parseDevices :: "string \<Rightarrow> input_block list" where
  "parseDevices text =
     (let (blocks, cur, inside) =
        foldl (\<lambda>(blocks, cur, inside) l.
            if has_prefix l ''I: '' then (if inside then blocks @ [cur] else blocks, no_block, True)
            else (blocks, device_line l cur, inside))
          ([], no_block, False) (scan_lines text)
      in if inside then blocks @ [cur] else blocks)"

definition findDevice :: "string \<Rightarrow> string \<Rightarrow> string option" where
  \<comment> \<open>\<open>None\<close>: the error\<close>
  "findDevice text kind =
     (case filter (\<lambda>d. (if kind = ''keyboard'' then isKeyboard d else if kind = ''mouse'' then isPointer d else False) \<and>
          device_node d \<noteq> []) (parseDevices text) of
        d # _ \<Rightarrow> Some (device_node d) | [] \<Rightarrow> None)"

record abs_range =
  abs_min :: "32 word"
  abs_max :: "32 word"

definition abs_span :: "abs_range \<Rightarrow> 32 word" where
  "abs_span a = (if sint (abs_max a) > sint (abs_min a) then abs_max a - abs_min a else 0)"

record device_info =
  is_abs :: bool
  touchpad :: bool
  range_x :: abs_range
  range_y :: abs_range

definition deviceInfoFor :: "abs_range \<Rightarrow> abs_range \<Rightarrow> input_block \<Rightarrow> device_info" where
  \<comment> \<open>with the ranges \<open>openDevice\<close> reads from the node, where it has any\<close>
  "deviceInfoFor rx ry b =
     (let a = has_bit (ev_bits b) 3 \<and> has_bit (abs_bits b) 0 \<and> has_bit (abs_bits b) 1;
          none = \<lparr>abs_min = 0, abs_max = 0\<rparr>
      in \<lparr>is_abs = a, touchpad = (a \<and> has_bit (prop_bits b) 0),
          range_x = (if a then rx else none), range_y = (if a then ry else none)\<rparr>)"

definition rescan_devices :: "(string \<Rightarrow> bool) \<Rightarrow> string option \<Rightarrow> string list \<Rightarrow> string list" where
  \<comment> \<open>\<open>rescan\<close>: the nodes being read afterwards; the first argument says which open\<close>
  "rescan_devices opens text nodes =
     (case text of None \<Rightarrow> nodes
      | Some t \<Rightarrow> foldl (\<lambda>ns b.
            let n = device_node b
            in if (isKeyboard b \<or> isPointer b) \<and> n \<noteq> [] \<and> n \<notin> set ns \<and> opens n then ns @ [n] else ns)
          nodes (parseDevices t))"

text \<open>However often the devices are looked through, no node is read twice, none
  that is being read is dropped, and only keyboards and pointers are read.\<close>

lemma rescan_devices_nodes:
  "distinct nodes \<Longrightarrow> distinct (rescan_devices opens text nodes) \<and> set nodes \<subseteq> set (rescan_devices opens text nodes) \<and>
   set (rescan_devices opens text nodes) \<subseteq> set nodes \<union>
     {device_node b | b. (isKeyboard b \<or> isPointer b) \<and> opens (device_node b)}"
proof -
  let ?f = "\<lambda>ns b. let n = device_node b
            in if (isKeyboard b \<or> isPointer b) \<and> n \<noteq> [] \<and> n \<notin> set ns \<and> opens n then ns @ [n] else ns"
  have "distinct ns \<Longrightarrow> distinct (foldl ?f ns bs) \<and> set ns \<subseteq> set (foldl ?f ns bs) \<and>
    set (foldl ?f ns bs) \<subseteq> set ns \<union> {device_node b | b. (isKeyboard b \<or> isPointer b) \<and> opens (device_node b)}" for ns bs
  proof (induction bs arbitrary: ns)
    case (Cons b bs)
    have "distinct (?f ns b)" "set ns \<subseteq> set (?f ns b)"
      "set (?f ns b) \<subseteq> set ns \<union> {device_node b | b. (isKeyboard b \<or> isPointer b) \<and> opens (device_node b)}"
      using Cons.prems by (auto simp: Let_def)
    then show ?case using Cons.IH [of "?f ns b"] by (simp only: foldl_Cons) blast
  qed simp
  then show "distinct nodes \<Longrightarrow> ?thesis" by (auto simp: rescan_devices_def split: option.split)
qed

section \<open>The reader\<close>

datatype event_type = EvKey | EvMouseMove | EvMouseButton | EvMouseWheel

record input_event =
  EvType :: event_type
  KeyCode :: int
  Rune :: nat
  MouseX :: int
  MouseY :: int
  Button :: int
  Pressed :: bool
  Wheel :: int

record reader =
  screenW :: int
  screenH :: int
  mouseX :: int
  mouseY :: int
  shiftOn :: bool
  ctrlOn :: bool
  altOn :: bool
  altGrOn :: bool
  capsOn :: bool
  activeLayout :: string
  delivered :: "input_event list"

definition newReader :: "int \<Rightarrow> int \<Rightarrow> reader" where
  "newReader w h =
     \<lparr>screenW = w, screenH = h, mouseX = go_div w 2, mouseY = go_div h 2, shiftOn = False, ctrlOn = False,
       altOn = False, altGrOn = False, capsOn = False, activeLayout = LayoutUS, delivered = []\<rparr>"

definition clampMouse :: "int \<Rightarrow> int \<Rightarrow> int" where
  "clampMouse v m = (if v < 0 then 0 else if v \<ge> m then m - 1 else v)"

definition Warp :: "int \<Rightarrow> int \<Rightarrow> reader \<Rightarrow> reader" where
  "Warp x y r = r\<lparr>mouseX := clampMouse x (screenW r), mouseY := clampMouse y (screenH r)\<rparr>"

definition SetScreen :: "int \<Rightarrow> int \<Rightarrow> reader \<Rightarrow> reader" where
  "SetScreen w h r =
     (if w \<le> 0 \<or> h \<le> 0 then r
      else let ow = screenW r; oh = screenH r; x = mouseX r; y = mouseY r;
               r1 = r\<lparr>screenW := w, screenH := h\<rparr>
           in if ow > 0 \<and> oh > 0 then Warp (go_div (x * w) ow) (go_div (y * h) oh) r1 else r1)"

definition moveBy :: "int \<Rightarrow> int \<Rightarrow> reader \<Rightarrow> reader" where
  "moveBy dx dy r =
     (let r1 = (if dx \<noteq> 0 then r\<lparr>mouseX := clampMouse (mouseX r + dx) (screenW r)\<rparr> else r)
      in if dy \<noteq> 0 then r1\<lparr>mouseY := clampMouse (mouseY r1 + dy) (screenH r1)\<rparr> else r1)"

definition moveTo :: "device_info \<Rightarrow> 32 word \<Rightarrow> 32 word \<Rightarrow> reader \<Rightarrow> reader" where
  "moveTo d ax ay r =
     (let sx = abs_span (range_x d); sy = abs_span (range_y d)
      in if sx = 0 \<or> sy = 0 then r
         else let x = go_div (sint (ax - abs_min (range_x d)) * (screenW r - 1)) (sint sx);
                  y = go_div (sint (ay - abs_min (range_y d)) * (screenH r - 1)) (sint sy)
              in r\<lparr>mouseX := clampMouse x (screenW r), mouseY := clampMouse y (screenH r)\<rparr>)"

definition go_trunc :: "rat \<Rightarrow> int" where
  \<comment> \<open>\<open>int(f)\<close>: towards zero\<close>
  "go_trunc q = (if q < 0 then - \<lfloor>- q\<rfloor> else \<lfloor>q\<rfloor>)"

definition padDelta ::
  "reader \<Rightarrow> device_info \<Rightarrow> 32 word \<Rightarrow> 32 word \<Rightarrow> rat \<times> rat \<Rightarrow> int \<times> int \<times> rat \<times> rat" where
  "padDelta r d dx dy acc =
     (let sx = abs_span (range_x d); sy = abs_span (range_y d); (ax, ay) = acc
      in if sx = 0 \<or> sy = 0 then (sint dx, sint dy, ax, ay)
         else let f = 3 / 2 * rat_of_int (screenW r) / rat_of_int (sint sx);
                  ax1 = ax + rat_of_int (sint dx) * f; ay1 = ay + rat_of_int (sint dy) * f;
                  ix = go_trunc ax1; iy = go_trunc ay1
              in (ix, iy, ax1 - rat_of_int ix, ay1 - rat_of_int iy))"

definition emit :: "input_event \<Rightarrow> reader \<Rightarrow> reader" where
  "emit ev r = r\<lparr>delivered := delivered r @ [ev]\<rparr>"

definition no_event :: "event_type \<Rightarrow> input_event" where
  "no_event t = \<lparr>EvType = t, KeyCode = 0, Rune = 0, MouseX = 0, MouseY = 0, Button = 0, Pressed = False, Wheel = 0\<rparr>"

definition keyRelease :: "32 word" where "keyRelease = 0"
definition keyPress :: "32 word" where "keyPress = 1"
definition keyRepeat :: "32 word" where "keyRepeat = 2"

definition button_number :: "int \<Rightarrow> int" where
  "button_number code =
     (if code = 0x110 then 1 else if code = 0x111 then 2 else if code = 0x112 then 3
      else if code = 0x113 then 8 else if code = 0x114 then 9 else 0)"

definition handleButton :: "int \<Rightarrow> 32 word \<Rightarrow> reader \<Rightarrow> reader" where
  "handleButton code v r =
     (let b = button_number code
      in if b = 0 \<or> v = keyRepeat then r
         else emit ((no_event EvMouseButton)\<lparr>Button := b, Pressed := (v = keyPress), MouseX := mouseX r, MouseY := mouseY r\<rparr>) r)"

definition modifiers :: "int \<Rightarrow> 32 word \<Rightarrow> reader \<Rightarrow> reader" where
  \<comment> \<open>the first half of \<open>handleKey\<close>\<close>
  "modifiers code v r =
     (let down = (v = keyPress \<or> v = keyRepeat)
      in if code = KeyLeftShift \<or> code = KeyRightShift then r\<lparr>shiftOn := down\<rparr>
         else if code = KeyCtrl \<or> code = KeyRightCtrl then r\<lparr>ctrlOn := down\<rparr>
         else if code = KeyAlt then r\<lparr>altOn := down\<rparr>
         else if code = KeyRightAlt then r\<lparr>altGrOn := down\<rparr>
         else if code = KeyCapsLock \<and> v = keyPress then r\<lparr>capsOn := \<not> capsOn r\<rparr> else r)"

definition handleKey :: "int \<Rightarrow> 32 word \<Rightarrow> reader \<Rightarrow> reader" where
  "handleKey code v r0 =
     (let down = (v = keyPress \<or> v = keyRepeat);
          r = modifiers code v r0;
          ch = (if \<not> down then 0
                else typed_by (activeLayout r) code (shiftOn r) (altGrOn r) (capsOn r))
      in emit ((no_event EvKey)\<lparr>KeyCode := code, Rune := ch, Pressed := down\<rparr>) r)"

section \<open>One node's events\<close>

record linux_event =
  le_type :: nat
  le_code :: nat
  le_value :: "32 word"

record pad =
  moved :: bool
  touching :: bool
  lastA :: "32 word \<times> 32 word"
  haveA :: bool                  \<comment> \<open>\<open>haveAX\<close> and \<open>haveAY\<close>, which are always set together\<close>
  curAX :: "32 word"
  curAY :: "32 word"
  tapStart :: int
  tapTravel :: int
  absDirty :: bool
  accum :: "rat \<times> rat"

definition new_pad :: pad where
  "new_pad = \<lparr>moved = False, touching = False, lastA = (0, 0), haveA = False, curAX = 0, curAY = 0,
     tapStart = 0, tapTravel = 0, absDirty = False, accum = (0, 0)\<rparr>"

definition tapMaxDuration :: int where "tapMaxDuration = 180000000"
definition tapMaxTravel :: int where "tapMaxTravel = 8"

definition click :: "reader \<Rightarrow> reader" where
  \<comment> \<open>a tap: the left button, pressed and released where the pointer is\<close>
  "click r =
     (let e = \<lambda>down. (no_event EvMouseButton)\<lparr>Button := 1, Pressed := down, MouseX := mouseX r, MouseY := mouseY r\<rparr>
      in emit (e False) (emit (e True) r))"

definition read_key :: "device_info \<Rightarrow> int \<Rightarrow> nat \<Rightarrow> 32 word \<Rightarrow> pad \<times> reader \<Rightarrow> pad \<times> reader" where
  \<comment> \<open>\<open>readDevice\<close> on an \<open>EV_KEY\<close>\<close>
  "read_key d now code v pr =
     (let (p, r) = pr
      in if code = 0x14A \<and> touchpad d then
           (if v = keyPress then (p\<lparr>touching := True, haveA := False, tapStart := now, tapTravel := 0\<rparr>, r)
            else if v = keyRelease then
              (p\<lparr>touching := False\<rparr>,
               if now - tapStart p < tapMaxDuration \<and> tapTravel p < tapMaxTravel then click r else r)
            else pr)
         else if 0x110 \<le> code \<and> code \<le> 0x117 then (p, handleButton (int code) v r)
         else if code < 0x100 \<or> code \<ge> 0x160 then (p, handleKey (int code) v r)
         else pr)"

definition read_rel :: "nat \<Rightarrow> 32 word \<Rightarrow> pad \<times> reader \<Rightarrow> pad \<times> reader" where
  "read_rel code v pr =
     (let (p, r) = pr
      in if code = 0 then (p\<lparr>moved := True\<rparr>, moveBy (sint v) 0 r)
         else if code = 1 then (p\<lparr>moved := True\<rparr>, moveBy 0 (sint v) r)
         else if code = 8 \<and> v \<noteq> 0 then
           (p, emit ((no_event EvMouseWheel)\<lparr>Wheel := sint v, MouseX := mouseX r, MouseY := mouseY r\<rparr>) r)
         else pr)"

definition read_abs :: "device_info \<Rightarrow> nat \<Rightarrow> 32 word \<Rightarrow> pad \<Rightarrow> pad" where
  "read_abs d code v p =
     (if \<not> is_abs d then p
      else if code = 0 then p\<lparr>curAX := v, absDirty := True\<rparr>
      else if code = 1 then p\<lparr>curAY := v, absDirty := True\<rparr> else p)"

definition drag :: "device_info \<Rightarrow> pad \<times> reader \<Rightarrow> pad \<times> reader" where
  \<comment> \<open>a touchpad's \<open>SYN_REPORT\<close>: the pointer goes as far as the finger went\<close>
  "drag d pr =
     (let (p, r) = pr
      in if touching p \<and> haveA p then
           let (dx, dy, ax, ay) = padDelta r d (curAX p - fst (lastA p)) (curAY p - snd (lastA p)) (accum p);
               p1 = p\<lparr>accum := (ax, ay)\<rparr>
           in if dx \<noteq> 0 \<or> dy \<noteq> 0 then (p1\<lparr>tapTravel := tapTravel p + \<bar>dx\<bar> + \<bar>dy\<bar>, moved := True\<rparr>, moveBy dx dy r)
              else (p1, r)
         else pr)"

definition read_syn :: "device_info \<Rightarrow> bool \<Rightarrow> pad \<times> reader \<Rightarrow> pad \<times> reader" where
  \<comment> \<open>\<open>room\<close>: the event channel takes another event; a move that does not fit is dropped\<close>
  "read_syn d room pr =
     (let (p1, r1) =
        (if \<not> absDirty (fst pr) then pr
         else let (p0, r0) = ((fst pr)\<lparr>absDirty := False\<rparr>, snd pr)
              in if touchpad d then
                   let (p, r) = drag d (p0, r0)
                   in (p\<lparr>lastA := (curAX p, curAY p), haveA := True\<rparr>, r)
                 else (p0\<lparr>moved := True\<rparr>, moveTo d (curAX p0) (curAY p0) r0))
      in if \<not> moved p1 then (p1, r1)
         else (p1\<lparr>moved := False\<rparr>,
               if room then emit ((no_event EvMouseMove)\<lparr>MouseX := mouseX r1, MouseY := mouseY r1\<rparr>) r1 else r1))"

definition read_event :: "device_info \<Rightarrow> int \<Rightarrow> bool \<Rightarrow> linux_event \<Rightarrow> pad \<times> reader \<Rightarrow> pad \<times> reader" where
  \<comment> \<open>one round of \<open>readDevice\<close>'s loop\<close>
  "read_event d now room e pr =
     (if le_type e = 1 then read_key d now (le_code e) (le_value e) pr
      else if le_type e = 2 then read_rel (le_code e) (le_value e) pr
      else if le_type e = 3 then (read_abs d (le_code e) (le_value e) (fst pr), snd pr)
      else if le_type e = 0 then read_syn d room pr
      else pr)"

section \<open>The pointer stays on the screen\<close>

definition on_screen :: "reader \<Rightarrow> bool" where
  "on_screen r \<longleftrightarrow> 0 < screenW r \<and> 0 < screenH r \<and> 0 \<le> mouseX r \<and> mouseX r < screenW r \<and>
     0 \<le> mouseY r \<and> mouseY r < screenH r"

lemma clampMouse_range: "0 < m \<Longrightarrow> 0 \<le> clampMouse v m \<and> clampMouse v m < m"
  by (auto simp: clampMouse_def)

lemma move_ok:
  assumes "on_screen r"
  shows "on_screen (moveBy dx dy r)" "on_screen (moveTo d ax ay r)" "on_screen (Warp x y r)" "on_screen (SetScreen w h r)"
  using assms clampMouse_range [of "screenW r"] clampMouse_range [of "screenH r"]
    clampMouse_range [of w] clampMouse_range [of h]
  by (auto simp: on_screen_def moveBy_def moveTo_def Warp_def SetScreen_def Let_def)

lemma screen_kept [simp]:
  "screenW (moveBy dx dy r) = screenW r" "screenH (moveBy dx dy r) = screenH r"
  "screenW (moveTo d ax ay r) = screenW r" "screenH (moveTo d ax ay r) = screenH r"
  "delivered (moveBy dx dy r) = delivered r" "delivered (moveTo d ax ay r) = delivered r"
  by (simp_all add: moveBy_def moveTo_def Let_def)

definition placed :: "reader \<Rightarrow> input_event \<Rightarrow> bool" where
  \<comment> \<open>an event of the mouse says where the pointer is\<close>
  "placed r e \<longleftrightarrow> (EvType e \<noteq> EvKey \<longrightarrow> MouseX e = mouseX r \<and> MouseY e = mouseY r)"

lemma modifiers_frame [simp]:
  "screenW (modifiers c v r) = screenW r" "screenH (modifiers c v r) = screenH r" "mouseX (modifiers c v r) = mouseX r"
  "mouseY (modifiers c v r) = mouseY r" "delivered (modifiers c v r) = delivered r"
  "activeLayout (modifiers c v r) = activeLayout r"
  by (simp_all add: modifiers_def Let_def)

lemma emit_frame [simp]:
  "screenW (emit e r) = screenW r" "screenH (emit e r) = screenH r" "mouseX (emit e r) = mouseX r"
  "mouseY (emit e r) = mouseY r" "delivered (emit e r) = delivered r @ [e]" "on_screen (emit e r) = on_screen r"
  by (simp_all add: emit_def on_screen_def)

lemma on_screen_modifiers [simp]: "on_screen (modifiers c v r) = on_screen r"
  by (simp add: on_screen_def)

definition reports :: "reader \<Rightarrow> reader \<Rightarrow> bool" where
  \<comment> \<open>from \<open>r\<close> to \<open>r'\<close>, what was delivered says where the pointer now is\<close>
  "reports r r' \<longleftrightarrow> (\<exists>es. delivered r' = delivered r @ es \<and> list_all (placed r') es) \<and> (on_screen r \<longrightarrow> on_screen r')"

lemma read_event_reports: "read_event d now room e (p, r) = (p', r') \<Longrightarrow> reports r r'"
proof -
  assume run: "read_event d now room e (p, r) = (p', r')"
  have key: "reports r (snd (read_key d now c v (p, r)))" for c v
    by (auto simp: reports_def read_key_def handleButton_def handleKey_def click_def placed_def no_event_def Let_def)
  have rel: "reports r (snd (read_rel c v (p, r)))" for c v
    using move_ok(1) [of r] by (auto simp: reports_def read_rel_def placed_def no_event_def Let_def)
  have dr: "delivered (snd (drag d (p0, r))) = delivered r" "on_screen r \<Longrightarrow> on_screen (snd (drag d (p0, r)))" for p0
    using move_ok(1) [of r] by (auto simp: drag_def Let_def split: prod.split)
  have syn: "reports r (snd (read_syn d room (p, r)))"
    using move_ok(2) [of r] dr
    by (auto simp: reports_def read_syn_def placed_def no_event_def Let_def split_def)
  show ?thesis
    using key [of "le_code e" "le_value e"] rel [of "le_code e" "le_value e"] syn run
    by (auto simp: read_event_def reports_def split: if_splits)
qed

datatype input_op = Kernel nat int bool linux_event | Screens int int | Warped int int | Layout string
  \<comment> \<open>an event of a node, another resolution, the remote desktop moving the pointer, F2 or F3\<close>

fun input_step :: "(nat \<Rightarrow> device_info) \<Rightarrow> input_op \<Rightarrow> (nat \<Rightarrow> pad) \<times> reader \<Rightarrow> (nat \<Rightarrow> pad) \<times> reader" where
  "input_step info (Kernel i now room e) (ps, r) =
     (let (p, r') = read_event (info i) now room e (ps i, r) in (ps(i := p), r'))"
| "input_step info (Screens w h) (ps, r) = (ps, SetScreen w h r)"
| "input_step info (Warped x y) (ps, r) = (ps, Warp x y r)"
| "input_step info (Layout l) (ps, r) = (ps, r\<lparr>activeLayout := SetLayout l\<rparr>)"

definition input_run :: "(nat \<Rightarrow> device_info) \<Rightarrow> int \<Rightarrow> int \<Rightarrow> input_op list \<Rightarrow> (nat \<Rightarrow> pad) \<times> reader" where
  "input_run info w h ops = fold (input_step info) ops (\<lambda>_. new_pad, newReader w h)"

lemma input_step_reports: "reports (snd s) (snd (input_step info p s))"
proof (cases s)
  case (Pair ps r)
  show ?thesis
  proof (cases p)
    case (Kernel i now room e)
    obtain q r' where "read_event (info i) now room e (ps i, r) = (q, r')" by fastforce
    then show ?thesis using read_event_reports [of "info i" now room e "ps i" r q r'] by (simp add: Pair Kernel)
  qed (use move_ok [of r] in \<open>auto simp: Pair reports_def Warp_def SetScreen_def on_screen_def Let_def\<close>)
qed

lemma new_on_screen: "0 < w \<Longrightarrow> 0 < h \<Longrightarrow> on_screen (newReader w h)"
  by (auto simp: on_screen_def newReader_def)


definition plain_mouse :: "nat \<Rightarrow> device_info" where
  "plain_mouse i = \<lparr>is_abs = False, touchpad = False, range_x = \<lparr>abs_min = 0, abs_max = 0\<rparr>, range_y = \<lparr>abs_min = 0, abs_max = 0\<rparr>\<rparr>"


section \<open>Keys\<close>

definition key_of :: "(nat \<Rightarrow> device_info) \<Rightarrow> input_op \<Rightarrow> (int \<times> 32 word) list" where
  \<comment> \<open>the key a kernel event is about, if it is about one\<close>
  "key_of info p =
     (case p of Kernel i now room e \<Rightarrow>
        if le_type e = 1 \<and> (le_code e < 0x100 \<or> le_code e \<ge> 0x160) then [(int (le_code e), le_value e)] else []
      | _ \<Rightarrow> [])"

definition is_down :: "32 word \<Rightarrow> bool" where "is_down v \<longleftrightarrow> v = keyPress \<or> v = keyRepeat"

definition last_down :: "int list \<Rightarrow> (int \<times> 32 word) list \<Rightarrow> bool" where
  "last_down codes ks = (case filter (\<lambda>(c, v). c \<in> set codes) (rev ks) of [] \<Rightarrow> False | (c, v) # _ \<Rightarrow> is_down v)"

definition caps_presses :: "(int \<times> 32 word) list \<Rightarrow> nat" where
  "caps_presses ks = length (filter (\<lambda>(c, v). c = KeyCapsLock \<and> v = keyPress) ks)"

definition keys_out :: "reader \<Rightarrow> (int \<times> bool) list" where
  "keys_out r = map (\<lambda>e. (KeyCode e, Pressed e)) (filter (\<lambda>e. EvType e = EvKey) (delivered r))"

definition keys_ok :: "(int \<times> 32 word) list \<Rightarrow> reader \<Rightarrow> bool" where
  "keys_ok ks r \<longleftrightarrow>
     keys_out r = map (\<lambda>(c, v). (c, is_down v)) ks \<and>
     shiftOn r = last_down [KeyLeftShift, KeyRightShift] ks \<and> ctrlOn r = last_down [KeyCtrl, KeyRightCtrl] ks \<and>
     altOn r = last_down [KeyAlt] ks \<and> altGrOn r = last_down [KeyRightAlt] ks \<and> capsOn r = odd (caps_presses ks)"

lemma handleKey_ok: "keys_ok ks r \<Longrightarrow> keys_ok (ks @ [(c, v)]) (handleKey c v r)"
  by (auto simp: keys_ok_def handleKey_def keys_out_def no_event_def Let_def is_down_def modifiers_def emit_def last_down_def
      caps_presses_def KeyLeftShift_def KeyRightShift_def KeyCtrl_def KeyRightCtrl_def KeyAlt_def KeyRightAlt_def
      KeyCapsLock_def)

definition same_keys :: "reader \<Rightarrow> reader \<Rightarrow> bool" where
  "same_keys r r' \<longleftrightarrow> keys_out r' = keys_out r \<and> shiftOn r' = shiftOn r \<and> ctrlOn r' = ctrlOn r \<and>
     altOn r' = altOn r \<and> altGrOn r' = altGrOn r \<and> capsOn r' = capsOn r"

lemma same_keys_moves [simp]:
  "same_keys r (moveBy dx dy r) = True" "same_keys r (moveTo d ax ay r) = True" "same_keys r (Warp x y r) = True"
  "same_keys r (SetScreen w h r) = True"
  by (simp_all add: same_keys_def keys_out_def moveBy_def moveTo_def Warp_def SetScreen_def Let_def)

lemma same_keys_emit: "EvType e \<noteq> EvKey \<Longrightarrow> same_keys r0 r \<Longrightarrow> same_keys r0 (emit e r)"
  by (simp add: same_keys_def keys_out_def emit_def)

lemma same_keys_refl [simp]: "same_keys r r"
  by (simp add: same_keys_def)

lemma read_event_keys:
  assumes "read_event d now room e (p, r) = (p', r')" "keys_ok ks r"
  shows "keys_ok (ks @ (if le_type e = 1 \<and> (le_code e < 0x100 \<or> le_code e \<ge> 0x160) then [(int (le_code e), le_value e)] else [])) r'"
proof (cases "le_type e = 1 \<and> (le_code e < 0x100 \<or> le_code e \<ge> 0x160)")
  case True
  then have "r' = handleKey (int (le_code e)) (le_value e) r"
    using assms(1) by (auto simp: read_event_def read_key_def Let_def)
  then show ?thesis using True handleKey_ok [OF assms(2)] by simp
next
  case False
  have dr: "same_keys r (snd (drag d (p0, r)))" for p0
    by (auto simp: drag_def Let_def split: prod.split)
  have "same_keys r (snd (read_syn d room (p, r)))"
    using dr by (auto simp: read_syn_def no_event_def Let_def split_def intro: same_keys_emit)
  moreover have "same_keys r (snd (read_rel c v (p, r)))" for c v
    by (auto simp: read_rel_def no_event_def Let_def intro: same_keys_emit)
  moreover have "same_keys r (snd (read_key d now (le_code e) v (p, r)))" if "le_type e = 1" for v
    using False that
    by (auto simp: read_key_def handleButton_def click_def no_event_def Let_def intro!: same_keys_emit)
  ultimately have "same_keys r r'"
    using assms(1) by (auto simp: read_event_def split: if_splits) (metis snd_conv)+
  then show ?thesis using assms(2) False by (simp add: keys_ok_def same_keys_def)
qed

lemma input_step_keys: "keys_ok ks (snd s) \<Longrightarrow> keys_ok (ks @ key_of info p) (snd (input_step info p s))"
proof (cases s)
  case (Pair ps r)
  assume ok: "keys_ok ks (snd s)"
  have keep: "same_keys r r' \<Longrightarrow> keys_ok ks r'" for r'
    using ok Pair by (simp add: keys_ok_def same_keys_def)
  show ?thesis
  proof (cases p)
    case (Kernel i now room e)
    obtain q r' where q: "read_event (info i) now room e (ps i, r) = (q, r')" by fastforce
    then show ?thesis using read_event_keys [OF q, of ks] ok by (simp add: Pair Kernel key_of_def)
  qed (use keep in \<open>simp_all add: Pair key_of_def same_keys_def keys_out_def Warp_def SetScreen_def Let_def\<close>)
qed


end
