(* ===== verification/UiState.thy ===== *)
theory UiState
  imports HostList AutoConf Keyboard Messages
begin

text \<open>
  The state of the user interface and the connection dialog
  (\<open>internal/ui/state.go\<close>, \<open>autoconnect.go\<close>, \<open>saved.go\<close>). \<open>ui_state\<close> extends
  the server list by the screen, the dialog, the startup server and the accounts
  remembered; the state of the other dialogs is in the theories that follow. A
  time is the clock's reading, and 0 is the zero \<open>time.Time\<close>.
\<close>

section \<open>The connection dialog\<close>

definition fieldServer :: nat where "fieldServer = 0"
definition fieldUser :: nat where "fieldUser = 1"
definition fieldPassword :: nat where "fieldPassword = 2"
definition fieldDomain :: nat where "fieldDomain = 3"

lemmas field_defs = fieldServer_def fieldUser_def fieldPassword_def fieldDomain_def

record modal_state =
  Fields :: "string list"     \<comment> \<open>four\<close>
  ShowDomain :: bool
  FocusIdx :: int
  ModalError :: string
  ModalAuto :: auto_mode

definition no_modal :: modal_state where
  "no_modal = \<lparr>Fields = [[], [], [], []], ShowDomain = False, FocusIdx = 0, ModalError = [], ModalAuto = Off\<rparr>"

definition fieldCount :: "modal_state \<Rightarrow> int" where
  "fieldCount m = (if ShowDomain m then 4 else 3)"

definition focusConnect :: "modal_state \<Rightarrow> int" where "focusConnect m = fieldCount m"
definition focusCancel :: "modal_state \<Rightarrow> int" where "focusCancel m = fieldCount m + 1"

definition modal_domain :: "modal_state \<Rightarrow> string" where
  "modal_domain m = (if ShowDomain m then Fields m ! fieldDomain else [])"

definition set_field :: "nat \<Rightarrow> string \<Rightarrow> modal_state \<Rightarrow> modal_state" where
  "set_field i v m = m\<lparr>Fields := (Fields m)[i := v]\<rparr>"

definition toggleDomain :: "modal_state \<Rightarrow> modal_state" where
  "toggleDomain m =
     (let button = FocusIdx m - fieldCount m;
          m1 = m\<lparr>ShowDomain := \<not> ShowDomain m\<rparr>
      in if ShowDomain m1 then m1\<lparr>FocusIdx := int fieldDomain\<rparr>
         else if button \<ge> 0 then m1\<lparr>FocusIdx := fieldCount m1 + button\<rparr>
         else if FocusIdx m1 = int fieldDomain then m1\<lparr>FocusIdx := int fieldPassword\<rparr>
         else m1)"

section \<open>The state\<close>

datatype screen =
    ScreenDiscovery | ScreenModal | ScreenConnecting | ScreenSession | ScreenInstall
  | ScreenNetwork | ScreenAuto | ScreenWifi | ScreenUpdate | ScreenPower

record ui_state = host_list +
  Screen :: screen
  Subnet :: string
  ScanPort :: int
  Modal :: modal_state
  ErrorMsg :: string
  ErrorUntil :: int
  Boot :: boot
  CanInstall :: bool
  driverPending :: bool
  lastClick :: int
  lastClickRow :: int
  DriverOff :: bool
  lastUser :: "(string \<times> string \<times> string) list"   \<comment> \<open>per endpoint, the user name and the domain\<close>
  SavePath :: bool                                      \<comment> \<open>whether there is one\<close>
  Auto :: "auto_config option"
  AutoAt :: int
  AutoNet :: bool
  AutoErr :: string
  unattended :: bool
  ui_lang :: string          \<comment> \<open>the language and the keyboard layout in use, variables of their packages\<close>
  ui_layout :: string

definition allowed :: "screen \<Rightarrow> screen list" where
  \<comment> \<open>the table of \<open>Transition\<close>\<close>
  "allowed s =
     (case s of
        ScreenDiscovery \<Rightarrow> [ScreenModal, ScreenInstall, ScreenUpdate, ScreenNetwork, ScreenAuto, ScreenPower]
      | ScreenModal \<Rightarrow> [ScreenDiscovery, ScreenConnecting]
      | ScreenConnecting \<Rightarrow> [ScreenSession, ScreenModal, ScreenAuto]
      | ScreenSession \<Rightarrow> [ScreenDiscovery, ScreenConnecting, ScreenModal, ScreenAuto]
      | ScreenAuto \<Rightarrow> [ScreenConnecting, ScreenModal]
      | ScreenNetwork \<Rightarrow> [ScreenWifi]
      | ScreenWifi \<Rightarrow> [ScreenNetwork]
      | _ \<Rightarrow> [])"

definition Transition :: "screen \<Rightarrow> 'a ui_state_scheme \<Rightarrow> 'a ui_state_scheme" where
  "Transition to s0 =
     (let s = s0\<lparr>Dirty := True\<rparr>
      in if to \<in> set (allowed (Screen s)) then s\<lparr>Screen := to\<rparr>
         else if to = Screen s \<or> to = ScreenDiscovery then s\<lparr>Screen := to\<rparr> else s)"

definition bannerFor :: int where "bannerFor = 5000000000"

definition flash :: "string \<Rightarrow> int \<Rightarrow> 'a ui_state_scheme \<Rightarrow> 'a ui_state_scheme" where
  "flash msg now s = s\<lparr>ErrorMsg := msg, ErrorUntil := now + bannerFor, Dirty := True\<rparr>"

definition expireBanner :: "int \<Rightarrow> 'a ui_state_scheme \<Rightarrow> 'a ui_state_scheme" where
  "expireBanner now s =
     (if ErrorMsg s \<noteq> [] \<and> ErrorUntil s \<noteq> 0 \<and> \<not> now < ErrorUntil s
      then s\<lparr>ErrorMsg := [], ErrorUntil := 0, Dirty := True\<rparr> else s)"

definition RememberCredential ::
  "string \<Rightarrow> string \<Rightarrow> string \<Rightarrow> 'a ui_state_scheme \<Rightarrow> 'a ui_state_scheme" where
  "RememberCredential addr user dmn s =
     (if addr = [] \<or> user = [] then s else s\<lparr>lastUser := AList.update addr (user, dmn) (lastUser s)\<rparr>)"

section \<open>The startup server\<close>

definition autoDelay :: int where "autoDelay = 5000000000"
definition autoRetry :: int where "autoRetry = 10000000000"

definition equal_fold :: "string \<Rightarrow> string \<Rightarrow> bool" where
  \<comment> \<open>\<open>strings.EqualFold\<close>, for ASCII\<close>
  "equal_fold a b \<longleftrightarrow> to_lower a = to_lower b"

definition isAutoServer :: "string \<Rightarrow> host option \<Rightarrow> 'a ui_state_scheme \<Rightarrow> bool" where
  \<comment> \<open>\<open>None\<close> is the zero \<open>Host\<close>, which has no address\<close>
  "isAutoServer typed0 h s =
     (case Auto s of None \<Rightarrow> False
      | Some a \<Rightarrow>
        let typed = trim_space typed0
        in if equal_fold typed (Server a) then True
           else case ParseIPAddress 0 (Server a) of
             Some ah \<Rightarrow>
               (case ParseIPAddress 0 typed of Some th \<Rightarrow> Same ah th
                | None \<Rightarrow> (case h of None \<Rightarrow> False | Some x \<Rightarrow> Same ah x))
           | None \<Rightarrow>
               let name = (case SplitHostPort (Server a) of Some (n, _) \<Rightarrow> n | None \<Rightarrow> Server a)
               in (case h of None \<Rightarrow> False | Some x \<Rightarrow> Hostname x \<noteq> [] \<and> equal_fold (Hostname x) name))"

definition dialogHost :: "'a ui_state_scheme \<Rightarrow> host option" where
  "dialogHost s =
     (case SelectedHost s of None \<Rightarrow> None
      | Some h \<Rightarrow> if Address h = trim_space (Fields (Modal s) ! fieldServer) then Some h else None)"

definition fill_modal :: "auto_config \<Rightarrow> modal_state \<Rightarrow> modal_state" where
  \<comment> \<open>\<open>fillFromAuto\<close>, with the startup server\<close>
  "fill_modal a m0 =
     (let m = m0\<lparr>ModalAuto := Mode a,
            Fields := (Fields m0)[fieldUser := Username a, fieldDomain := Domain a, fieldPassword := Password a],
            ShowDomain := (Domain a \<noteq> [])\<rparr>
      in m\<lparr>FocusIdx := (if Username a = [] then int fieldUser
                         else if Mode a = Logon then focusConnect m else int fieldPassword)\<rparr>)"

definition openAutoModal :: "int \<Rightarrow> 'a ui_state_scheme \<Rightarrow> 'a ui_state_scheme" where
  "openAutoModal now s =
     (case Auto s of None \<Rightarrow> s   \<comment> \<open>only called with a startup server\<close>
      | Some a \<Rightarrow>
        let s1 = s\<lparr>Modal := set_field fieldServer (Server a) no_modal\<rparr>;
            s2 = (case ParseIPAddress now (Server a) of None \<Rightarrow> s1
                  | Some h \<Rightarrow> let (t, i) = AddHost h s1
                    in t\<lparr>SelectedIdx := i, Modal := set_field fieldServer (Address h) (Modal t)\<rparr>)
        in s2\<lparr>Modal := fill_modal a (Modal s2)\<rparr>)"

definition startAuto :: "int \<Rightarrow> 'a ui_state_scheme \<Rightarrow> 'a ui_state_scheme \<times> bool" where
  "startAuto now s =
     (case Auto s of None \<Rightarrow> (s, False)
      | Some a \<Rightarrow>
        let s1 = openAutoModal now s
        in if Mode a \<noteq> Logon then (Transition ScreenModal s1, True)
           else (Transition ScreenAuto (s1\<lparr>AutoAt := now + autoDelay, AutoNet := True, AutoErr := []\<rparr>), True))"

definition autoDue :: "string option \<Rightarrow> int \<Rightarrow> 'a ui_state_scheme \<Rightarrow> 'a ui_state_scheme \<times> bool" where
  \<comment> \<open>the first argument is what \<open>DetectCIDR\<close> finds\<close>
  "autoDue cidr now s =
     (if now < AutoAt s then (s, False)
      else if cidr = None then (s\<lparr>AutoNet := False, AutoAt := now + 1000000000\<rparr>, False)
      else (s\<lparr>AutoNet := True\<rparr>, True))"

definition autoFailed :: "string \<Rightarrow> int \<Rightarrow> 'a ui_state_scheme \<Rightarrow> 'a ui_state_scheme" where
  "autoFailed msg now s = Transition ScreenAuto (s\<lparr>AutoErr := msg, AutoAt := now + autoRetry\<rparr>)"

definition toggleAuto :: "'a ui_state_scheme \<Rightarrow> 'a ui_state_scheme \<times> bool" where
  \<comment> \<open>\<open>True\<close>: the setting kept for the next start is removed\<close>
  "toggleAuto s =
     (let s1 = s\<lparr>Modal := (Modal s)\<lparr>ModalAuto := next_mode (ModalAuto (Modal s))\<rparr>\<rparr>
      in if ModalAuto (Modal s1) \<noteq> Off \<or> \<not> isAutoServer (Fields (Modal s1) ! fieldServer) (dialogHost s1) s1
         then (s1, False) else (s1\<lparr>Auto := None\<rparr>, True))"

record credentials =
  cred_user :: string
  cred_password :: string
  cred_domain :: string

definition keepAuto ::
  "string \<Rightarrow> credentials \<Rightarrow> auto_mode \<Rightarrow> 'a ui_state_scheme \<Rightarrow> 'a ui_state_scheme \<times> auto_config \<times> bool" where
  "keepAuto server creds mode0 s =
     (if mode0 = Off then (s, no_auto, False)
      else
        let mode = (if mode0 = Logon \<and> cred_user creds = [] then Dialog else mode0);
            c = \<lparr>Mode = mode, Server = trim_space server, Username = cred_user creds, Domain = cred_domain creds,
                 Password = (if mode = Logon then cred_password creds else [])\<rparr>
        in if Auto s = Some c then (s, c, False) else (s\<lparr>Auto := Some c\<rparr>, c, True))"

section \<open>Opening the dialog\<close>

definition OpenModalFor :: "'a ui_state_scheme \<Rightarrow> 'a ui_state_scheme" where
  "OpenModalFor s0 =
     (let s = s0\<lparr>Modal := no_modal\<rparr>
      in case SelectedHost s of None \<Rightarrow> s
         | Some h \<Rightarrow>
           let m = (set_field fieldServer (Address h) (Modal s))\<lparr>FocusIdx := int fieldUser\<rparr>;
               s1 = s\<lparr>Modal := m\<rparr>
           in if isAutoServer (Address h) (Some h) s1 then
                s1\<lparr>Modal := (case Auto s1 of None \<Rightarrow> m | Some a \<Rightarrow> fill_modal a m)\<rparr>
              else case map_of (lastUser s1) (AddrRDP h) of None \<Rightarrow> s1
                | Some (u, d) \<Rightarrow>
                  s1\<lparr>Modal := m\<lparr>Fields := (Fields m)[fieldUser := u, fieldDomain := d], ShowDomain := (d \<noteq> []),
                        FocusIdx := int fieldPassword\<rparr>\<rparr>)"

definition OpenModalManual :: "'a ui_state_scheme \<Rightarrow> 'a ui_state_scheme" where
  "OpenModalManual s = s\<lparr>Modal := no_modal\<lparr>FocusIdx := int fieldServer\<rparr>\<rparr>"

section \<open>Servers kept from boot to boot\<close>

definition maxSaved :: nat where "maxSaved = 32"

definition saved_fields :: "string \<Rightarrow> string \<times> string \<times> string \<times> string" where
  \<comment> \<open>a line's first four fields, those missing empty\<close>
  "saved_fields line =
     (case split_on tabchar line of a # n # u # d # _ \<Rightarrow> (a, n, u, d) | [a, n, u] \<Rightarrow> (a, n, u, [])
      | [a, n] \<Rightarrow> (a, n, [], []) | [a] \<Rightarrow> (a, [], [], []) | [] \<Rightarrow> ([], [], [], []))"

definition load_line :: "int \<Rightarrow> string \<Rightarrow> 'a ui_state_scheme \<Rightarrow> 'a ui_state_scheme" where
  "load_line now line s =
     (let (a, n, u, d) = saved_fields line
      in case ParseIPAddress now a of None \<Rightarrow> s
         | Some h0 \<Rightarrow> let h = h0\<lparr>Hostname := n\<rparr>
           in RememberCredential (AddrRDP h) u d (fst (AddHost h s)))"

definition loadSaved :: "int \<Rightarrow> string option \<Rightarrow> 'a ui_state_scheme \<Rightarrow> 'a ui_state_scheme" where
  "loadSaved now file s =
     (case file of None \<Rightarrow> s | Some text \<Rightarrow> fold (load_line now) (scan_lines text) s)"

definition other_line :: "int \<Rightarrow> host \<Rightarrow> string \<Rightarrow> bool" where
  \<comment> \<open>a line of another server\<close>
  "other_line now h line =
     (case ParseIPAddress now (hd (split_on tabchar line)) of None \<Rightarrow> False | Some x \<Rightarrow> \<not> Same x h)"

definition saved_text :: "int \<Rightarrow> host \<Rightarrow> string \<Rightarrow> string \<Rightarrow> string option \<Rightarrow> string" where
  \<comment> \<open>the file \<open>saveConnection\<close> writes\<close>
  "saved_text now h user dmn old =
     (let rest = (case old of None \<Rightarrow> [] | Some text \<Rightarrow> filter (other_line now h) (scan_lines text))
      in with_ends (join_with [tabchar] [Address h, Hostname h, user, dmn] # take (maxSaved - 1) rest))"

definition saveConnection ::
  "(string \<Rightarrow> string option \<Rightarrow> string option \<times> bool) \<Rightarrow> int \<Rightarrow> host \<Rightarrow> string \<Rightarrow> string \<Rightarrow> string option \<Rightarrow>
   'a ui_state_scheme \<Rightarrow> 'a ui_state_scheme \<times> string option" where
  \<comment> \<open>with the file as it is and as it is left; the first argument replaces it, or fails\<close>
  "saveConnection replace now h user dmn file s =
     (let s1 = RememberCredential (AddrRDP h) user dmn s
      in (s1, if \<not> SavePath s then file else fst (replace (saved_text now h user dmn file) file)))"

section \<open>A server used is there after the next start\<close>

lemma trim_space_snoc: "is_space c \<Longrightarrow> trim_space (s @ [c]) = trim_space s"
proof (induction s)
  case Nil
  then show ?case by (simp add: trim_space_def trim_left_def trim_right_def)
next
  case (Cons a s)
  then show ?case
    by (cases "is_space a") (simp_all add: trim_space_def trim_left_def trim_right_def dropWhile_append)
qed

lemma ParseIPAddress_trim: "trim_space a = trim_space b \<Longrightarrow> ParseIPAddress now a = ParseIPAddress now b"
  by (simp add: ParseIPAddress_def splitAddress_def)

lemma ParseIPAddress_clock: "ParseIPAddress now a = map_option (\<lambda>x. x\<lparr>DiscoveredAt := now\<rparr>) (ParseIPAddress now' a)"
  by (simp add: ParseIPAddress_def split: option.splits)

lemma ParseIPAddress_port: "ParseIPAddress now a = Some x \<Longrightarrow> 0 \<le> Port x \<and> Port x \<le> 65535"
  by (auto simp: ParseIPAddress_def splitAddress_def Let_def split: option.splits prod.splits if_splits)

lemma parse_ip6_groups: "parse_ip6 s = Some (IP6 gs) \<Longrightarrow> length gs = 8"
  by (auto simp: parse_ip6_def mapped_def Let_def split: option.splits prod.splits if_splits)

lemma ip6_string_colon: "length gs = 8 \<Longrightarrow> CHR '':'' \<in> set (ip6_string gs)"
proof -
  assume "length gs = 8"
  then obtain a b r where "gs = a # b # r"
    by (cases gs; cases "tl gs") auto
  then have "CHR '':'' \<in> set (join_with '':'' (map itoa_hex gs))"
    by (cases r) auto
  then show ?thesis
    by (cases "best_run gs") (simp add: ip6_string_def)
qed

lemma parsed_key:
  assumes "ParseIPAddress now a = Some x" "ip4_host h"
  shows "AddrRDP x = AddrRDP h \<longleftrightarrow> Same x h"
proof (cases "IP x")
  case (IP4 w)
  then have "ip4_host x" using ParseIPAddress_port [OF assms(1)] by (simp add: ip4_host_def)
  with assms(2) show ?thesis by (intro same_key)
next
  case (IP6 gs)
  obtain w where w: "IP h = IP4 w" using assms(2) by (rule ip4_hostE)
  have "length gs = 8"
    using assms(1) IP6 parse_ip6_groups
    by (auto simp: ParseIPAddress_def ParseIP_def split: option.splits prod.splits list.splits if_splits)
  then have "hd (AddrRDP x) = CHR ''[''"
    using IP6 ip6_string_colon [of gs] by (simp add: AddrRDP_def JoinHostPort_def)
  moreover have "hd (AddrRDP h) \<noteq> CHR ''[''"
    using w ip4_chars(1,2) [of _ w] ip4_string_dot [of w] by (cases "ip4_string w") (auto simp: AddrRDP_def JoinHostPort_def)
  moreover have "\<not> Same x h" using IP6 w by (simp add: Same_def)
  ultimately show ?thesis by metis
qed

definition drop_cr :: "string \<Rightarrow> string" where
  \<comment> \<open>what \<open>bufio.Scanner\<close> makes of a line\<close>
  "drop_cr l = (if l \<noteq> [] \<and> last l = creturn then butlast l else l)"

lemma scan_with_ends_cr:
  assumes "\<forall>l \<in> set ls. newline \<notin> set l"
  shows "scan_lines (with_ends ls) = map drop_cr ls"
  using assms by (simp add: scan_lines_def split_with_ends Let_def drop_cr_def)

lemma hd_split_snoc: "c \<noteq> t \<Longrightarrow> hd (split_on t (l @ [c])) = (if t \<in> set l then hd (split_on t l) else l @ [c])"
  by (induction l) (auto split: list.splits if_splits simp: split_on_no_sep)

lemma drop_cr_address: "ParseIPAddress now (hd (split_on tabchar (drop_cr l))) = ParseIPAddress now (hd (split_on tabchar l))"
proof (cases "l \<noteq> [] \<and> last l = creturn")
  case True
  then obtain k where k: "l = k @ [creturn]" by (metis append_butlast_last_id)
  show ?thesis
    unfolding k drop_cr_def
    by (auto simp: hd_split_snoc split_on_no_sep trim_space_snoc is_space_def intro: ParseIPAddress_trim)
qed (auto simp: drop_cr_def)

lemma saved_fields_hd: "fst (saved_fields l) = hd (split_on tabchar l)"
  by (simp add: saved_fields_def split: list.splits)

lemma index_same_Same: "index_same h hs = Some i \<Longrightarrow> i < length hs \<and> Same (hs ! i) h"
  by (auto dest: index_same_Some simp: Same_endpoint)

definition led_by :: "host \<Rightarrow> string \<Rightarrow> string \<Rightarrow> 'a ui_state_scheme \<Rightarrow> bool" where
  \<comment> \<open>the list begins with the server, under its name, and its account is remembered\<close>
  "led_by h user dmn s \<longleftrightarrow>
     (\<exists>x r. hosts s = x # r \<and> Same x h \<and> Hostname x = Hostname h) \<and>
     map_of (lastUser s) (AddrRDP h) = Some (user, dmn) \<and> AddrRDP h \<in> set (kept s)"

lemma AddHost_lastUser [simp]: "lastUser (fst (AddHost h s)) = lastUser s"
  by (simp add: AddHost_def Let_def split: option.splits)

lemma RememberCredential_hosts [simp]:
  "hosts (RememberCredential a u d s) = hosts s" "kept (RememberCredential a u d s) = kept s"
  by (simp_all add: RememberCredential_def)

lemma AddHost_other_head:
  assumes "hosts s = x # r" "\<not> Same x y"
  shows "\<exists>r'. hosts (fst (AddHost y s)) = x # r'"
  using assms by (auto simp: AddHost_def Let_def Same_def split: option.splits nat.splits)

lemma load_line_led:
  assumes l: "led_by h user dmn s" and h: "ip4_host h"
    and o: "\<And>x. ParseIPAddress now (hd (split_on tabchar line)) = Some x \<Longrightarrow> \<not> Same x h"
  shows "led_by h user dmn (load_line now line s)"
proof -
  obtain a n u d where f: "saved_fields line = (a, n, u, d)" by (cases "saved_fields line")
  then have a: "a = hd (split_on tabchar line)" using saved_fields_hd [of line] by simp
  show ?thesis
  proof (cases "ParseIPAddress now a")
    case None
    with f l show ?thesis by (simp add: load_line_def)
  next
    case (Some x0)
    obtain x r where x: "hosts s = x # r" "Same x h" "Hostname x = Hostname h"
      and k: "map_of (lastUser s) (AddrRDP h) = Some (user, dmn)" "AddrRDP h \<in> set (kept s)"
      using l by (auto simp: led_by_def)
    define y where "y = x0\<lparr>Hostname := n\<rparr>"
    have ns: "\<not> Same x0 h" using o Some a by blast
    then have "\<not> Same x y" using x(2) by (auto simp: Same_def y_def host_port_def)
    then obtain r' where r': "hosts (fst (AddHost y s)) = x # r'" using AddHost_other_head [OF x(1)] by blast
    have key: "AddrRDP y \<noteq> AddrRDP h"
      using parsed_key [OF Some h] ns by (simp add: y_def)
    have "kept (fst (AddHost y s)) = List.insert (AddrRDP y) (kept s)"
      by (simp add: AddHost_def Let_def split: option.splits)
    then show ?thesis
      using f Some r' x(2,3) k key
      by (auto simp: load_line_def led_by_def y_def [symmetric] RememberCredential_def update_conv')
  qed
qed

lemma load_lines_led:
  assumes "led_by h user dmn s" "ip4_host h"
    "\<forall>l \<in> set ls. \<forall>x. ParseIPAddress now (hd (split_on tabchar l)) = Some x \<longrightarrow> \<not> Same x h"
  shows "led_by h user dmn (fold (load_line now) ls s)"
  using assms by (induction ls arbitrary: s) (auto intro: load_line_led)

lemma load_first_line:
  assumes h: "ip4_host h" and c: "tabchar \<notin> set (Hostname h @ user @ dmn)" and u: "user \<noteq> []" and e: "hosts s = []"
  shows "led_by h user dmn (load_line now (join_with [tabchar] [Address h, Hostname h, user, dmn]) s)"
proof -
  obtain x where x: "ParseIPAddress now (Address h) = Some x" "Same x h"
    using parse_address [OF h] by blast
  have "tabchar \<notin> set (Address h)" using address_chars [OF h] by (auto simp: is_space_def)
  then have "split_on tabchar (join_with [tabchar] [Address h, Hostname h, user, dmn]) = [Address h, Hostname h, user, dmn]"
    using c by (intro split_join) auto
  then have "saved_fields (join_with [tabchar] [Address h, Hostname h, user, dmn]) = (Address h, Hostname h, user, dmn)"
    by (simp add: saved_fields_def)
  moreover have "AddrRDP x = AddrRDP h" using parsed_key [OF x(1) h] x(2) by simp
  moreover have "AddrRDP h \<noteq> []" by (simp add: AddrRDP_def JoinHostPort_def)
  ultimately show ?thesis
    using x u e by (simp add: load_line_def led_by_def AddHost_def RememberCredential_def Let_def update_conv' Same_def)
qed

lemma scan_lines_clean:
  assumes "l \<in> set (scan_lines t)"
  shows "newline \<notin> set l"
proof -
  define ls where "ls = (let w = split_on newline t in if last w = [] then butlast w else w)"
  have "newline \<notin> set k" if "k \<in> set ls" for k
    using that split_on_pieces [of k newline t] by (auto simp: ls_def Let_def dest: in_set_butlastD split: if_splits)
  moreover obtain k where "k \<in> set ls" "l = k \<or> l = butlast k"
    using assms by (auto simp: scan_lines_def ls_def [symmetric])
  ultimately show ?thesis by (auto dest: in_set_butlastD)
qed

lemma saved_text_led:
  assumes h: "ip4_host h" and c: "\<forall>c \<in> set (Hostname h @ user @ dmn). c \<notin> {tabchar, newline, creturn}"
    and u: "user \<noteq> []" and e: "hosts s = []"
  shows "led_by h user dmn (loadSaved now' (Some (saved_text now h user dmn old)) s)"
proof -
  let ?l = "join_with [tabchar] [Address h, Hostname h, user, dmn]"
  define rest where "rest = take (maxSaved - 1) (case old of None \<Rightarrow> [] | Some text \<Rightarrow> filter (other_line now h) (scan_lines text))"
  have a: "\<forall>c \<in> set (Address h). c \<noteq> newline \<and> c \<noteq> creturn" using address_chars [OF h] by (auto simp: is_space_def)
  have rest: "other_line now h l" "newline \<notin> set l" if "l \<in> set rest" for l
    using that by (auto simp: rest_def dest!: in_set_takeD dest: scan_lines_clean split: option.splits)
  have "newline \<notin> set ?l" "drop_cr ?l = ?l"
    using a c last_in_set [of ?l] by (auto simp: drop_cr_def)
  moreover have "saved_text now h user dmn old = with_ends (?l # rest)"
    by (simp add: saved_text_def rest_def Let_def)
  ultimately have "scan_lines (saved_text now h user dmn old) = ?l # map drop_cr rest"
    using rest(2) scan_with_ends_cr [of "?l # rest"] by (simp only: list.simps ball_simps set_simps) blast
  moreover have "\<not> Same x h" if lx: "l \<in> set (map drop_cr rest)" "ParseIPAddress now' (hd (split_on tabchar l)) = Some x" for l x
  proof -
    obtain k where k: "k \<in> set rest" "l = drop_cr k" using lx(1) by auto
    then obtain y where "ParseIPAddress now (hd (split_on tabchar k)) = Some y" "\<not> Same y h"
      using rest(1) [OF k(1)] by (auto simp: other_line_def split: option.splits)
    then show ?thesis
      using lx(2) k(2) ParseIPAddress_clock [of now' "hd (split_on tabchar k)" now]
      by (auto simp: drop_cr_address Same_def host_port_def)
  qed
  moreover have "led_by h user dmn (load_line now' ?l s)"
    using c by (intro load_first_line [OF h _ u e]) auto
  ultimately show ?thesis
    using load_lines_led [OF _ h] by (simp only: loadSaved_def option.case fold_simps) blast
qed


definition start_state :: ui_state where
  "start_state = \<lparr>Dirty = True, hosts = [], found = [], kept = [], SelectedIdx = 0, ScrollOffset = 0, ScanProgress = 0, ScanDone = False,
     Screen = ScreenDiscovery, Subnet = [], ScanPort = 0, Modal = no_modal, ErrorMsg = [], ErrorUntil = 0,
     Boot = \<lparr>Slot = ''a'', Kernel = [], GfxSafe = [], ESP = []\<rparr>, CanInstall = False, driverPending = False, lastClick = 0, lastClickRow = 0, DriverOff = False,
     lastUser = [], SavePath = True, Auto = None, AutoAt = 0, AutoNet = False, AutoErr = [], unattended = False,
     ui_lang = ''en'', ui_layout = ''tr-q''\<rparr>"


end
