(* ===== verification/Wifi.thy ===== *)
theory Wifi
  imports GoBytes Settings Keyboard
begin

text \<open>
  \<open>internal/wifi\<close>: the networks \<open>wpa_supplicant\<close> sees, the one network the kiosk
  keeps and the configuration file it is kept in, and how the interface stands.
  What \<open>wpa_cli\<close> prints is an argument, and so are HMAC-SHA1 and MD4.
\<close>

section \<open>Networks in range\<close>

datatype security = Open | PSK | SAE | EAP | WEP

record network =
  SSID :: string
  Signal :: int
  Security :: security

definition Bars :: "network \<Rightarrow> int" where
  "Bars n = (if Signal n \<ge> -55 then 4 else if Signal n \<ge> -67 then 3 else if Signal n \<ge> -75 then 2 else 1)"

definition wifi_interfaces :: "(string \<Rightarrow> bool) \<Rightarrow> string list \<Rightarrow> string list" where
  \<comment> \<open>\<open>Interfaces\<close>; the first argument: it has a \<open>wireless\<close> directory\<close>
  "wifi_interfaces IsWireless names = filter IsWireless names"

definition wifi_scan_error :: "string option \<Rightarrow> bool" where
  \<comment> \<open>\<open>Scan\<close>, on what \<open>wpa_cli scan\<close> printed\<close>
  "wifi_scan_error out = (case out of None \<Rightarrow> True | Some s \<Rightarrow> trim_space s \<notin> {''OK'', ''FAIL-BUSY''})"

abbreviation backslash :: char where "backslash \<equiv> CHR 0x5C"

fun unescape :: "string \<Rightarrow> string" where
  "unescape [] = []"
| "unescape (c # s) =
     (if c \<noteq> backslash then c # unescape s
      else case s of [] \<Rightarrow> [c]
        | e # r \<Rightarrow>
          if e = CHR ''n'' then newline # unescape r
          else if e = CHR ''r'' then creturn # unescape r
          else if e = CHR ''t'' then tabchar # unescape r
          else if e = CHR ''e'' then CHR 0x1B # unescape r
          else if e = CHR ''x'' then
            (case r of a # b # r' \<Rightarrow>
                (case parse_uint 16 8 [a, b] of Some v \<Rightarrow> char_of v # unescape r' | None \<Rightarrow> CHR ''x'' # unescape r)
              | _ \<Rightarrow> CHR ''x'' # unescape r)
          else e # unescape r)"

definition security_of :: "string \<Rightarrow> security" where
  \<comment> \<open>\<open>security\<close>\<close>
  "security_of flags =
     (if contains flags ''EAP'' then EAP else if contains flags ''PSK'' then PSK
      else if contains flags ''SAE'' then SAE else if contains flags ''WEP'' then WEP else Open)"

fun split_n :: "nat \<Rightarrow> char \<Rightarrow> string \<Rightarrow> string list" where
  \<comment> \<open>\<open>strings.SplitN\<close>\<close>
  "split_n 0 c s = []"
| "split_n (Suc 0) c s = [s]"
| "split_n (Suc (Suc n)) c s = (case cut_at c s of None \<Rightarrow> [s] | Some (a, r) \<Rightarrow> a # split_n (Suc n) c r)"

definition result_line :: "string \<Rightarrow> network option" where
  \<comment> \<open>the access point of a line, if it is one with a name\<close>
  "result_line line =
     (case split_n 5 tabchar (trim_right (\<lambda>c. c = creturn) line) of
        [bssid, freq, sig, flags, name] \<Rightarrow>
          if length (filter (\<lambda>c. c = CHR '':'') bssid) \<noteq> 5 then None
          else let ssid = unescape name
               in if list_all (\<lambda>c. c = CHR 0x00) ssid then None
                  else Some \<lparr>SSID = ssid, Signal = atoi_or sig, Security = security_of flags\<rparr>
      | _ \<Rightarrow> None)"

definition keep_best :: "network \<Rightarrow> (string \<times> network) list \<Rightarrow> (string \<times> network) list" where
  "keep_best n best =
     (case map_of best (SSID n) of
        Some x \<Rightarrow> if Signal n > Signal x then AList.update (SSID n) n best else best
      | None \<Rightarrow> AList.update (SSID n) n best)"

definition before :: "network \<Rightarrow> network \<Rightarrow> bool" where
  \<comment> \<open>the order of \<open>sort.Slice\<close>\<close>
  "before a b = (if Signal a \<noteq> Signal b then Signal a > Signal b else SSID a < SSID b)"

fun insert_network :: "network \<Rightarrow> network list \<Rightarrow> network list" where
  "insert_network n [] = [n]"
| "insert_network n (x # xs) = (if before n x then n # x # xs else x # insert_network n xs)"

definition parseResults :: "string \<Rightarrow> network list" where
  "parseResults out =
     (let best = fold (\<lambda>l b. case result_line l of None \<Rightarrow> b | Some n \<Rightarrow> keep_best n b) (split_on newline out) []
      in foldr insert_network (map snd best) [])"

section \<open>The network kept\<close>

record wifi_config =
  CfgSSID :: string
  CfgSecurity :: security
  Key :: string
  Identity :: string

definition no_wifi :: wifi_config where
  "no_wifi = \<lparr>CfgSSID = [], CfgSecurity = Open, Key = [], Identity = []\<rparr>"

definition hex_encode :: "string \<Rightarrow> string" where
  \<comment> \<open>\<open>hex.EncodeToString\<close>\<close>
  "hex_encode s = concat (map (\<lambda>c. [hex_char (of_char c div 16), hex_char (of_char c mod 16)]) s)"

fun hex_decode :: "string \<Rightarrow> string option" where
  \<comment> \<open>\<open>hex.DecodeString\<close>\<close>
  "hex_decode [] = Some []"
| "hex_decode [a] = None"
| "hex_decode (a # b # s) =
     (if is_hex a \<and> is_hex b then map_option (\<lambda>r. char_of (hex_val a * 16 + hex_val b) # r) (hex_decode s) else None)"

definition xor_bytes :: "bytes \<Rightarrow> bytes \<Rightarrow> bytes" where
  "xor_bytes a b = map2 (\<lambda>x y. xor x y) a b"

fun pbkdf2_rounds :: "(bytes \<Rightarrow> bytes) \<Rightarrow> nat \<Rightarrow> bytes \<Rightarrow> bytes \<Rightarrow> bytes" where
  \<comment> \<open>the inner loop, over \<open>u\<close> and \<open>t\<close>\<close>
  "pbkdf2_rounds prf 0 u t = t"
| "pbkdf2_rounds prf (Suc n) u t = (let u' = prf u in pbkdf2_rounds prf n u' (xor_bytes t u'))"

definition pbkdf2_block :: "(bytes \<Rightarrow> bytes) \<Rightarrow> bytes \<Rightarrow> nat \<Rightarrow> nat \<Rightarrow> bytes" where
  "pbkdf2_block prf salt rounds block =
     (let u = prf (salt @ be32 (word_of_nat block)) in pbkdf2_rounds prf (rounds - 1) u u)"

fun pbkdf2_blocks :: "(bytes \<Rightarrow> bytes) \<Rightarrow> bytes \<Rightarrow> nat \<Rightarrow> nat \<Rightarrow> nat \<Rightarrow> nat \<Rightarrow> bytes \<Rightarrow> bytes" where
  \<comment> \<open>the outer loop, with fuel: each block gives at least a byte\<close>
  "pbkdf2_blocks prf salt rounds len block 0 out = out"
| "pbkdf2_blocks prf salt rounds len block (Suc fuel) out =
     (if length out < len
      then pbkdf2_blocks prf salt rounds len (Suc block) fuel (out @ pbkdf2_block prf salt rounds block) else out)"

definition pbkdf2SHA1 :: "(bytes \<Rightarrow> bytes \<Rightarrow> bytes) \<Rightarrow> string \<Rightarrow> string \<Rightarrow> nat \<Rightarrow> nat \<Rightarrow> bytes" where
  "pbkdf2SHA1 hmac pass salt rounds len =
     take len (pbkdf2_blocks (hmac (bytes_of pass)) (bytes_of salt) rounds len 1 len [])"

fun runes :: "nat list \<Rightarrow> nat list" where
  \<comment> \<open>\<open>[]rune(s)\<close>: the characters; a byte that begins none is U+FFFD\<close>
  "runes [] = []"
| "runes (a # s) =
     (if a < 0x80 then a # runes s
      else case s of
          b # r \<Rightarrow>
            if 0xC2 \<le> a \<and> a < 0xE0 \<and> 0x80 \<le> b \<and> b < 0xC0 then ((a - 0xC0) * 64 + (b - 0x80)) # runes r
            else (case r of
                c # q \<Rightarrow>
                  if 0xE0 \<le> a \<and> a < 0xF0 \<and> (if a = 0xE0 then 0xA0 else 0x80) \<le> b \<and>
                     b < (if a = 0xED then 0xA0 else 0xC0) \<and> 0x80 \<le> c \<and> c < 0xC0
                  then ((a - 0xE0) * 4096 + (b - 0x80) * 64 + (c - 0x80)) # runes q
                  else (case q of
                      d # t \<Rightarrow>
                        if 0xF0 \<le> a \<and> a < 0xF5 \<and> (if a = 0xF0 then 0x90 else 0x80) \<le> b \<and>
                           b < (if a = 0xF4 then 0x90 else 0xC0) \<and> 0x80 \<le> c \<and> c < 0xC0 \<and> 0x80 \<le> d \<and> d < 0xC0
                        then ((a - 0xF0) * 262144 + (b - 0x80) * 4096 + (c - 0x80) * 64 + (d - 0x80)) # runes t
                        else 0xFFFD # runes s
                    | [] \<Rightarrow> 0xFFFD # runes s)
              | [] \<Rightarrow> 0xFFFD # runes s)
        | [] \<Rightarrow> [0xFFFD])"

definition utf16 :: "nat \<Rightarrow> nat list" where
  \<comment> \<open>\<open>utf16.Encode\<close>, of one character\<close>
  "utf16 r = (if r < 0x10000 then [r] else [0xD800 + (r - 0x10000) div 1024, 0xDC00 + (r - 0x10000) mod 1024])"

definition ntHash :: "(bytes \<Rightarrow> bytes) \<Rightarrow> string \<Rightarrow> string" where
  "ntHash md4 pass =
     hex_encode (string_of (md4 (concat (map (\<lambda>u. le16 (word_of_nat u)) (concat (map utf16 (runes (map of_char pass))))))))"

datatype wifi_error = ErrName | ErrPassphrase | ErrIdentity | ErrUnsupported

definition NewConfig ::
  "(bytes \<Rightarrow> bytes \<Rightarrow> bytes) \<Rightarrow> (bytes \<Rightarrow> bytes) \<Rightarrow> network \<Rightarrow> string \<Rightarrow> string \<Rightarrow> wifi_error + wifi_config" where
  "NewConfig hmac md4 n ident pass =
     (if SSID n = [] \<or> length (SSID n) > 32 then Inl ErrName
      else let c = no_wifi\<lparr>CfgSSID := SSID n, CfgSecurity := Security n\<rparr>
           in case Security n of
                Open \<Rightarrow> Inr c
              | PSK \<Rightarrow> if length pass < 8 \<or> length pass > 63 then Inl ErrPassphrase
                       else Inr (c\<lparr>Key := hex_encode (string_of (pbkdf2SHA1 hmac pass (SSID n) 4096 32))\<rparr>)
              | SAE \<Rightarrow> if pass = [] then Inl ErrPassphrase else Inr (c\<lparr>Key := pass\<rparr>)
              | EAP \<Rightarrow> if ident = [] then Inl ErrIdentity else Inr (c\<lparr>Identity := ident, Key := ntHash md4 pass\<rparr>)
              | WEP \<Rightarrow> Inl ErrUnsupported)"

definition wifi_lines :: "wifi_config \<Rightarrow> string list" where
  "wifi_lines c =
     [''ctrl_interface=/run/wpa_supplicant'', ''update_config=0''] @
     (if CfgSSID c = [] then []
      else [''network={'', tabchar # ''ssid='' @ hex_encode (CfgSSID c), tabchar # ''scan_ssid=1''] @
        (case CfgSecurity c of
           Open \<Rightarrow> [tabchar # ''key_mgmt=NONE'']
         | PSK \<Rightarrow> [tabchar # ''key_mgmt=WPA-PSK'', tabchar # ''psk='' @ Key c]
         | SAE \<Rightarrow> [tabchar # ''key_mgmt=SAE'', tabchar # ''ieee80211w=2'', tabchar # ''sae_password='' @ hex_encode (Key c)]
         | EAP \<Rightarrow> [tabchar # ''key_mgmt=WPA-EAP'', tabchar # ''eap=PEAP'', tabchar # ''identity='' @ hex_encode (Identity c),
                    tabchar # ''password=hash:'' @ Key c, tabchar # ''phase2=\"auth=MSCHAPV2\"'']
         | WEP \<Rightarrow> []) @ [''}''])"

definition wifi_encode :: "wifi_config \<Rightarrow> string" where
  "wifi_encode c = with_ends (wifi_lines c)"

definition unhex :: "string \<Rightarrow> string" where
  "unhex v = (case hex_decode v of None \<Rightarrow> [] | Some s \<Rightarrow> s)"

definition wifi_set :: "string \<Rightarrow> string \<Rightarrow> wifi_config \<Rightarrow> wifi_config" where
  \<comment> \<open>\<open>Parse\<close>'s switch over the key\<close>
  "wifi_set k v c =
     (if k = ''ssid'' then c\<lparr>CfgSSID := unhex v\<rparr>
      else if k = ''key_mgmt'' then
        (if v = ''WPA-PSK'' then c\<lparr>CfgSecurity := PSK\<rparr> else if v = ''SAE'' then c\<lparr>CfgSecurity := SAE\<rparr>
         else if v = ''WPA-EAP'' then c\<lparr>CfgSecurity := EAP\<rparr> else c)
      else if k = ''psk'' then c\<lparr>Key := v\<rparr>
      else if k = ''sae_password'' then c\<lparr>Key := unhex v\<rparr>
      else if k = ''identity'' then c\<lparr>Identity := unhex v\<rparr>
      else if k = ''password'' then c\<lparr>Key := trim_prefix v ''hash:''\<rparr>
      else c)"

definition wifi_line :: "string \<Rightarrow> wifi_config \<times> bool \<Rightarrow> wifi_config \<times> bool" where
  \<comment> \<open>one round of \<open>Parse\<close>'s loop; the flag: inside \<open>network={\<close>\<close>
  "wifi_line l0 cf =
     (let l = trim_space l0; (c, inside) = cf
      in if l = ''network={'' then (c, True)
         else if l = ''}'' then (c, False)
         else if \<not> inside then cf
         else case cut_at CHR ''='' l of None \<Rightarrow> cf | Some (k, v) \<Rightarrow> (wifi_set k v c, inside))"

definition wifi_parse :: "string \<Rightarrow> wifi_config \<times> bool" where
  "wifi_parse b = (let (c, inside) = fold wifi_line (scan_lines b) (no_wifi, False) in (c, CfgSSID c \<noteq> []))"

definition wifi_load :: "settings \<Rightarrow> wifi_config \<times> bool" where
  "wifi_load s = (case in_effect s of None \<Rightarrow> (no_wifi, False) | Some b \<Rightarrow> wifi_parse b)"

definition wifi_use :: "settings_io \<Rightarrow> wifi_config \<Rightarrow> settings \<Rightarrow> settings \<times> bool" where
  "wifi_use io c s = (let (f, ok) = put_file (run_io io) (Some (wifi_encode c)) (in_effect s) in (s\<lparr>in_effect := f\<rparr>, ok))"

definition wifi_save :: "settings_io \<Rightarrow> wifi_config \<Rightarrow> bool \<Rightarrow> settings \<Rightarrow> settings \<times> bool \<times> bool" where
  "wifi_save io c installed s = save_setting io installed (Some (wifi_encode c)) s"

section \<open>How the interface stands\<close>

record wifi_status =
  State :: string
  StatusSSID :: string
  Rejected :: bool

definition Joined :: "wifi_status \<Rightarrow> bool" where "Joined s \<longleftrightarrow> State s = ''COMPLETED''"

definition wifi_busy :: "wifi_status \<Rightarrow> bool" where
  \<comment> \<open>\<open>Status.Busy\<close>\<close>
  "wifi_busy s \<longleftrightarrow> State s \<in> {''AUTHENTICATING'', ''ASSOCIATING'', ''ASSOCIATED'', ''4WAY_HANDSHAKE'', ''GROUP_HANDSHAKE''}"

definition status_line :: "string \<Rightarrow> wifi_status \<Rightarrow> wifi_status" where
  "status_line line s =
     (let l = trim_space line; (k, v) = (case cut_at CHR ''='' l of None \<Rightarrow> (l, []) | Some p \<Rightarrow> p)
      in if k = ''wpa_state'' then s\<lparr>State := v\<rparr> else if k = ''ssid'' then s\<lparr>StatusSSID := unescape v\<rparr> else s)"

definition wifi_current :: "string option \<Rightarrow> string option \<Rightarrow> wifi_status option" where
  \<comment> \<open>\<open>Current\<close>, on what \<open>status\<close> and \<open>list_networks\<close> printed\<close>
  "wifi_current status nets =
     (case status of None \<Rightarrow> None
      | Some out \<Rightarrow>
        let s = fold status_line (split_on newline out) \<lparr>State = [], StatusSSID = [], Rejected = False\<rparr>
        in Some (case nets of None \<Rightarrow> s | Some l \<Rightarrow> s\<lparr>Rejected := contains l ''[TEMP-DISABLED]''\<rparr>))"

section \<open>Kept as it was typed\<close>

lemma hex_nibble:
  assumes "d < 16"
  shows "is_hex (hex_char d)" "hex_val (hex_char d) = d"
proof -
  have "(of_char (hex_char d) :: nat) = (if d < 10 then 48 + d else 87 + d)"
    using assms by (simp add: hex_char_def)
  then show "is_hex (hex_char d)" "hex_val (hex_char d) = d"
    using assms by (auto simp: is_hex_def hex_val_def is_digit_iff char_le_iff)
qed

lemma hex_decode_encode: "hex_decode (hex_encode s) = Some s"
proof (induction s)
  case (Cons c s)
  have "(of_char c :: nat) < 256" by (rule of_char_less_256)
  then have "(of_char c :: nat) div 16 < 16" "(of_char c :: nat) mod 16 < 16"
    by (simp_all add: less_mult_imp_div_less)
  with Cons show ?case by (simp add: hex_encode_def hex_nibble)
qed (simp add: hex_encode_def)

lemma unhex_encode [simp]: "unhex (hex_encode s) = s"
  by (simp add: unhex_def hex_decode_encode)

lemma hex_encode_hex: "list_all is_hex (hex_encode s)"
proof (induction s)
  case (Cons c s)
  have "(of_char c :: nat) < 256" by (rule of_char_less_256)
  then have "(of_char c :: nat) div 16 < 16" "(of_char c :: nat) mod 16 < 16"
    by (simp_all add: less_mult_imp_div_less)
  with Cons show ?case by (simp add: hex_encode_def hex_nibble)
qed (simp add: hex_encode_def)

lemma is_hex_not_space: "is_hex c \<Longrightarrow> \<not> is_space c"
  by (auto simp: is_hex_def is_digit_def is_space_def char_le_iff)

lemma hex_encode_Nil [simp]: "hex_encode s = [] \<longleftrightarrow> s = []"
  by (cases s) (auto simp: hex_encode_def)

lemma hex_no_space: "list_all is_hex s \<Longrightarrow> \<forall>c \<in> set s. \<not> is_space c"
  by (auto simp: list_all_iff dest: is_hex_not_space)

definition wifi_wf :: "wifi_config \<Rightarrow> bool" where
  \<comment> \<open>what \<open>NewConfig\<close> makes\<close>
  "wifi_wf c =
     (CfgSSID c \<noteq> [] \<and>
      (case CfgSecurity c of Open \<Rightarrow> Key c = [] \<and> Identity c = [] | PSK \<Rightarrow> list_all is_hex (Key c) \<and> Identity c = []
       | SAE \<Rightarrow> Identity c = [] | EAP \<Rightarrow> list_all is_hex (Key c) | WEP \<Rightarrow> False))"

lemma NewConfig_wf: "NewConfig hmac md4 n ident pass = Inr c \<Longrightarrow> wifi_wf c"
  by (auto simp: NewConfig_def wifi_wf_def no_wifi_def ntHash_def hex_encode_hex Let_def
      split: if_splits security.splits)

lemma trim_tab_word: "\<forall>c \<in> set w. \<not> is_space c \<Longrightarrow> trim_space (tabchar # w) = w"
  using trim_space_word [of w] by (simp add: trim_space_def trim_left_def is_space_def)

lemma setting_line:
  assumes "\<forall>c \<in> set (k @ v). \<not> is_space c" "CHR ''='' \<notin> set k" "k \<noteq> ''network''"
  shows "wifi_line (tabchar # k @ CHR ''='' # v) (c, True) = (wifi_set k v c, True)"
proof -
  have t: "trim_space (tabchar # k @ CHR ''='' # v) = k @ CHR ''='' # v"
    using assms(1) by (intro trim_tab_word) (auto simp: is_space_def)
  have cut: "cut_at CHR ''='' (k @ CHR ''='' # v) = Some (k, v)"
    using assms(2) by (rule cut_at_append)
  then have "k @ CHR ''='' # v \<noteq> ''network={''" "k @ CHR ''='' # v \<noteq> ''}''"
    using assms(3) by (auto simp: cut_at_def)
  then show ?thesis
    by (simp only: wifi_line_def Let_def prod.case t cut if_False not_True_eq_False option.case)
qed

lemma network_line: "wifi_line ''network={'' (c, inside) = (c, True)"
  by (simp add: wifi_line_def trim_space_word is_space_def)

lemma close_line: "wifi_line ''}'' (c, inside) = (c, False)"
  by (simp add: wifi_line_def trim_space_word is_space_def)

lemma outside_line: "trim_space l \<noteq> ''network={'' \<Longrightarrow> wifi_line l (c, False) = (c, False)"
  by (simp add: wifi_line_def Let_def)

lemma ssid_line: "\<forall>c \<in> set v. \<not> is_space c \<Longrightarrow> wifi_line (tabchar # ''ssid='' @ v) (c, True) = (c\<lparr>CfgSSID := unhex v\<rparr>, True)"
  using setting_line [of "''ssid''" v c] by (simp add: wifi_set_def is_space_def)

lemma scan_ssid_line: "wifi_line (tabchar # ''scan_ssid=1'') (c, True) = (c, True)"
  using setting_line [of "''scan_ssid''" "''1''" c] by (simp add: wifi_set_def is_space_def)

lemma key_mgmt_line:
  "wifi_line (tabchar # ''key_mgmt=NONE'') (c, True) = (c, True)"
  "wifi_line (tabchar # ''key_mgmt=WPA-PSK'') (c, True) = (c\<lparr>CfgSecurity := PSK\<rparr>, True)"
  "wifi_line (tabchar # ''key_mgmt=SAE'') (c, True) = (c\<lparr>CfgSecurity := SAE\<rparr>, True)"
  "wifi_line (tabchar # ''key_mgmt=WPA-EAP'') (c, True) = (c\<lparr>CfgSecurity := EAP\<rparr>, True)"
  subgoal using setting_line [of "''key_mgmt''" "''NONE''" c] by (simp add: wifi_set_def is_space_def)
  subgoal using setting_line [of "''key_mgmt''" "''WPA-PSK''" c] by (simp add: wifi_set_def is_space_def)
  subgoal using setting_line [of "''key_mgmt''" "''SAE''" c] by (simp add: wifi_set_def is_space_def)
  subgoal using setting_line [of "''key_mgmt''" "''WPA-EAP''" c] by (simp add: wifi_set_def is_space_def)
  done

lemma secret_lines:
  assumes "\<forall>c \<in> set v. \<not> is_space c"
  shows "wifi_line (tabchar # ''psk='' @ v) (c, True) = (c\<lparr>Key := v\<rparr>, True)"
    "wifi_line (tabchar # ''sae_password='' @ v) (c, True) = (c\<lparr>Key := unhex v\<rparr>, True)"
    "wifi_line (tabchar # ''identity='' @ v) (c, True) = (c\<lparr>Identity := unhex v\<rparr>, True)"
    "wifi_line (tabchar # ''password=hash:'' @ v) (c, True) = (c\<lparr>Key := v\<rparr>, True)"
  subgoal using assms setting_line [of "''psk''" v c] by (simp add: wifi_set_def is_space_def)
  subgoal using assms setting_line [of "''sae_password''" v c] by (simp add: wifi_set_def is_space_def)
  subgoal using assms setting_line [of "''identity''" v c] by (simp add: wifi_set_def is_space_def)
  subgoal using assms setting_line [of "''password''" "''hash:'' @ v" c]
    by (simp add: wifi_set_def is_space_def trim_prefix_def has_prefix_def)
  done

lemma other_lines:
  "wifi_line (tabchar # ''ieee80211w=2'') (c, True) = (c, True)"
  "wifi_line (tabchar # ''eap=PEAP'') (c, True) = (c, True)"
  "wifi_line (tabchar # ''phase2=\"auth=MSCHAPV2\"'') (c, True) = (c, True)"
  "wifi_line ''ctrl_interface=/run/wpa_supplicant'' (c, False) = (c, False)"
  "wifi_line ''update_config=0'' (c, False) = (c, False)"
  subgoal using setting_line [of "''ieee80211w''" "''2''" c] by (simp add: wifi_set_def is_space_def)
  subgoal using setting_line [of "''eap''" "''PEAP''" c] by (simp add: wifi_set_def is_space_def)
  subgoal using setting_line [of "''phase2''" "''\"auth=MSCHAPV2\"''" c] by (simp add: wifi_set_def is_space_def)
  subgoal by (simp add: wifi_line_def trim_space_word is_space_def)
  subgoal by (simp add: wifi_line_def trim_space_word is_space_def)
  done

lemma wifi_lines_clean:
  assumes "wifi_wf c" "l \<in> set (wifi_lines c)"
  shows "newline \<notin> set l \<and> creturn \<notin> set l"
proof -
  have hx: "newline \<notin> set (hex_encode s) \<and> creturn \<notin> set (hex_encode s)" for s
    using hex_no_space [OF hex_encode_hex, of s] by (auto simp: is_space_def)
  have "newline \<notin> set (Key c) \<and> creturn \<notin> set (Key c)" if "list_all is_hex (Key c)"
    using hex_no_space [OF that] by (auto simp: is_space_def)
  then show ?thesis
    using assms hx by (auto simp: wifi_lines_def wifi_wf_def split: security.splits)
qed

lemma wifi_round_trip:
  assumes "wifi_wf c"
  shows "wifi_parse (wifi_encode c) = (c, True)"
proof -
  have hx: "\<forall>x \<in> set (hex_encode s). \<not> is_space x" for s
    by (rule hex_no_space [OF hex_encode_hex])
  have ky: "list_all is_hex (Key c) \<Longrightarrow> \<forall>x \<in> set (Key c). \<not> is_space x"
    by (rule hex_no_space)
  have "scan_lines (wifi_encode c) = wifi_lines c"
    unfolding wifi_encode_def using assms by (intro scan_with_ends ballI) (rule wifi_lines_clean)
  moreover have "fold wifi_line (wifi_lines c) (no_wifi, False) = (c, False)"
    using assms hx ky
    by (cases c; cases "CfgSecurity c")
      (simp_all add: wifi_lines_def wifi_wf_def network_line close_line ssid_line [simplified] scan_ssid_line key_mgmt_line
        secret_lines [simplified] other_lines no_wifi_def)
  ultimately show ?thesis
    using assms by (simp add: wifi_parse_def wifi_wf_def)
qed

text \<open>C26. The network the kiosk keeps is the one it joins: whatever was typed and whatever bytes the network's
  name has, once \<open>Save\<close> says a configuration persists, it is what \<open>Load\<close> returns, field for
  field, both now and after the next boot. So nothing typed ends a line or the block of the file.\<close>

theorem wifi_kept:
  assumes "NewConfig hmac md4 n ident pass = Inr c" "wifi_save io c installed s = (s', True, ok)"
  shows "wifi_load s' = (c, True) \<and> wifi_load (reboot installed s') = (c, True)"
  using saved_setting_boots [OF assms(2) [unfolded wifi_save_def]] wifi_round_trip [OF NewConfig_wf [OF assms(1)]]
  by (simp add: wifi_load_def)

definition wifi_example :: wifi_config where
  "wifi_example = \<lparr>CfgSSID = ''cafe'', CfgSecurity = SAE, Key = [newline, CHR ''}''], Identity = []\<rparr>"

lemma wifi_kept_witness:
  "fst (wifi_load (reboot True \<lparr>in_effect = Some (wifi_encode wifi_example), on_data = Some (wifi_encode wifi_example),
     on_stick = None\<rparr>)) = wifi_example"
proof -
  have n: "NewConfig (\<lambda>k m. []) (\<lambda>m. []) \<lparr>SSID = ''cafe'', Signal = -50, Security = SAE\<rparr> [] [newline, CHR ''}''] = Inr wifi_example"
    by (simp add: NewConfig_def no_wifi_def wifi_example_def)
  have "wifi_save \<lparr>run_io = io_works, keep_io = io_works, stick = False, stick_mounts = False, stick_unmounts = False\<rparr> wifi_example True
      \<lparr>in_effect = None, on_data = None, on_stick = None\<rparr> =
    (\<lparr>in_effect = Some (wifi_encode wifi_example), on_data = Some (wifi_encode wifi_example), on_stick = None\<rparr>, True, True)"
    by (simp add: wifi_save_def save_setting_def put_file_def replaceFile_def io_works_def)
  from wifi_kept [OF n this] show ?thesis by simp
qed

section \<open>One entry per name, the strongest first\<close>

lemma before_trans: "before a b \<Longrightarrow> before b c \<Longrightarrow> before a c"
  by (auto simp: before_def split: if_splits)

lemma before_total: "SSID a \<noteq> SSID b \<Longrightarrow> \<not> before a b \<Longrightarrow> before b a"
  by (auto simp: before_def split: if_splits)

lemma insert_network_set [simp]: "set (insert_network n xs) = insert n (set xs)"
  by (induction xs) auto

lemma insert_network_sorted:
  assumes "sorted_wrt before xs" "SSID n \<notin> SSID ` set xs"
  shows "sorted_wrt before (insert_network n xs)"
  using assms
proof (induction xs)
  case (Cons x xs)
  then show ?case by (auto intro: before_trans dest: before_total)
qed simp

lemma insert_network_distinct:
  "SSID n \<notin> SSID ` set xs \<Longrightarrow> distinct (map SSID xs) \<Longrightarrow> distinct (map SSID (insert_network n xs))"
  by (induction xs) auto

lemma sort_networks:
  assumes "distinct (map SSID ns)"
  shows "set (foldr insert_network ns []) = set ns \<and> sorted_wrt before (foldr insert_network ns []) \<and>
    distinct (map SSID (foldr insert_network ns []))"
  using assms by (induction ns) (auto simp: insert_network_sorted insert_network_distinct)

definition best_of :: "network set \<Rightarrow> (string \<times> network) list \<Rightarrow> bool" where
  "best_of seen best =
     (distinct (map fst best) \<and> (\<forall>(k, m) \<in> set best. SSID m = k \<and> m \<in> seen) \<and>
      (\<forall>n \<in> seen. \<exists>m. map_of best (SSID n) = Some m \<and> Signal n \<le> Signal m))"

lemma keep_best_of:
  assumes "best_of seen best"
  shows "best_of (insert n seen) (keep_best n best)"
proof -
  have up: "best_of (insert n seen) (AList.update (SSID n) n best)"
    if "\<And>x. map_of best (SSID n) = Some x \<Longrightarrow> Signal x < Signal n"
    unfolding best_of_def
  proof (intro conjI ballI)
    show "distinct (map fst (AList.update (SSID n) n best))"
      using assms by (simp add: best_of_def distinct_update)
    then have d: "distinct (map fst (AList.update (SSID n) n best))" .
    fix p assume "p \<in> set (AList.update (SSID n) n best)"
    moreover obtain k m where p: "p = (k, m)" by (cases p)
    ultimately have "map_of (AList.update (SSID n) n best) k = Some m"
      using d by simp
    then have "k = SSID n \<and> m = n \<or> (k, m) \<in> set best"
      by (auto simp: update_conv' dest: map_of_SomeD split: if_splits)
    then show "case p of (k, m) \<Rightarrow> SSID m = k \<and> m \<in> insert n seen"
      using assms p by (auto simp: best_of_def)
  next
    fix m assume "m \<in> insert n seen"
    then show "\<exists>x. map_of (AList.update (SSID n) n best) (SSID m) = Some x \<and> Signal m \<le> Signal x"
      using assms that by (fastforce simp: best_of_def update_conv')
  qed
  show ?thesis
  proof (cases "map_of best (SSID n)")
    case None
    then show ?thesis using up by (simp add: keep_best_def)
  next
    case (Some x)
    show ?thesis
    proof (cases "Signal n > Signal x")
      case True
      then show ?thesis using up Some by (simp add: keep_best_def)
    next
      case False
      then show ?thesis using Some assms by (auto simp: keep_best_def best_of_def simp del: map_of_eq_Some_iff)
    qed
  qed
qed

lemma fold_best_of:
  "best_of seen best \<Longrightarrow>
   best_of (seen \<union> {n. Some n \<in> result_line ` set ls})
     (fold (\<lambda>l b. case result_line l of None \<Rightarrow> b | Some n \<Rightarrow> keep_best n b) ls best)"
proof (induction ls arbitrary: seen best)
  case (Cons l ls)
  show ?case
  proof (cases "result_line l")
    case None
    then have "{n. Some n \<in> result_line ` set (l # ls)} = {n. Some n \<in> result_line ` set ls}" by auto
    with None Cons show ?thesis by simp
  next
    case (Some n)
    then have "seen \<union> {n. Some n \<in> result_line ` set (l # ls)} = insert n seen \<union> {n. Some n \<in> result_line ` set ls}" by auto
    with Some Cons.IH [OF keep_best_of [OF Cons.prems]] show ?thesis by simp
  qed
qed simp


lemma result_line_fields:
  assumes "tabchar \<notin> set a" "tabchar \<notin> set f" "tabchar \<notin> set g" "tabchar \<notin> set h" "name \<noteq> []" "last name \<noteq> creturn"
    "length (filter (\<lambda>c. c = CHR '':'') a) = 5" "\<not> list_all (\<lambda>c. c = CHR 0x00) (unescape name)"
  shows "result_line (a @ tabchar # f @ tabchar # g @ tabchar # h @ tabchar # name) =
    Some \<lparr>SSID = unescape name, Signal = atoi_or g, Security = security_of h\<rparr>"
proof -
  let ?l = "a @ tabchar # f @ tabchar # g @ tabchar # h @ tabchar # name"
  have "trim_right (\<lambda>c. c = creturn) ?l = ?l"
    using assms(5,6) by (intro trim_right_keep) auto
  moreover have "split_n 5 tabchar ?l = [a, f, g, h, name]"
    using assms(1-4) by (simp add: numeral_eq_Suc)
  ultimately show ?thesis
    using assms(7,8) by (simp add: result_line_def)
qed

definition scan_example :: string where
  "scan_example = ''00:11:22:33:44:55'' @ tabchar # ''2412'' @ tabchar # ''-40'' @ tabchar # ''[ESS]'' @ tabchar # ''cafe''"


end
