(* ===== verification/Installer.thy ===== *)
theory Installer
  imports Complex_Main GoStrings "HOL-Library.Log_Nat" "HOL-Library.Product_Lexorder"
begin

text \<open>
  \<open>internal/install\<close>: the disks the kiosk can be installed on, as sysfs and the
  disks themselves show them, and following the installer script. What a file
  of sysfs holds is an argument, \<open>None\<close> where it cannot be read.
\<close>

section \<open>Disks\<close>

definition MinSize :: int where "MinSize = 4 * 2 ^ 30"

record install_disk =
  DiskName :: string
  DiskModel :: string
  DiskSize :: int
  DiskBus :: string
  Self :: bool

record block_device =
  bd_name :: string
  bd_ro :: "string option"
  bd_size :: "string option"
  bd_type :: "string option"           \<comment> \<open>\<open>device/type\<close>\<close>
  bd_card_name :: "string option"      \<comment> \<open>\<open>device/name\<close>\<close>
  bd_model :: "string option"
  bd_vendor :: "string option"
  bd_real :: string                    \<comment> \<open>its directory, links resolved\<close>
  bd_pvd :: "string option"            \<comment> \<open>the 72 bytes at sector 16\<close>
  bd_parts :: "(bool \<times> string option) list"
    \<comment> \<open>the entries of its directory: is it a partition, and what \<open>blkid\<close> says of it\<close>

definition readTrim :: "string option \<Rightarrow> string" where
  "readTrim f = (case f of None \<Rightarrow> [] | Some s \<Rightarrow> trim_space s)"

definition disk_path :: "install_disk \<Rightarrow> string" where "disk_path d = ''/dev/'' @ DiskName d"

definition wrap64 :: "int \<Rightarrow> int" where
  \<comment> \<open>\<open>int64\<close> arithmetic\<close>
  "wrap64 i = (i + 2 ^ 63) mod 2 ^ 64 - 2 ^ 63"

definition round_even :: "rat \<Rightarrow> int" where
  "round_even x =
     (let f = \<lfloor>x\<rfloor>; d = x - of_int f
      in if d < 1 / 2 then f else if d > 1 / 2 then f + 1 else if even f then f else f + 1)"

definition to_double :: "rat \<Rightarrow> rat" where
  \<comment> \<open>the \<open>float64\<close> nearest to a number of 1 or more\<close>
  "to_double x =
     (let e = floorlog 2 (nat \<lfloor>x\<rfloor>) - 1
      in of_int (round_even (x * 2 ^ 52 / 2 ^ e)) * 2 ^ e / 2 ^ 52)"

definition one_decimal :: "rat \<Rightarrow> string" where
  \<comment> \<open>\<open>%.1f\<close>\<close>
  "one_decimal x = (let t = round_even (x * 10) in itoa (t div 10) @ ''.'' @ itoa (t mod 10))"

definition HumanSize :: "int \<Rightarrow> string" where
  "HumanSize b =
     (if b \<ge> 10 ^ 12 then one_decimal (to_double (to_double (of_int b) / 10 ^ 12)) @ '' TB''
      else if b \<ge> 10 ^ 9 then itoa ((b + 5 * 10 ^ 8) div 10 ^ 9) @ '' GB''
      else itoa (go_div b (10 ^ 6)) @ '' MB'')"

definition disk_label :: "install_disk \<Rightarrow> string" where
  "disk_label d =
     DiskBus d @ ''  '' @ (if DiskModel d = [] then DiskName d else DiskModel d) @ ''  '' @ HumanSize (DiskSize d)"

definition busOrder :: "string \<Rightarrow> nat" where
  \<comment> \<open>a bus the map does not have is 0\<close>
  "busOrder b =
     (case map_of [(''NVMe'', 0), (''SATA'', 1), (''eMMC'', 2), (''SCSI'', 3), (''Virtio'', 4), (''SD'', 5), (''USB'', 6)] b of
        None \<Rightarrow> 0 | Some n \<Rightarrow> n)"

definition skipName :: "string \<Rightarrow> bool" where
  "skipName n \<longleftrightarrow>
     list_ex (has_prefix n) [''loop'', ''ram'', ''zram'', ''sr'', ''fd'', ''dm-'', ''md'', ''nbd''] \<or>
     has_prefix n ''mmcblk'' \<and> (contains n ''boot'' \<or> contains n ''rpmb'')"

definition disk_bus :: "block_device \<Rightarrow> string" where
  \<comment> \<open>\<open>bus\<close>\<close>
  "disk_bus b =
     (if has_prefix (bd_name b) ''nvme'' then ''NVMe''
      else if has_prefix (bd_name b) ''mmcblk'' then (if readTrim (bd_type b) = ''SD'' then ''SD'' else ''eMMC'')
      else if has_prefix (bd_name b) ''vd'' then ''Virtio''
      else if contains (bd_real b) ''/usb'' then ''USB''
      else if contains (bd_real b) ''/ata'' then ''SATA'' else ''SCSI'')"

definition disk_model :: "block_device \<Rightarrow> string" where
  \<comment> \<open>\<open>model\<close>\<close>
  "disk_model b =
     (if has_prefix (bd_name b) ''mmcblk'' then readTrim (bd_card_name b)
      else
        let m = readTrim (bd_model b); v = readTrim (bd_vendor b);
            m' = (if v \<noteq> [] \<and> v \<noteq> ''ATA'' \<and> \<not> has_prefix m v then v @ '' '' @ m else m)
        in join_with '' '' (str_fields m'))"

definition isISO :: "string option \<Rightarrow> bool" where
  "isISO pvd =
     (case pvd of None \<Rightarrow> False
      | Some p \<Rightarrow> take 5 (drop 1 p) = ''CD001'' \<and> trim_space (take 32 (drop 40 p)) = ''SIMPLECLIENT'')"

definition label_open :: string where "label_open = ''LABEL='' @ [CHR 0x22]"

fun labelField :: "bool \<Rightarrow> string \<Rightarrow> string option" where
  \<comment> \<open>the first match of the pattern; the flag: at the start, or after white space\<close>
  "labelField start [] = None"
| "labelField start (c # s) =
     (case (if start then cut_prefix (c # s) label_open else None) of
        Some r \<Rightarrow> (case cut_at (CHR 0x22) r of Some (l, _) \<Rightarrow> Some l
                  | None \<Rightarrow> labelField (is_space c \<and> c \<noteq> CHR 0x0B) s)
      | None \<Rightarrow> labelField (is_space c \<and> c \<noteq> CHR 0x0B) s)"

definition fsLabel :: "string option \<Rightarrow> string" where
  \<comment> \<open>on what \<open>blkid\<close> printed\<close>
  "fsLabel out = (case out of None \<Rightarrow> [] | Some s \<Rightarrow> (case labelField True s of None \<Rightarrow> [] | Some l \<Rightarrow> l))"

definition RufusLabel :: string where "RufusLabel = ''SIMPLECLIEN''"

definition IsInstallMedium :: "block_device \<Rightarrow> bool" where
  "IsInstallMedium b \<longleftrightarrow>
     isISO (bd_pvd b) \<or> list_ex (\<lambda>(part, out). part \<and> fsLabel out = RufusLabel) (bd_parts b)"

definition disk_of :: "block_device \<Rightarrow> install_disk option" where
  \<comment> \<open>the loop of \<open>Disks\<close>, on one entry\<close>
  "disk_of b =
     (if skipName (bd_name b) \<or> readTrim (bd_ro b) = ''1'' then None
      else
        let sz = wrap64 (atoi_or (readTrim (bd_size b)) * 512)
        in if sz < MinSize then None
           else Some \<lparr>DiskName = bd_name b, DiskModel = disk_model b, DiskSize = sz, DiskBus = disk_bus b,
                  Self = IsInstallMedium b\<rparr>)"

definition disk_key :: "install_disk \<Rightarrow> nat \<times> string" where
  "disk_key d = (busOrder (DiskBus d), DiskName d)"

definition Disks :: "block_device list option \<Rightarrow> install_disk list" where
  "Disks sys = (case sys of None \<Rightarrow> [] | Some bs \<Rightarrow> sort_key disk_key (List.map_filter disk_of bs))"

definition Table :: "bool \<Rightarrow> string" where
  \<comment> \<open>the argument: \<open>/sys/firmware/efi\<close> is there\<close>
  "Table efi = (if efi then ''gpt'' else ''mbr'')"

section \<open>The installer\<close>

definition StepMedium :: string where "StepMedium = ''medium''"
definition StepPartition :: string where "StepPartition = ''partition''"
definition StepFormat :: string where "StepFormat = ''format''"
definition StepCopy :: string where "StepCopy = ''copy''"
definition StepBootloader :: string where "StepBootloader = ''bootloader''"
definition StepFirmware :: string where "StepFirmware = ''firmware''"

lemmas step_names = StepMedium_def StepPartition_def StepFormat_def StepCopy_def StepBootloader_def StepFirmware_def

record install_options =
  OptTable :: string
  OptLang :: string
  OptKernel :: string
  OptVersion :: string

definition installer_args :: "install_disk \<Rightarrow> install_options \<Rightarrow> string list \<times> string list" where
  \<comment> \<open>its arguments and what its environment has more\<close>
  "installer_args d opt =
     ([disk_path d, OptTable opt, OptLang opt], [''SC_KERNEL='' @ OptKernel opt, ''SC_VERSION='' @ OptVersion opt])"

record progress_log =
  steps :: "(int \<times> int \<times> string) list"     \<comment> \<open>what \<open>progress\<close> has been told\<close>
  install_done :: bool
  install_failure :: string

definition follow_line :: "string \<Rightarrow> progress_log \<Rightarrow> progress_log" where
  "follow_line line p =
     (if has_prefix line ''STEP '' then
        (case str_fields line of
           [_, n, tot, name] \<Rightarrow> p\<lparr>steps := steps p @ [(atoi_or n, atoi_or tot, name)]\<rparr>
         | _ \<Rightarrow> p)
      else case cut_prefix line ''ERROR '' of
          Some t \<Rightarrow> p\<lparr>install_failure := t\<rparr>
        | None \<Rightarrow> if line = ''DONE'' then p\<lparr>install_done := True\<rparr> else p)"

definition follow :: "string \<Rightarrow> progress_log" where
  "follow out = fold follow_line (scan_lines out) \<lparr>steps = [], install_done = False, install_failure = []\<rparr>"

definition install_stopped :: string where "install_stopped = ''the installer stopped before it finished''"

definition run_installer :: "string option \<Rightarrow> string \<Rightarrow> string option \<Rightarrow> progress_log \<times> string option" where
  \<comment> \<open>\<open>Run\<close>: why it could not be started, what it printed, and how it exited; the result is the error\<close>
  "run_installer start out exit =
     (case start of Some e \<Rightarrow> (\<lparr>steps = [], install_done = False, install_failure = []\<rparr>, Some e)
      | None \<Rightarrow>
        let p = follow out
        in (p, if install_failure p \<noteq> [] then Some (install_failure p)
               else case exit of Some e \<Rightarrow> Some e
                 | None \<Rightarrow> if \<not> install_done p then Some install_stopped else None))"

section \<open>What is offered\<close>

lemma busOrder_bus: "disk_bus b \<in> set (map fst [(''NVMe'', 0::nat), (''SATA'', 1), (''eMMC'', 2), (''SCSI'', 3), (''Virtio'', 4), (''SD'', 5), (''USB'', 6)])"
  by (simp add: disk_bus_def)

lemma disk_ofD:
  "disk_of b = Some d \<Longrightarrow> DiskName d = bd_name b \<and> MinSize \<le> DiskSize d \<and> \<not> skipName (bd_name b) \<and>
     readTrim (bd_ro b) \<noteq> ''1'' \<and> (Self d \<longleftrightarrow> IsInstallMedium b) \<and> DiskBus d = disk_bus b"
  by (auto simp: disk_of_def Let_def split: if_splits)

lemma disks_sorted: "sorted (map disk_key (Disks (Some bs)))"
  by (simp add: Disks_def)

lemma disks_set: "set (Disks (Some bs)) = {d. Some d \<in> disk_of ` set bs}"
  by (auto simp: Disks_def List.map_filter_def image_iff) (metis option.sel option.distinct(1))+

end
