(* ===== verification/Dialogs.thy ===== *)
theory Dialogs
  imports UiState InputReader Update Wifi NetConf Installer
begin

text \<open>
  The state of the dialogs over the server list (\<open>internal/ui/power.go\<close>,
  \<open>update.go\<close>, \<open>install.go\<close>, \<open>netdialog.go\<close>, \<open>wifi.go\<close>), what they
  find when they look at the machine, and what they set off: the commands and goroutines a handler
  starts are recorded in \<open>asked\<close>, the latest last, and what those do to the state
  when they end is an operation of its own.
\<close>

section \<open>The dialogs\<close>

record power_state =
  PowerFocus :: int
  Going :: int
  Why :: string
  Driver :: bool

datatype update_phase = UpdateIdle | UpdateChecking | UpdateRunning | UpdateRestart

record update_state =
  UpPhase :: update_phase
  LatestRel :: release
  Checked :: bool
  CheckedAt :: int
  FailedTag :: string
  TriedTag :: string
  TriedOK :: bool
  UpErr :: string
  UpDone :: int
  UpTotal :: int
  UpFocus :: int
  up_cancel :: bool          \<comment> \<open>\<open>cancel\<close> is not nil\<close>

datatype install_phase = InstallPick | InstallConfirm | InstallRunning | InstallDone | InstallFailed

record install_state =
  InPhase :: install_phase
  InDisks :: "install_disk list"
  InSel :: int
  InTable :: string
  InStep :: int
  InTotal :: int
  InStepName :: string
  InErr :: string

record net_state =
  NetStatic :: bool
  NetFields :: "string list"      \<comment> \<open>five\<close>
  NetFocus :: int
  NetPort :: string
  NetIface :: string
  NetStatus :: net_status
  NetMsg :: string
  NetErr :: bool
  NetBusy :: bool
  NetWireless :: string

datatype wifi_item = itemName | itemSecurity | itemUser | itemPassword | itemJoin | itemCancel

record wifi_state =
  WIface :: string
  Networks :: "network list"
  WSel :: int
  WTop :: int
  WKept :: wifi_config
  WStatus :: wifi_status
  WAddress :: string
  Down :: bool
  ScanAt :: int
  Prompt :: bool
  WNet :: network
  Hidden :: bool
  WName :: string                 \<comment> \<open>\<open>Fields\<close>, which the code indexes by item\<close>
  WUser :: string
  WPassword :: string
  WFocus :: wifi_item
  WMsg :: string
  WErr :: bool
  WBusy :: bool
  Joining :: wifi_config
  JoinBy :: int
  WPrev :: wifi_config
  polling :: bool
  gen :: nat

section \<open>What they set off\<close>

datatype ui_effect =
    RestartAfter int                          \<comment> \<open>\<open>time.AfterFunc(d, restart)\<close>\<close>
  | PowerOffAfter int
  | RetryDriver boot
  | RebootNow
  | DialogCheck                               \<comment> \<open>\<open>checkNow\<close>'s goroutine\<close>
  | InstallRelease release boot
  | CancelDownload
  | HoldDisk string
  | RunInstaller install_disk install_options
  | SaveNet net_config bool
  | ScanWifi string
  | PollWifi string nat
  | JoinWifi wifi_config wifi_config          \<comment> \<open>what to join, and what to go back to\<close>
  | BackToWifi wifi_config
  | KeepWifi wifi_config bool
  | ForgetWifi string bool

  | CancelScan
  | StartScan string int
  | SaveStartup auto_config bool

record ui = ui_state +
  PowerD :: power_state
  UpdateD :: update_state
  InstallD :: install_state
  NetD :: net_state
  WifiD :: wifi_state
  asked :: "ui_effect list"

definition ask :: "ui_effect \<Rightarrow> 'a ui_scheme \<Rightarrow> 'a ui_scheme" where
  "ask e s = s\<lparr>asked := asked s @ [e]\<rparr>"

record ui_world =
  now_w :: int
  cidr_w :: "string option"                     \<comment> \<open>\<open>DetectCIDR\<close>\<close>
  disks_w :: "block_device list option"
  efi_w :: bool
  net_w :: net_world
  net_file :: net_config                        \<comment> \<open>\<open>netconf.Load\<close>\<close>
  wireless_w :: "string list"                   \<comment> \<open>\<open>wifi.Interfaces\<close>\<close>
  wifi_file :: "wifi_config \<times> bool"             \<comment> \<open>\<open>wifi.Load\<close>\<close>
  version_w :: string                           \<comment> \<open>\<open>version.Version\<close>\<close>
  hmac_w :: "bytes \<Rightarrow> bytes \<Rightarrow> bytes"           \<comment> \<open>HMAC-SHA1 and MD4, which are not in the repository\<close>
  md4_w :: "bytes \<Rightarrow> bytes"

definition T :: "'a ui_scheme \<Rightarrow> string \<Rightarrow> string" where
  \<comment> \<open>a text in the language in use\<close>
  "T s k = T_msg (ui_lang s) k"

definition Tf :: "'a ui_scheme \<Rightarrow> string \<Rightarrow> fmt_arg list \<Rightarrow> string" where
  "Tf s k args = (case Tf_msg (ui_lang s) k args of None \<Rightarrow> [] | Some t \<Rightarrow> t)"

lemma ask_simps [simp]:
  "asked (ask e s) = asked s @ [e]" "Screen (ask e s) = Screen s" "PowerD (ask e s) = PowerD s"
  "UpdateD (ask e s) = UpdateD s" "InstallD (ask e s) = InstallD s" "NetD (ask e s) = NetD s"
  "WifiD (ask e s) = WifiD s" "Boot (ask e s) = Boot s" "Modal (ask e s) = Modal s"
  by (simp_all add: ask_def)

lemma Transition_simps [simp]:
  "asked (Transition to s) = asked s" "PowerD (Transition to s) = PowerD s" "UpdateD (Transition to s) = UpdateD s"
  "InstallD (Transition to s) = InstallD s" "NetD (Transition to s) = NetD s" "WifiD (Transition to s) = WifiD s"
  "Boot (Transition to s) = Boot s" "Modal (Transition to s) = Modal s" "Auto (Transition to s) = Auto s"
  "hosts (Transition to s) = hosts s" "driverPending (Transition to s) = driverPending s"
  "DriverOff (Transition to s) = DriverOff s"
  by (simp_all add: Transition_def Let_def)

end
