(* ===== verification/PowerDialog.thy ===== *)
theory PowerDialog
  imports Dialogs
begin

text \<open>
  \<open>internal/ui/power.go\<close>: the dialog that restarts or switches off the kiosk (F4), and the
  restart of its own the kiosk makes to give a GPU its driver back.
\<close>

definition powerFocusRestart :: int where "powerFocusRestart = 0"
definition powerFocusOff :: int where "powerFocusOff = 1"
definition powerFocusCancel :: int where "powerFocusCancel = 2"
definition powerFocusDriver :: int where "powerFocusDriver = 3"
definition powerNone :: int where "powerNone = -1"
definition powerDelay :: int where "powerDelay = 1000000000"
definition driverRestartDelay :: int where "driverRestartDelay = 4000000000"

lemmas power_consts = powerFocusRestart_def powerFocusOff_def powerFocusCancel_def powerFocusDriver_def powerNone_def

definition power_buttons :: "power_state \<Rightarrow> int list" where
  "power_buttons p =
     (if Driver p then [powerFocusRestart, powerFocusOff, powerFocusDriver, powerFocusCancel]
      else [powerFocusRestart, powerFocusOff, powerFocusCancel])"

fun index_of :: "int \<Rightarrow> int list \<Rightarrow> int" where
  \<comment> \<open>\<open>slices.Index\<close>\<close>
  "index_of x [] = -1"
| "index_of x (y # ys) = (if x = y then 0 else let i = index_of x ys in if i < 0 then -1 else i + 1)"

definition go_mod :: "int \<Rightarrow> int \<Rightarrow> int" where
  \<comment> \<open>\<open>%\<close>: the sign of the dividend\<close>
  "go_mod a b = a - b * go_div a b"

definition power_move :: "int \<Rightarrow> power_state \<Rightarrow> power_state" where
  "power_move delta p =
     (let b = power_buttons p; n = int (length b); i = index_of (PowerFocus p) b
      in p\<lparr>PowerFocus := b ! nat (go_mod (i + delta + n) n)\<rparr>)"

definition restartWhenIdle :: "'a ui_scheme \<Rightarrow> 'a ui_scheme \<times> bool" where
  "restartWhenIdle s =
     (if \<not> driverPending s \<or> (Screen s \<noteq> ScreenDiscovery \<and> Screen s \<noteq> ScreenAuto) then (s, False)
      else
        let s1 = Transition ScreenDiscovery (s\<lparr>driverPending := False\<rparr>);
            s2 = s1\<lparr>PowerD := \<lparr>PowerFocus = powerFocusCancel, Going = powerFocusRestart,
                    Why = T s1 ''PowerDriverRetry'', Driver = False\<rparr>\<rparr>
        in (ask (RestartAfter driverRestartDelay) ((Transition ScreenPower s2)\<lparr>Dirty := True\<rparr>), True))"

definition openPower :: "'a ui_scheme \<Rightarrow> 'a ui_scheme" where
  "openPower s =
     Transition ScreenPower
       (s\<lparr>PowerD := \<lparr>PowerFocus = powerFocusCancel, Going = powerNone, Why = [], Driver = DriverOff s\<rparr>\<rparr>)"

definition powerChoose :: "int \<Rightarrow> 'a ui_scheme \<Rightarrow> 'a ui_scheme" where
  "powerChoose focus s =
     (let go = s\<lparr>PowerD := (PowerD s)\<lparr>Going := focus\<rparr>\<rparr>
      in if focus = powerFocusRestart then ask (RestartAfter powerDelay) go
         else if focus = powerFocusOff then ask (PowerOffAfter powerDelay) go
         else if focus = powerFocusDriver then ask (RetryDriver (Boot s)) go
         else Transition ScreenDiscovery s)"

definition handlePowerKey :: "int \<Rightarrow> 'a ui_scheme \<Rightarrow> 'a ui_scheme" where
  "handlePowerKey code s =
     (if Going (PowerD s) \<noteq> powerNone then s
      else if code = KeyEsc then Transition ScreenDiscovery s
      else if code = KeyTab \<or> code = KeyRight then s\<lparr>PowerD := power_move 1 (PowerD s)\<rparr>
      else if code = KeyLeft then s\<lparr>PowerD := power_move (-1) (PowerD s)\<rparr>
      else if code = KeyEnter then powerChoose (PowerFocus (PowerD s)) s
      else s)"

definition handlePowerClick :: "nat option \<Rightarrow> 'a ui_scheme \<Rightarrow> 'a ui_scheme" where
  \<comment> \<open>the argument: which of the layout's buttons the pointer is on\<close>
  "handlePowerClick hit s =
     (if Going (PowerD s) \<noteq> powerNone then s
      else case hit of None \<Rightarrow> s
        | Some i \<Rightarrow>
          let k = power_buttons (PowerD s) ! i
          in powerChoose k (s\<lparr>PowerD := (PowerD s)\<lparr>PowerFocus := k\<rparr>\<rparr>))"

section \<open>The machine goes only when someone chose it, and once\<close>

definition power_ok :: "power_state \<Rightarrow> bool" where
  "power_ok p \<longleftrightarrow> PowerFocus p \<in> set (power_buttons p)"

lemma go_mod_nonneg: "0 \<le> a \<Longrightarrow> 0 < b \<Longrightarrow> go_mod a b = a mod b"
  by (simp add: go_mod_def minus_mult_div_eq_mod)

lemma index_of_ge: "-1 \<le> index_of x xs"
  by (induction xs) (auto simp: Let_def)

lemma power_move_ok:
  assumes "-1 \<le> d"
  shows "power_ok (power_move d p)"
proof -
  let ?b = "power_buttons p"
  have n: "3 \<le> int (length ?b)" by (simp add: power_buttons_def)
  then have "go_mod (index_of (PowerFocus p) ?b + d + int (length ?b)) (int (length ?b)) =
      (index_of (PowerFocus p) ?b + d + int (length ?b)) mod int (length ?b)"
    using index_of_ge [of "PowerFocus p" ?b] assms by (intro go_mod_nonneg) linarith+
  also have "nat \<dots> < length ?b"
    using n pos_mod_bound [of "int (length ?b)" "index_of (PowerFocus p) ?b + d + int (length ?b)"] by linarith
  finally have "?b ! nat (go_mod (index_of (PowerFocus p) ?b + d + int (length ?b)) (int (length ?b))) \<in> set ?b"
    by (rule nth_mem)
  then show ?thesis
    by (simp add: power_ok_def power_move_def power_buttons_def Let_def)
qed

definition power_effect :: "ui_effect \<Rightarrow> bool" where
  "power_effect e = (case e of RestartAfter _ \<Rightarrow> True | PowerOffAfter _ \<Rightarrow> True | RetryDriver _ \<Rightarrow> True | RebootNow \<Rightarrow> True | _ \<Rightarrow> False)"

lemma power_move_fixed [simp]: "Going (power_move d p) = Going p" "Driver (power_move d p) = Driver p"
  by (simp_all add: power_move_def Let_def)

text \<open>What a key of the dialog sets off: nothing, or what its focused button says, and then the dialog
  says so and takes no more keys.\<close>

lemma power_key_effects:
  "asked (handlePowerKey code s) = asked s \<or>
   (Going (PowerD s) = powerNone \<and> code = KeyEnter \<and> Going (PowerD (handlePowerKey code s)) = PowerFocus (PowerD s) \<and>
    Going (PowerD (handlePowerKey code s)) \<noteq> powerNone \<and>
    (\<exists>e. asked (handlePowerKey code s) = asked s @ [e] \<and> power_effect e))"
  by (auto simp: handlePowerKey_def powerChoose_def power_effect_def power_consts key_codes Let_def)

end
