(* ===== verification/UpdateDialog.thy ===== *)
theory UpdateDialog
  imports Dialogs
begin

text \<open>
  \<open>internal/ui/update.go\<close>: what a disk install knows of updates, the daily checks, and the dialog
  (F9) that shows them and installs one. What the release server answers and how an installation ends are arguments.
\<close>

definition updateFocusMain :: int where "updateFocusMain = 0"
definition updateFocusClose :: int where "updateFocusClose = 1"

definition no_release :: release where "no_release = \<lparr>Tag = [], Sum = [], Base = []\<rparr>"

definition newer :: "string \<Rightarrow> update_state \<Rightarrow> bool" where
  \<comment> \<open>the first argument: the version of this build\<close>
  "newer ver u \<longleftrightarrow> Checked u \<and> Newer (Tag (LatestRel u)) ver"

definition Available :: "string \<Rightarrow> update_state \<Rightarrow> bool" where
  "Available ver u \<longleftrightarrow> newer ver u \<and> Sum (LatestRel u) \<noteq> []"

definition firstCheck :: int where "firstCheck = 120 * 10 ^ 9"
definition checkEvery :: int where "checkEvery = 24 * 3600 * 10 ^ 9"
definition checkSpread :: int where "checkSpread = 2 * 3600 * 10 ^ 9"
definition retryCheck :: int where "retryCheck = 1800 * 10 ^ 9"
definition recheckAfter :: int where "recheckAfter = 600 * 10 ^ 9"

definition check_wait :: "bool \<Rightarrow> int \<Rightarrow> int" where
  \<comment> \<open>how long the daily checks wait after one that failed or did not; the second argument is \<open>rand.N(checkSpread)\<close>\<close>
  "check_wait failed r = (if failed then retryCheck else checkEvery - checkSpread div 2 + r)"

datatype went_wrong =
  \<comment> \<open>why a check or an update did not work, as \<open>updateReason\<close> tells them apart\<close>
  Cancelled | Damaged | Stalled | Unproven | Insecure | Unreachable string | OtherError string

definition updateReason :: "went_wrong \<Rightarrow> 'a ui_scheme \<Rightarrow> string" where
  "updateReason e s =
     (case e of
        Cancelled \<Rightarrow> T s ''UpdateCancelled''
      | Damaged \<Rightarrow> T s ''UpdateErrDamaged''
      | Stalled \<Rightarrow> T s ''UpdateErrStalled''
      | Unproven \<Rightarrow> T s ''UpdateErrUnproven''
      | Insecure \<Rightarrow> T s ''UpdateErrInsecure''
      | Unreachable t \<Rightarrow> Tf s ''UpdateErrNetwork'' [ArgS t]
      | OtherError t \<Rightarrow> trim_prefix t ''update: '')"

definition set_update :: "(update_state \<Rightarrow> update_state) \<Rightarrow> 'a ui_scheme \<Rightarrow> 'a ui_scheme" where
  "set_update f s = s\<lparr>UpdateD := f (UpdateD s)\<rparr>"

definition startUpdates :: "string \<times> bool \<times> string \<Rightarrow> 'a ui_scheme \<Rightarrow> 'a ui_scheme" where
  \<comment> \<open>what \<open>Settle\<close> said; the daily checks that start here are \<open>checkUpdate\<close> at times of their own\<close>
  "startUpdates settled s =
     (if \<not> Installed (Boot s) then s
      else let (tag, ok, failed) = settled
           in set_update (\<lambda>u. u\<lparr>TriedTag := tag, TriedOK := ok, FailedTag := failed\<rparr>) s)"

definition checkUpdate :: "release + went_wrong \<Rightarrow> int \<Rightarrow> 'a ui_scheme \<Rightarrow> 'a ui_scheme" where
  \<comment> \<open>a release without an update (\<open>ErrNoUpdate\<close>) is an answer too\<close>
  "checkUpdate answer now s =
     (let s1 = (case answer of Inr e \<Rightarrow> s
                | Inl r \<Rightarrow> set_update (\<lambda>u. u\<lparr>LatestRel := r, Checked := True, CheckedAt := now\<rparr>) s)
      in s1\<lparr>Dirty := True\<rparr>)"

definition checkNow :: "'a ui_scheme \<Rightarrow> 'a ui_scheme" where
  "checkNow s = ask DialogCheck (set_update (\<lambda>u. u\<lparr>UpPhase := UpdateChecking, UpErr := []\<rparr>) s)"

definition checked_now :: "release + went_wrong \<Rightarrow> int \<Rightarrow> 'a ui_scheme \<Rightarrow> 'a ui_scheme" where
  \<comment> \<open>the end of \<open>checkNow\<close>'s goroutine\<close>
  "checked_now answer now s0 =
     (let s = checkUpdate answer now s0
      in if UpPhase (UpdateD s) \<noteq> UpdateChecking then s
         else set_update (\<lambda>u. (case answer of Inl _ \<Rightarrow> u
               | Inr e \<Rightarrow> u\<lparr>UpErr := Tf s ''UpdateCheckFailed'' [ArgS (updateReason e s)]\<rparr>)\<lparr>UpPhase := UpdateIdle\<rparr>) s)"

definition openUpdate :: "int \<Rightarrow> 'a ui_scheme \<Rightarrow> 'a ui_scheme" where
  "openUpdate now s0 =
     (let s = Transition ScreenUpdate
            (set_update (\<lambda>u. u\<lparr>UpPhase := UpdateIdle, UpErr := [], UpFocus := updateFocusMain\<rparr>) s0);
          u = UpdateD s
      in if \<not> Checked u \<or> now - CheckedAt u > recheckAfter then checkNow s else s)"

definition startUpdate :: "'a ui_scheme \<Rightarrow> 'a ui_scheme" where
  "startUpdate s =
     ask (InstallRelease (LatestRel (UpdateD s)) (Boot s))
       (set_update (\<lambda>u. u\<lparr>UpPhase := UpdateRunning, UpErr := [], UpDone := 0, UpTotal := -1, up_cancel := True\<rparr>) s)"

definition update_progress :: "int \<Rightarrow> int \<Rightarrow> 'a ui_scheme \<Rightarrow> 'a ui_scheme" where
  "update_progress d tot s = (set_update (\<lambda>u. u\<lparr>UpDone := d, UpTotal := tot\<rparr>) s)\<lparr>Dirty := True\<rparr>"

definition update_ended :: "went_wrong option \<Rightarrow> 'a ui_scheme \<Rightarrow> 'a ui_scheme" where
  \<comment> \<open>the end of \<open>startUpdate\<close>'s goroutine\<close>
  "update_ended err s0 =
     (let s = (set_update (\<lambda>u. u\<lparr>up_cancel := False\<rparr>) s0)\<lparr>Dirty := True\<rparr>
      in case err of
           Some e \<Rightarrow> set_update (\<lambda>u. u\<lparr>UpPhase := UpdateIdle, UpErr := Tf s ''UpdateFailed'' [ArgS (updateReason e s)]\<rparr>) s
         | None \<Rightarrow> ask (RestartAfter 2000000000) (set_update (\<lambda>u. u\<lparr>UpPhase := UpdateRestart\<rparr>) s))"

definition cancelUpdate :: "'a ui_scheme \<Rightarrow> 'a ui_scheme" where
  "cancelUpdate s = (if up_cancel (UpdateD s) then ask CancelDownload s else s)"

definition updateMain :: "string \<Rightarrow> 'a ui_scheme \<Rightarrow> 'a ui_scheme" where
  "updateMain ver s =
     (if UpPhase (UpdateD s) \<noteq> UpdateIdle then s
      else if Available ver (UpdateD s) then startUpdate s else checkNow s)"

definition handleUpdateKey :: "string \<Rightarrow> int \<Rightarrow> 'a ui_scheme \<Rightarrow> 'a ui_scheme" where
  "handleUpdateKey ver code s =
     (case UpPhase (UpdateD s) of
        UpdateRunning \<Rightarrow> if code = KeyEsc \<or> code = KeyEnter then cancelUpdate s else s
      | UpdateRestart \<Rightarrow> s
      | _ \<Rightarrow>
        if code = KeyEsc then Transition ScreenDiscovery s
        else if code = KeyTab \<or> code = KeyLeft \<or> code = KeyRight then
          set_update (\<lambda>u. u\<lparr>UpFocus := 1 - UpFocus u\<rparr>) s
        else if code = KeyEnter then
          (if UpFocus (UpdateD s) = updateFocusClose then Transition ScreenDiscovery s else updateMain ver s)
        else s)"

datatype update_hit = OnClose | OnMain

definition handleUpdateClick :: "string \<Rightarrow> update_hit option \<Rightarrow> 'a ui_scheme \<Rightarrow> 'a ui_scheme" where
  \<comment> \<open>the second argument: the button of the layout the pointer is on\<close>
  "handleUpdateClick ver hit s =
     (case hit of None \<Rightarrow> s
      | Some OnClose \<Rightarrow>
        (case UpPhase (UpdateD s) of UpdateRunning \<Rightarrow> cancelUpdate s | UpdateRestart \<Rightarrow> s
         | _ \<Rightarrow> Transition ScreenDiscovery s)
      | Some OnMain \<Rightarrow>
        if UpPhase (UpdateD s) = UpdateIdle then updateMain ver (set_update (\<lambda>u. u\<lparr>UpFocus := updateFocusMain\<rparr>) s)
        else s)"

definition updateBanner :: "string \<Rightarrow> 'a ui_scheme \<Rightarrow> string \<times> bool" where
  "updateBanner ver s =
     (let u = UpdateD s
      in if TriedTag u = [] then ([], False)
         else if TriedOK u then (Tf s ''UpdateNoticeOK'' [ArgS (TriedTag u)], True)
         else (Tf s ''UpdateNoticeFailed'' [ArgS (TriedTag u), ArgS ver], False))"

definition updateNote :: "string \<Rightarrow> 'a ui_scheme \<Rightarrow> string" where
  "updateNote ver s =
     (let u = UpdateD s
      in if Available ver u \<and> Tag (LatestRel u) \<noteq> FailedTag u then Tf s ''UpdateNew'' [ArgS (Tag (LatestRel u))] else [])"

section \<open>Lemmas\<close>

lemma set_update_simps [simp]:
  "UpdateD (set_update f s) = f (UpdateD s)" "asked (set_update f s) = asked s" "Screen (set_update f s) = Screen s"
  "Boot (set_update f s) = Boot s" "InstallD (set_update f s) = InstallD s" "PowerD (set_update f s) = PowerD s"
  "NetD (set_update f s) = NetD s" "WifiD (set_update f s) = WifiD s"
  by (simp_all add: set_update_def)

text \<open>A check is over whatever was asked: the dialog never stays at \<open>checking\<close>, and a failed one keeps what the
  last check found.\<close>

lemma check_settles:
  "UpPhase (UpdateD (checked_now a t s)) \<noteq> UpdateChecking \<or> UpPhase (UpdateD s) \<noteq> UpdateChecking"
  "LatestRel (UpdateD (checked_now (Inr e) t s)) = LatestRel (UpdateD s) \<and> Checked (UpdateD (checked_now (Inr e) t s)) = Checked (UpdateD s)"
  by (auto simp: checked_now_def checkUpdate_def Let_def set_update_def split: sum.splits)

end
