(* ===== verification/InstallDialog.thy ===== *)
theory InstallDialog
  imports Dialogs
begin

text \<open>
  \<open>internal/ui/install.go\<close>: the dialog that installs the kiosk to a disk.
\<close>

definition set_install :: "(install_state \<Rightarrow> install_state) \<Rightarrow> 'a ui_scheme \<Rightarrow> 'a ui_scheme" where
  "set_install f s = s\<lparr>InstallD := f (InstallD s)\<rparr>"

definition no_install :: install_state where
  "no_install = \<lparr>InPhase = InstallPick, InDisks = [], InSel = 0, InTable = [], InStep = 0, InTotal = 0, InStepName = [],
     InErr = []\<rparr>"

definition openInstall :: "ui_world \<Rightarrow> 'a ui_scheme \<Rightarrow> 'a ui_scheme" where
  "openInstall w s =
     Transition ScreenInstall (set_install (\<lambda>_. no_install\<lparr>InDisks := Disks (disks_w w), InTable := Table (efi_w w)\<rparr>) s)"

definition startInstall :: "ui_world \<Rightarrow> 'a ui_scheme \<Rightarrow> 'a ui_scheme option" where
  \<comment> \<open>\<open>None\<close>: the index is out of range and Go panics\<close>
  "startInstall w s =
     (let i = InstallD s
      in if InSel i < 0 \<or> InSel i \<ge> int (length (InDisks i)) then None
         else
           let disk = InDisks i ! nat (InSel i);
               opt = \<lparr>OptTable = InTable i, OptLang = ui_lang s, OptKernel = BootEnv.Kernel (Boot s), OptVersion = version_w w\<rparr>
           in Some (ask (RunInstaller disk opt) (ask (HoldDisk (DiskName disk))
                (set_install (\<lambda>i. i\<lparr>InPhase := InstallRunning, InStep := 0, InTotal := 6, InStepName := [], InErr := []\<rparr>) s))))"

definition handleInstallKey :: "ui_world \<Rightarrow> int \<Rightarrow> nat \<Rightarrow> 'a ui_scheme \<Rightarrow> 'a ui_scheme option" where
  \<comment> \<open>the key's code and the rune it types\<close>
  "handleInstallKey w code r s =
     (let i = InstallD s
      in case InPhase i of
           InstallPick \<Rightarrow>
             Some (if code = KeyUp then (if InSel i > 0 then set_install (\<lambda>i. i\<lparr>InSel := InSel i - 1\<rparr>) s else s)
               else if code = KeyDown then
                 (if InSel i < int (length (InDisks i)) - 1 then set_install (\<lambda>i. i\<lparr>InSel := InSel i + 1\<rparr>) s else s)
               else if code = KeyEnter then
                 (if InDisks i \<noteq> [] then set_install (\<lambda>i. i\<lparr>InPhase := InstallConfirm\<rparr>) s else s)
               else if code = KeyEsc then Transition ScreenDiscovery s else s)
         | InstallConfirm \<Rightarrow>
             if r \<noteq> 0 \<and> equal_fold (utf8 r) (T s ''InstallLetter'') then startInstall w s
             else Some (if code = KeyEsc then set_install (\<lambda>i. i\<lparr>InPhase := InstallPick\<rparr>) s else s)
         | InstallRunning \<Rightarrow> Some s
         | InstallDone \<Rightarrow> Some (if code = KeyEnter then ask RebootNow s else s)
         | InstallFailed \<Rightarrow> Some (if code = KeyEnter \<or> code = KeyEsc then openInstall w s else s))"

definition install_wheel :: "int \<Rightarrow> 'a ui_scheme \<Rightarrow> 'a ui_scheme" where
  \<comment> \<open>\<open>handleWheel\<close>, on this dialog\<close>
  "install_wheel notches s =
     (let i = InstallD s
      in if InPhase i = InstallPick \<and> InDisks i \<noteq> [] then
           set_install (\<lambda>i. i\<lparr>InSel := clampInt (InSel i - notches) 0 (int (length (InDisks i)) - 1)\<rparr>) s
         else s)"

definition install_progress :: "int \<Rightarrow> int \<Rightarrow> string \<Rightarrow> 'a ui_scheme \<Rightarrow> 'a ui_scheme" where
  "install_progress n tot name s =
     (set_install (\<lambda>i. i\<lparr>InStep := n, InTotal := tot, InStepName := name\<rparr>) s)\<lparr>Dirty := True\<rparr>"

definition install_ended :: "string option \<Rightarrow> 'a ui_scheme \<Rightarrow> 'a ui_scheme" where
  "install_ended err s =
     (set_install (\<lambda>i. case err of Some e \<Rightarrow> i\<lparr>InPhase := InstallFailed, InErr := e\<rparr> | None \<Rightarrow> i\<lparr>InPhase := InstallDone\<rparr>) s)
       \<lparr>Dirty := True\<rparr>"

definition installer_reports :: "progress_log \<times> string option \<Rightarrow> 'a ui_scheme \<Rightarrow> 'a ui_scheme" where
  \<comment> \<open>the whole goroutine: the installer's steps, then how it ended\<close>
  "installer_reports pe s =
     install_ended (snd pe) (fold (\<lambda>(n, tot, name). install_progress n tot name) (steps (fst pe)) s)"

definition installStepText :: "string \<Rightarrow> 'a ui_scheme \<Rightarrow> string" where
  "installStepText name s =
     T s (if name = StepMedium then ''InstallStepMedium'' else if name = StepPartition then ''InstallStepPartition''
       else if name = StepFormat then ''InstallStepFormat'' else if name = StepCopy then ''InstallStepCopy''
       else if name = StepBootloader then ''InstallStepBootloader'' else if name = StepFirmware then ''InstallStepFirmware''
       else ''InstallStepMedium'')"

section \<open>The disk wiped is the disk confirmed\<close>

lemma set_install_simps [simp]:
  "InstallD (set_install f s) = f (InstallD s)" "asked (set_install f s) = asked s" "Screen (set_install f s) = Screen s"
  "Boot (set_install f s) = Boot s" "UpdateD (set_install f s) = UpdateD s" "PowerD (set_install f s) = PowerD s"
  "NetD (set_install f s) = NetD s" "WifiD (set_install f s) = WifiD s" "ui_lang (set_install f s) = ui_lang s"
  by (simp_all add: set_install_def)

definition install_ok :: "install_state \<Rightarrow> bool" where
  \<comment> \<open>a disk is selected wherever there is one, and always on the page that asks to confirm\<close>
  "install_ok i \<longleftrightarrow>
     0 \<le> InSel i \<and> (InDisks i = [] \<longrightarrow> InSel i = 0 \<and> InPhase i = InstallPick) \<and>
     (InDisks i \<noteq> [] \<longrightarrow> InSel i < int (length (InDisks i)))"

lemma openInstall_ok: "install_ok (InstallD (openInstall w s))"
  by (simp add: openInstall_def install_ok_def no_install_def)

lemma install_key_ok:
  assumes "install_ok (InstallD s)"
  shows "\<exists>s'. handleInstallKey w code r s = Some s' \<and> install_ok (InstallD s')"
proof (cases "InPhase (InstallD s)")
  case InstallConfirm
  then have "startInstall w s \<noteq> None"
    using assms by (auto simp: startInstall_def install_ok_def Let_def)
  then obtain t where t: "startInstall w s = Some t" by blast
  then have "install_ok (InstallD t)"
    using assms InstallConfirm by (auto simp: startInstall_def install_ok_def Let_def split: if_splits)
  then show ?thesis
    using t assms InstallConfirm by (auto simp: handleInstallKey_def install_ok_def)
qed (use assms openInstall_ok [of w s] in \<open>auto simp: handleInstallKey_def Let_def install_ok_def ask_def\<close>)

text \<open>The installer starts from the confirming page only, on the disk that page names, with that disk's
  drives let go of first; Enter does not start it.\<close>

lemma install_key_starts:
  assumes "handleInstallKey w code r s = Some s'"
  shows "asked s' = asked s \<or>
    (InPhase (InstallD s) = InstallDone \<and> code = KeyEnter \<and> asked s' = asked s @ [RebootNow]) \<or>
    (InPhase (InstallD s) = InstallConfirm \<and> InPhase (InstallD s') = InstallRunning \<and> InSel (InstallD s') = InSel (InstallD s) \<and>
     equal_fold (utf8 r) (T s ''InstallLetter'') \<and>
     (\<exists>d opt. d = InDisks (InstallD s) ! nat (InSel (InstallD s)) \<and> OptTable opt = InTable (InstallD s) \<and>
        asked s' = asked s @ [HoldDisk (DiskName d), RunInstaller d opt]))"
  using assms
  by (auto simp: handleInstallKey_def startInstall_def openInstall_def Let_def split: install_phase.splits if_splits)

end
