(* ===== verification/WifiDialog.thy ===== *)
theory WifiDialog
  imports Dialogs
begin

text \<open>
  \<open>internal/ui/wifi.go\<close>: the wireless dialog, opened from the network settings: the networks in
  range, the prompt for what one takes, and joining one, which is kept only once the kiosk is on it. Each
  goroutine is an effect that is asked for and, when it ends, an operation of its own
  (\<open>poll_ended\<close>, \<open>join_ended\<close>, \<open>keep_ended\<close>, \<open>forget_ended\<close>).
\<close>

definition joinTimeout :: int where "joinTimeout = 30000000000"
definition wifiRescan :: int where "wifiRescan = 15000000000"
definition wifiScanShown :: int where "wifiScanShown = 5000000000"
definition wifiRows :: int where "wifiRows = 7"

definition hiddenSecurity :: "security list" where "hiddenSecurity = [Open, PSK, EAP]"

definition no_network :: network where "no_network = \<lparr>SSID = [], Signal = 0, Security = Open\<rparr>"
definition no_status :: wifi_status where "no_status = \<lparr>State = [], StatusSSID = [], Rejected = False\<rparr>"

definition no_wifi_state :: wifi_state where
  "no_wifi_state =
     \<lparr>WIface = [], Networks = [], WSel = 0, WTop = 0, WKept = no_wifi, WStatus = no_status, WAddress = [], Down = False,
       ScanAt = 0, Prompt = False, WNet = no_network, Hidden = False, WName = [], WUser = [], WPassword = [],
       WFocus = itemName, WMsg = [], WErr = False, WBusy = False, Joining = no_wifi, JoinBy = 0, WPrev = no_wifi,
       polling = False, gen = 0\<rparr>"

definition set_wifi :: "(wifi_state \<Rightarrow> wifi_state) \<Rightarrow> 'a ui_scheme \<Rightarrow> 'a ui_scheme" where
  "set_wifi f s = s\<lparr>WifiD := f (WifiD s)\<rparr>"

lemma set_wifi_simps [simp]:
  "WifiD (set_wifi f s) = f (WifiD s)" "asked (set_wifi f s) = asked s" "Screen (set_wifi f s) = Screen s"
  "Boot (set_wifi f s) = Boot s" "UpdateD (set_wifi f s) = UpdateD s" "PowerD (set_wifi f s) = PowerD s"
  "NetD (set_wifi f s) = NetD s" "InstallD (set_wifi f s) = InstallD s" "ui_lang (set_wifi f s) = ui_lang s"
  by (simp_all add: set_wifi_def)

section \<open>The prompt\<close>

definition wifi_items :: "wifi_state \<Rightarrow> wifi_item list" where
  "wifi_items w =
     (if Hidden w then [itemName, itemSecurity] else []) @
     (if Security (WNet w) = EAP then [itemUser] else []) @
     (if Security (WNet w) \<noteq> Open then [itemPassword] else []) @ [itemJoin, itemCancel]"

definition last_index :: "'b \<Rightarrow> 'b list \<Rightarrow> nat" where
  \<comment> \<open>the loop that remembers where it saw \<open>x\<close>; 0 if nowhere\<close>
  "last_index x xs = (case filter (\<lambda>j. xs ! j = x) (rev [0 ..< length xs]) of [] \<Rightarrow> 0 | j # _ \<Rightarrow> j)"

definition round_to :: "'b list \<Rightarrow> nat \<Rightarrow> int \<Rightarrow> 'b" where
  \<comment> \<open>\<open>xs[(i+d+len(xs))%len(xs)]\<close>, for a \<open>d\<close> of 1 or -1\<close>
  "round_to xs i d = xs ! nat ((int i + d + int (length xs)) mod int (length xs))"

definition wifi_step :: "int \<Rightarrow> wifi_state \<Rightarrow> wifi_state" where
  "wifi_step d w = w\<lparr>WFocus := round_to (wifi_items w) (last_index (WFocus w) (wifi_items w)) d\<rparr>"

definition wifi_field :: "wifi_state \<Rightarrow> wifi_item option" where
  "wifi_field w = (if WFocus w \<in> {itemName, itemUser, itemPassword} then Some (WFocus w) else None)"

definition edit_field :: "(string \<Rightarrow> string) \<Rightarrow> wifi_state \<Rightarrow> wifi_state" where
  \<comment> \<open>\<open>w.Fields[f] = g(w.Fields[f])\<close>, with \<open>f\<close> the field the focus is on\<close>
  "edit_field g w =
     (case wifi_field w of Some itemName \<Rightarrow> w\<lparr>WName := g (WName w)\<rparr> | Some itemUser \<Rightarrow> w\<lparr>WUser := g (WUser w)\<rparr>
      | Some itemPassword \<Rightarrow> w\<lparr>WPassword := g (WPassword w)\<rparr> | _ \<Rightarrow> w)"

definition cycleSecurity :: "int \<Rightarrow> wifi_state \<Rightarrow> wifi_state" where
  "cycleSecurity d w =
     w\<lparr>WNet := (WNet w)\<lparr>Security := round_to hiddenSecurity (last_index (Security (WNet w)) hiddenSecurity) d\<rparr>\<rparr>"

definition wifi_on :: "string \<Rightarrow> wifi_state \<Rightarrow> bool" where
  "wifi_on ssid w \<longleftrightarrow> ssid \<noteq> [] \<and> Joined (WStatus w) \<and> StatusSSID (WStatus w) = ssid"

section \<open>The list\<close>

definition wifi_scroll :: "wifi_state \<Rightarrow> wifi_state" where
  "wifi_scroll w =
     (let t1 = (if WSel w < WTop w then WSel w else WTop w);
          t2 = (if WSel w \<ge> t1 + wifiRows then WSel w - wifiRows + 1 else t1)
      in w\<lparr>WTop := clampInt t2 0 (max 0 (int (length (Networks w)) + 1 - wifiRows))\<rparr>)"

definition wifi_move :: "int \<Rightarrow> wifi_state \<Rightarrow> wifi_state" where
  "wifi_move d w = wifi_scroll (w\<lparr>WSel := clampInt (WSel w + d) 0 (int (length (Networks w)))\<rparr>)"

definition setNetworks :: "network list \<Rightarrow> wifi_state \<Rightarrow> wifi_state" where
  "setNetworks nets w =
     (let n = int (length (Networks w));
          hid = (WSel w \<ge> n \<and> n > 0);
          cur = (if WSel w < n then SSID (Networks w ! nat (WSel w)) else [])
      in wifi_scroll (w\<lparr>Networks := nets,
           WSel := (if hid then int (length nets) else int (last_index cur (map SSID nets)))\<rparr>))"

section \<open>Interfaces, scans and polls\<close>

definition pickInterface :: "net_world \<Rightarrow> string" where
  "pickInterface w =
     (let all = Interfaces (net_names w)
      in case filter (\<lambda>i. st_address (CurrentNet w i) \<noteq> [] \<and> \<not> has_prefix (st_address (CurrentNet w i)) ''169.254.'') all of
           i # _ \<Rightarrow> i
         | [] \<Rightarrow> (case filter (\<lambda>i. st_carrier (CurrentNet w i)) all of i # _ \<Rightarrow> i
                | [] \<Rightarrow> (case all of i # _ \<Rightarrow> i | [] \<Rightarrow> [])))"

definition initWifi :: "ui_world \<Rightarrow> 'a ui_scheme \<Rightarrow> 'a ui_scheme \<times> string" where
  "initWifi w s =
     (case wireless_w w of [] \<Rightarrow> (s, [])
      | i # _ \<Rightarrow>
        (if WIface (WifiD s) \<noteq> i
         then s\<lparr>WifiD := no_wifi_state\<lparr>WIface := i, WKept := fst (wifi_file w)\<rparr>\<rparr> else s, i))"

definition scanWifi :: "int \<Rightarrow> 'a ui_scheme \<Rightarrow> 'a ui_scheme" where
  "scanWifi now s =
     (if WIface (WifiD s) = [] then s
      else ask (ScanWifi (WIface (WifiD s))) (set_wifi (\<lambda>w. w\<lparr>ScanAt := now\<rparr>) s))"

definition refreshWifi :: "'a ui_scheme \<Rightarrow> 'a ui_scheme" where
  "refreshWifi s =
     (let w = WifiD s
      in if polling w \<or> WIface w = [] then s
         else ask (PollWifi (WIface w) (gen w)) (set_wifi (\<lambda>w. w\<lparr>polling := True\<rparr>) s))"

definition openWifi :: "int \<Rightarrow> 'a ui_scheme \<Rightarrow> 'a ui_scheme" where
  "openWifi now s =
     scanWifi now (refreshWifi (Transition ScreenWifi
       (set_wifi (\<lambda>w. w\<lparr>Prompt := False, WMsg := [], WErr := False\<rparr>) s)))"

definition form_fields :: "net_config \<Rightarrow> string list" where
  "form_fields c = (let (ip, smask, gw, d1, d2) = Form c in [ip, smask, gw, d1, d2])"

definition closeWifi :: "ui_world \<Rightarrow> 'a ui_scheme \<Rightarrow> 'a ui_scheme" where
  "closeWifi w s =
     (let n = NetD s;
          i = pickInterface (net_w w);
          n1 = (if \<not> NetStatic n \<and> NetConf.Interface (net_file w) = [] \<and> i \<noteq> NetIface n
                then n\<lparr>NetIface := i, NetFields := form_fields (Lease (net_w w) i)\<rparr> else n)
      in Transition ScreenNetwork (s\<lparr>NetD := n1\<lparr>NetStatus := CurrentNet (net_w w) (NetIface n1)\<rparr>\<rparr>))"

section \<open>Joining a network\<close>

definition wifi_ask :: "network \<Rightarrow> bool \<Rightarrow> wifi_state \<Rightarrow> wifi_state" where
  "wifi_ask n hid w =
     (let w1 = w\<lparr>Prompt := True, WNet := n, Hidden := hid, WName := [], WUser := [], WPassword := [], WMsg := [], WErr := False\<rparr>
      in w1\<lparr>WFocus := hd (wifi_items w1)\<rparr>)"

definition wifi_keep :: "wifi_config \<Rightarrow> 'a ui_scheme \<Rightarrow> 'a ui_scheme" where
  "wifi_keep c s = ask (KeepWifi c (Installed (Boot s))) (set_wifi (\<lambda>w. w\<lparr>WKept := c\<rparr>) s)"

definition keep_ended :: "bool \<Rightarrow> string option \<Rightarrow> 'a ui_scheme \<Rightarrow> 'a ui_scheme" where
  "keep_ended persisted err s =
     (set_wifi (\<lambda>w. case err of Some e \<Rightarrow> w\<lparr>WMsg := Tf s ''NetErrApply'' [ArgS e], WErr := True\<rparr>
        | None \<Rightarrow> w\<lparr>WMsg := T s (if persisted then ''NetSaved'' else ''NetSessionOnly''), WErr := False\<rparr>) s)
       \<lparr>Subnet := [], ScanDone := False, ScanProgress := 0, Dirty := True\<rparr>"

definition wifi_join :: "wifi_config \<Rightarrow> 'a ui_scheme \<Rightarrow> 'a ui_scheme" where
  "wifi_join c s =
     ask (JoinWifi c (WKept (WifiD s)))
       (set_wifi (\<lambda>w. w\<lparr>WBusy := True, Prompt := False, WMsg := [], WErr := False, Joining := no_wifi, gen := Suc (gen w)\<rparr>) s)"

definition join_ended :: "wifi_config \<Rightarrow> wifi_config \<Rightarrow> string option \<Rightarrow> int \<Rightarrow> 'a ui_scheme \<Rightarrow> 'a ui_scheme" where
  "join_ended c prev err now s =
     (set_wifi (\<lambda>w0. let w = w0\<lparr>WBusy := False, gen := Suc (gen w0)\<rparr>
        in case err of Some e \<Rightarrow> w\<lparr>WMsg := Tf s ''NetErrApply'' [ArgS e], WErr := True\<rparr>
           | None \<Rightarrow> w\<lparr>Joining := c, WPrev := prev, JoinBy := now + joinTimeout, WStatus := no_status\<rparr>) s)\<lparr>Dirty := True\<rparr>"

definition wifi_forget :: "'a ui_scheme \<Rightarrow> 'a ui_scheme" where
  "wifi_forget s =
     (let ssid = CfgSSID (WKept (WifiD s))
      in if ssid = [] then s
         else ask (ForgetWifi ssid (Installed (Boot s)))
            (set_wifi (\<lambda>w. w\<lparr>WBusy := True, Joining := no_wifi, gen := Suc (gen w)\<rparr>) s))"

definition forget_ended :: "string \<Rightarrow> string option \<Rightarrow> 'a ui_scheme \<Rightarrow> 'a ui_scheme" where
  "forget_ended ssid err s =
     (set_wifi (\<lambda>w0. let w = w0\<lparr>WBusy := False, gen := Suc (gen w0)\<rparr>
        in case err of Some e \<Rightarrow> w\<lparr>WMsg := Tf s ''NetErrApply'' [ArgS e], WErr := True\<rparr>
           | None \<Rightarrow> w\<lparr>WKept := no_wifi, WStatus := no_status, WMsg := Tf s ''WifiForgotten'' [ArgS ssid], WErr := False\<rparr>) s)
       \<lparr>Dirty := True\<rparr>"

definition wifi_choose :: "'a ui_scheme \<Rightarrow> 'a ui_scheme" where
  "wifi_choose s =
     (let w = WifiD s
      in if WSel w \<ge> int (length (Networks w)) then set_wifi (wifi_ask \<lparr>SSID = [], Signal = 0, Security = PSK\<rparr> True) s
         else
           let n = Networks w ! nat (WSel w)
           in if wifi_on (SSID n) w then s
              else if SSID n = CfgSSID (WKept w) then wifi_join (WKept w) s
              else if Security n = WEP then set_wifi (\<lambda>w. w\<lparr>WMsg := T s ''WifiErrWEP'', WErr := True\<rparr>) s
              else if Security n = Open then
                wifi_join (case NewConfig (\<lambda>_ _. []) (\<lambda>_. []) n [] [] of Inr c \<Rightarrow> c | Inl _ \<Rightarrow> no_wifi) s
              else set_wifi (wifi_ask n False) s)"

definition wifi_watch :: "int \<Rightarrow> 'a ui_scheme \<Rightarrow> 'a ui_scheme" where
  "wifi_watch now s =
     (let w = WifiD s; j = Joining w
      in if CfgSSID j = [] \<or> WBusy w then s
         else if wifi_on (CfgSSID j) w then wifi_keep j (set_wifi (\<lambda>w. w\<lparr>Joining := no_wifi\<rparr>) s)
         else if \<not> Rejected (WStatus w) \<and> now < JoinBy w then s
         else
           let told = (if Rejected (WStatus w) then
                  (wifi_ask \<lparr>SSID = CfgSSID j, Signal = 0, Security = CfgSecurity j\<rparr> False (w\<lparr>Joining := no_wifi\<rparr>))
                    \<lparr>WUser := Identity j, WFocus := itemPassword,
                      WMsg := T s (if CfgSecurity j = EAP then ''WifiRejectedUser'' else ''WifiRejected'')\<rparr>
                else w\<lparr>Joining := no_wifi, WMsg := Tf s ''WifiFailed'' [ArgS (CfgSSID j)]\<rparr>)
           in ask (BackToWifi (WPrev w)) (s\<lparr>WifiD := told\<lparr>WErr := True, gen := Suc (gen w)\<rparr>\<rparr>))"

definition poll_ended ::
  "string \<Rightarrow> nat \<Rightarrow> network list option \<Rightarrow> wifi_status option \<Rightarrow> string \<Rightarrow> int \<Rightarrow> 'a ui_scheme \<Rightarrow> 'a ui_scheme" where
  \<comment> \<open>what \<open>Results\<close> and \<open>Current\<close> gave (\<open>None\<close>: an error), and the interface's address\<close>
  "poll_ended iface g nets st addr now s0 =
     (let s = set_wifi (\<lambda>w. w\<lparr>polling := False\<rparr>) s0; w = WifiD s
      in if WIface w \<noteq> iface \<or> gen w \<noteq> g then s
         else
           let w1 = w\<lparr>Down := (nets = None \<and> st = None)\<rparr>;
               w2 = (case nets of None \<Rightarrow> w1 | Some ns \<Rightarrow> setNetworks ns w1);
               w3 = (case st of None \<Rightarrow> w2 | Some x \<Rightarrow> w2\<lparr>WStatus := x\<rparr>)
           in (wifi_watch now (s\<lparr>WifiD := w3\<lparr>WAddress := addr\<rparr>\<rparr>))\<lparr>Dirty := True\<rparr>)"

definition wifi_submit :: "ui_world \<Rightarrow> 'a ui_scheme \<Rightarrow> 'a ui_scheme" where
  "wifi_submit wd s =
     (let w = WifiD s;
          n = (if Hidden w then (WNet w)\<lparr>SSID := WName w\<rparr> else WNet w);
          say = (\<lambda>k f. set_wifi (\<lambda>w. w\<lparr>WMsg := T s k, WErr := True, WFocus := f\<rparr>) s)
      in case NewConfig (hmac_w wd) (md4_w wd) n (WUser w) (WPassword w) of
           Inl ErrName \<Rightarrow> say ''WifiErrName'' itemName
         | Inl ErrIdentity \<Rightarrow> say ''WifiErrUser'' itemUser
         | Inl ErrPassphrase \<Rightarrow> say (if WPassword w = [] then ''WifiErrNoPassword'' else ''WifiErrPassword'') itemPassword
         | Inl ErrUnsupported \<Rightarrow> say ''WifiErrWEP'' (WFocus w)
         | Inr c \<Rightarrow> wifi_join c s)"

section \<open>Keys and clicks\<close>

definition leave_prompt :: "'a ui_scheme \<Rightarrow> 'a ui_scheme" where
  "leave_prompt s = set_wifi (\<lambda>w. w\<lparr>Prompt := False, WMsg := [], WErr := False\<rparr>) s"

definition promptKey :: "ui_world \<Rightarrow> int \<Rightarrow> nat \<Rightarrow> 'a ui_scheme \<Rightarrow> 'a ui_scheme" where
  "promptKey wd code r s =
     (let w = WifiD s
      in if code = KeyEsc then leave_prompt s
         else if code = KeyTab \<or> code = KeyDown then set_wifi (wifi_step 1) s
         else if code = KeyUp then set_wifi (wifi_step (-1)) s
         else if code = KeyLeft then (if WFocus w = itemSecurity then set_wifi (cycleSecurity (-1)) s else s)
         else if code = KeyRight then (if WFocus w = itemSecurity then set_wifi (cycleSecurity 1) s else s)
         else if code = KeyEnter then
           (if WFocus w = itemCancel then leave_prompt s
            else if WFocus w = itemSecurity then set_wifi (wifi_step 1) s else wifi_submit wd s)
         else if code = KeyBackspace then set_wifi (edit_field drop_rune) s
         else if WFocus w = itemSecurity \<and> code = KeySpace then set_wifi (cycleSecurity 1) s
         else if r \<noteq> 0 then set_wifi (edit_field (\<lambda>t. t @ utf8 r)) s else s)"

definition handleWifiKey :: "ui_world \<Rightarrow> int \<Rightarrow> nat \<Rightarrow> 'a ui_scheme \<Rightarrow> 'a ui_scheme" where
  "handleWifiKey wd code r s =
     (if WBusy (WifiD s) then s
      else if Prompt (WifiD s) then promptKey wd code r s
      else if code = KeyEsc then closeWifi wd s
      else if code = KeyUp then set_wifi (wifi_move (-1)) s
      else if code = KeyDown then set_wifi (wifi_move 1) s
      else if code = KeyPageUp then set_wifi (wifi_move (- wifiRows)) s
      else if code = KeyPageDown then set_wifi (wifi_move wifiRows) s
      else if code = KeyEnter then wifi_choose s
      else if code = KeyF5 then scanWifi (now_w wd) s
      else if code = KeyDelete then wifi_forget s else s)"

datatype wifi_hit = OnRow nat | OnItem wifi_item | OnChip nat | OnJoin | OnPromptCancel

definition handleWifiClick :: "ui_world \<Rightarrow> wifi_hit option \<Rightarrow> 'a ui_scheme \<Rightarrow> 'a ui_scheme" where
  \<comment> \<open>the second argument: what of the layout the pointer is on. The layout's rectangles do not overlap,
    but for the chips, which lie in the row of \<open>itemSecurity\<close>\<close>
  "handleWifiClick wd hit s =
     (if WBusy (WifiD s) then s
      else if \<not> Prompt (WifiD s) then
        (case hit of Some (OnRow i) \<Rightarrow> wifi_choose (set_wifi (\<lambda>w. w\<lparr>WSel := int i\<rparr>) s) | _ \<Rightarrow> s)
      else case hit of
          Some (OnItem it) \<Rightarrow> if it \<noteq> itemSecurity then set_wifi (\<lambda>w. w\<lparr>WFocus := it\<rparr>) s else s
        | Some (OnChip i) \<Rightarrow>
            set_wifi (\<lambda>w. w\<lparr>WNet := (WNet w)\<lparr>Security := hiddenSecurity ! i\<rparr>, WFocus := itemSecurity\<rparr>) s
        | Some OnJoin \<Rightarrow> wifi_submit wd (set_wifi (\<lambda>w. w\<lparr>WFocus := itemJoin\<rparr>) s)
        | Some OnPromptCancel \<Rightarrow> leave_prompt s
        | _ \<Rightarrow> s)"

end
