(* ===== verification/NetDialog.thy ===== *)
theory NetDialog
  imports WifiDialog
begin

text \<open>
  \<open>internal/ui/netdialog.go\<close>: the network settings (F8).
\<close>

definition netFields :: nat where "netFields = 5"
definition netFocusMode :: int where "netFocusMode = 0"
definition netFocusPort :: int where "netFocusPort = 6"
definition netFocusWifi :: int where "netFocusWifi = 7"
definition netFocusSave :: int where "netFocusSave = 8"
definition netFocusCancel :: int where "netFocusCancel = 9"
definition netFocusCount :: int where "netFocusCount = 10"

lemmas net_consts = netFields_def netFocusMode_def netFocusPort_def netFocusWifi_def netFocusSave_def
  netFocusCancel_def netFocusCount_def

definition set_net :: "(net_state \<Rightarrow> net_state) \<Rightarrow> 'a ui_scheme \<Rightarrow> 'a ui_scheme" where
  "set_net f s = s\<lparr>NetD := f (NetD s)\<rparr>"

lemma set_net_simps [simp]:
  "NetD (set_net f s) = f (NetD s)" "asked (set_net f s) = asked s" "Screen (set_net f s) = Screen s"
  "Boot (set_net f s) = Boot s" "UpdateD (set_net f s) = UpdateD s" "PowerD (set_net f s) = PowerD s"
  "WifiD (set_net f s) = WifiD s" "InstallD (set_net f s) = InstallD s" "ui_lang (set_net f s) = ui_lang s"
  by (simp_all add: set_net_def)

definition net_field :: "net_state \<Rightarrow> int" where
  "net_field n = (if 1 \<le> NetFocus n \<and> NetFocus n \<le> int netFields then NetFocus n - 1 else -1)"

definition net_hidden :: "net_state \<Rightarrow> bool" where
  \<comment> \<open>where \<open>move\<close> does not stop\<close>
  "net_hidden n \<longleftrightarrow> (net_field n \<ge> 0 \<and> \<not> NetStatic n) \<or> (NetFocus n = netFocusWifi \<and> NetWireless n = [])"

fun net_move_from :: "nat \<Rightarrow> int \<Rightarrow> net_state \<Rightarrow> net_state" where
  \<comment> \<open>the loop of \<open>move\<close>; the fuel is one round of the focus order\<close>
  "net_move_from 0 d n = n"
| "net_move_from (Suc k) d n =
     (let n1 = n\<lparr>NetFocus := (NetFocus n + d + netFocusCount) mod netFocusCount\<rparr>
      in if net_hidden n1 then net_move_from k d n1 else n1)"

definition net_move :: "int \<Rightarrow> net_state \<Rightarrow> net_state" where
  "net_move d n = net_move_from 10 d n"

definition edit_text :: "(string \<Rightarrow> string) \<Rightarrow> net_state \<Rightarrow> net_state" where
  \<comment> \<open>\<open>*n.text() = g(*n.text())\<close>\<close>
  "edit_text g n =
     (if net_field n \<ge> 0 then n\<lparr>NetFields := (NetFields n)[nat (net_field n) := g (NetFields n ! nat (net_field n))]\<rparr>
      else if NetFocus n = netFocusPort then n\<lparr>NetPort := g (NetPort n)\<rparr> else n)"

definition openNetwork :: "ui_world \<Rightarrow> 'a ui_scheme \<Rightarrow> 'a ui_scheme" where
  "openNetwork w s =
     (let c = net_file w;
          port = (if UiState.ScanPort s = 0 then DefaultRDPPort else UiState.ScanPort s);
          iface = (if NetConf.Interface c = [] then pickInterface (net_w w) else NetConf.Interface c);
          c1 = (if NetConf.Static c then c else Lease (net_w w) iface);
          (s1, wl) = initWifi w s;
          n = \<lparr>NetStatic = NetConf.Static c, NetFields = form_fields c1, NetFocus = 0, NetPort = itoa port, NetIface = iface,
               NetStatus = CurrentNet (net_w w) iface, NetMsg = [], NetErr = False, NetBusy = False, NetWireless = wl\<rparr>
      in refreshWifi (Transition ScreenNetwork (s1\<lparr>NetD := n\<rparr>)))"

definition netFormError :: "net_error \<Rightarrow> 'a ui_scheme \<Rightarrow> string" where
  "netFormError e s =
     T s (case e of ErrMask \<Rightarrow> ''NetErrMask'' | ErrGateway \<Rightarrow> ''NetErrGateway'' | ErrDNS \<Rightarrow> ''NetErrDNS''
            | ErrAddress \<Rightarrow> ''NetErrAddress'')"

definition saveNetwork :: "'a ui_scheme \<Rightarrow> 'a ui_scheme" where
  "saveNetwork s =
     (let n = NetD s; f = NetFields n
      in case FromForm (NetStatic n) (NetIface n) (f ! 0) (f ! 1) (f ! 2) [f ! 3, f ! 4] of
           Inl e \<Rightarrow>
             set_net (\<lambda>n. n\<lparr>NetMsg := netFormError e s, NetErr := True,
               NetFocus := (case e of ErrMask \<Rightarrow> 2 | ErrGateway \<Rightarrow> 3 | ErrDNS \<Rightarrow> 4 | ErrAddress \<Rightarrow> 1)\<rparr>) s
         | Inr c \<Rightarrow>
           (case ParsePort (NetPort n) of
              None \<Rightarrow> set_net (\<lambda>n. n\<lparr>NetMsg := T s ''NetErrPort'', NetErr := True, NetFocus := netFocusPort\<rparr>) s
            | Some p \<Rightarrow>
              ask (SaveNet (c\<lparr>NetConf.ScanPort := p\<rparr>) (Installed (Boot s)))
                (set_net (\<lambda>n. n\<lparr>NetBusy := True, NetMsg := T s ''NetApplying'', NetErr := False\<rparr>) s)))"

definition net_saved ::
  "net_config \<Rightarrow> bool \<Rightarrow> string option \<Rightarrow> string option \<Rightarrow> net_status \<Rightarrow> 'a ui_scheme \<Rightarrow> 'a ui_scheme" where
  \<comment> \<open>the end of \<open>saveNetwork\<close>'s goroutine: what \<open>Save\<close> said, and \<open>Apply\<close> if it was run\<close>
  "net_saved c persisted save_err apply_err st s =
     (let err = (case save_err of Some e \<Rightarrow> Some e | None \<Rightarrow> apply_err);
          s1 = set_net (\<lambda>n. (case err of
                 Some e \<Rightarrow> n\<lparr>NetMsg := Tf s ''NetErrApply'' [ArgS e], NetErr := True\<rparr>
               | None \<Rightarrow> n\<lparr>NetMsg := T s (if persisted then ''NetSaved'' else ''NetSessionOnly''), NetErr := False\<rparr>)
               \<lparr>NetBusy := False, NetStatus := st\<rparr>) s;
          s2 = (if save_err = None \<and> NetConf.ScanPort c \<noteq> UiState.ScanPort s1
                then (clear_list s1)\<lparr>UiState.ScanPort := NetConf.ScanPort c\<rparr> else s1)
      in s2\<lparr>Subnet := [], ScanDone := False, ScanProgress := 0, Dirty := True\<rparr>)"

definition toggle_static :: "net_state \<Rightarrow> net_state" where
  "toggle_static n = (if NetFocus n = netFocusMode then n\<lparr>NetStatic := \<not> NetStatic n\<rparr> else n)"

definition type_net :: "nat \<Rightarrow> net_state \<Rightarrow> net_state" where
  "type_net r n =
     (if r = 0 then n
      else if NetFocus n = netFocusPort \<and> (r < 48 \<or> r > 57 \<or> length (NetPort n) \<ge> 5) then n
      else edit_text (\<lambda>t. t @ utf8 r) n)"

definition handleNetKey :: "ui_world \<Rightarrow> int \<Rightarrow> nat \<Rightarrow> 'a ui_scheme \<Rightarrow> 'a ui_scheme" where
  "handleNetKey w code r s =
     (if NetBusy (NetD s) then s
      else if code = KeyEsc then Transition ScreenDiscovery s
      else if code = KeyTab \<or> code = KeyDown then set_net (net_move 1) s
      else if code = KeyUp then set_net (net_move (-1)) s
      else if code = KeyLeft \<or> code = KeyRight \<or> code = KeySpace then set_net toggle_static s
      else if code = KeyEnter then
        (if NetFocus (NetD s) = netFocusCancel then Transition ScreenDiscovery s
         else if NetFocus (NetD s) = netFocusMode then set_net toggle_static s
         else if NetFocus (NetD s) = netFocusWifi then openWifi (now_w w) s
         else saveNetwork s)
      else if code = KeyBackspace then set_net (edit_text drop_rune) s
      else set_net (type_net r) s)"

datatype net_hit = OnDHCP | OnStatic | OnPort | OnWifi | OnSave | OnNetCancel | OnField nat

definition handleNetClick :: "ui_world \<Rightarrow> net_hit option \<Rightarrow> 'a ui_scheme \<Rightarrow> 'a ui_scheme" where
  \<comment> \<open>\<open>handleMouseClick\<close>, on this dialog\<close>
  "handleNetClick w hit s =
     (if NetBusy (NetD s) then s
      else case hit of None \<Rightarrow> s
        | Some OnDHCP \<Rightarrow> set_net (\<lambda>n. n\<lparr>NetStatic := False, NetFocus := netFocusMode\<rparr>) s
        | Some OnStatic \<Rightarrow> set_net (\<lambda>n. n\<lparr>NetStatic := True, NetFocus := netFocusMode\<rparr>) s
        | Some OnPort \<Rightarrow> set_net (\<lambda>n. n\<lparr>NetFocus := netFocusPort\<rparr>) s
        | Some OnWifi \<Rightarrow> openWifi (now_w w) (set_net (\<lambda>n. n\<lparr>NetFocus := netFocusWifi\<rparr>) s)
        | Some OnSave \<Rightarrow> saveNetwork (set_net (\<lambda>n. n\<lparr>NetFocus := netFocusSave\<rparr>) s)
        | Some OnNetCancel \<Rightarrow> Transition ScreenDiscovery s
        | Some (OnField i) \<Rightarrow> if NetStatic (NetD s) then set_net (\<lambda>n. n\<lparr>NetFocus := int i + 1\<rparr>) s else s)"

section \<open>The focus is on something shown\<close>

definition net_ok :: "net_state \<Rightarrow> bool" where
  "net_ok n \<longleftrightarrow> length (NetFields n) = netFields \<and> 0 \<le> NetFocus n \<and> NetFocus n < netFocusCount \<and> \<not> net_hidden n"

lemma form_fields_length [simp]: "length (form_fields c) = 5"
  by (simp add: form_fields_def split: prod.splits)

lemma net_move_simps [simp]:
  "NetFields (net_move_from k d n) = NetFields n" "NetStatic (net_move_from k d n) = NetStatic n"
  "NetWireless (net_move_from k d n) = NetWireless n" "NetBusy (net_move_from k d n) = NetBusy n"
  "NetPort (net_move_from k d n) = NetPort n"
  by (induction k d n rule: net_move_from.induct) (simp_all add: Let_def)

lemma FromForm_dhcp: "FromForm False i a b c d = Inr (no_net\<lparr>Interface := i\<rparr>)"
  by (simp add: FromForm_def no_net_def)

lemma net_move_all:
  "\<not> net_hidden (net_move_from k d n) \<or>
   (\<forall>j. 1 \<le> j \<and> j \<le> int k \<longrightarrow> net_hidden (n\<lparr>NetFocus := (NetFocus n + d * j) mod 10\<rparr>))"
proof (induction k arbitrary: n)
  case (Suc k)
  define n1 where "n1 = n\<lparr>NetFocus := (NetFocus n + d + netFocusCount) mod netFocusCount\<rparr>"
  have f1: "NetFocus n1 = (NetFocus n + d) mod 10"
    by (simp add: n1_def net_consts)
  show ?case
  proof (cases "net_hidden n1")
    case True
    then have r: "net_move_from (Suc k) d n = net_move_from k d n1"
      by (simp only: net_move_from.simps Let_def n1_def [symmetric] if_True)
    have "net_hidden (n\<lparr>NetFocus := (NetFocus n + d * j) mod 10\<rparr>)"
      if all: "\<forall>j. 1 \<le> j \<and> j \<le> int k \<longrightarrow> net_hidden (n1\<lparr>NetFocus := (NetFocus n1 + d * j) mod 10\<rparr>)"
        and j: "1 \<le> j" "j \<le> int (Suc k)" for j
    proof (cases "j = 1")
      case True
      then show ?thesis using \<open>net_hidden n1\<close> by (simp add: n1_def net_consts)
    next
      case False
      have "(NetFocus n1 + d * (j - 1)) mod 10 = (NetFocus n + d + d * (j - 1)) mod 10"
        unfolding f1 by (simp add: mod_add_left_eq)
      also have "\<dots> = (NetFocus n + d * j) mod 10" by (simp add: algebra_simps)
      finally show ?thesis using all [rule_format, of "j - 1"] j False by (simp add: n1_def)
    qed
    with r Suc.IH [of n1] show ?thesis by auto
  next
    case False
    then show ?thesis
      by (simp only: net_move_from.simps Let_def n1_def [symmetric] if_False) simp
  qed
next
  case 0
  have "\<not> (1 \<le> j \<and> j \<le> int 0)" for j by simp
  then show ?case by blast
qed

lemma net_move_range: "0 \<le> NetFocus n \<Longrightarrow> NetFocus n < 10 \<Longrightarrow> 0 \<le> NetFocus (net_move_from k d n) \<and> NetFocus (net_move_from k d n) < 10"
  by (induction k d n rule: net_move_from.induct) (simp add: Let_def net_consts)+

lemma net_move_ok:
  assumes "net_ok n" "d = 1 \<or> d = -1"
  shows "net_ok (net_move d n)"
proof -
  have f: "0 \<le> NetFocus n" "NetFocus n < 10"
    using assms(1) by (simp_all add: net_ok_def net_consts)
  obtain j where "1 \<le> j" "j \<le> 10" "(NetFocus n + d * j) mod 10 = 0"
  proof (cases "d = 1 \<or> NetFocus n = 0")
    case True
    then show ?thesis using that [of "10 - NetFocus n"] assms(2) f by auto
  next
    case False
    then show ?thesis using that [of "NetFocus n"] assms(2) f by simp
  qed
  moreover have "\<not> net_hidden (n\<lparr>NetFocus := 0\<rparr>)"
    by (simp add: net_hidden_def net_field_def net_consts)
  ultimately have "\<not> net_hidden (net_move_from 10 d n)"
    using net_move_all [of 10 d n] by (metis of_nat_numeral)
  then show ?thesis
    using assms(1) net_move_range [OF f, of 10 d] by (simp add: net_ok_def net_move_def net_consts)
qed

end
