(* ===== verification/Engine.thy ===== *)
theory Engine
  imports AudioDevices
begin

text \<open>
  \<open>internal/rdp/engine.go\<close>: the session engine, \<open>sc-rdp\<close>, as the kiosk sees it: what it is told, and
  what its status lines make of a session; with the parts of \<open>client.go\<close> both clients share. The
  engine's own command loop (\<open>engine/sc-rdp.c\<close>) is modelled as far as it reads what it is told.
\<close>

section \<open>Keys\<close>

definition scanCodes :: "(int \<times> int) list" where
  "scanCodes =
     [(86, 0x56), (87, 0x57), (88, 0x58), (96, 0x1C), (97, 0x1D), (98, 0x35), (99, 0x37), (100, 0x38), (102, 0x47), (103, 0x48),
      (104, 0x49), (105, 0x4B), (106, 0x4D), (107, 0x4F), (108, 0x50), (109, 0x51), (110, 0x52), (111, 0x53), (113, 0x20),
      (114, 0x2E), (115, 0x30), (125, 0x5B), (126, 0x5C), (127, 0x5D)]"

definition linuxToRDPScanCode :: "int \<Rightarrow> int" where
  "linuxToRDPScanCode lc =
     (if 1 \<le> lc \<and> lc \<le> 83 then lc else case map_of scanCodes lc of None \<Rightarrow> 0 | Some c \<Rightarrow> c)"

definition isExtendedKey :: "int \<Rightarrow> bool" where
  "isExtendedKey lc \<longleftrightarrow>
     List.member [96, 97, 98, 99, 100, 102, 103, 104, 105, 106, 107, 108, 109, 110, 111, 113, 114, 115, 125, 126, 127] lc"

definition RdpLayoutUS :: int where "RdpLayoutUS = 0x00000409"
definition RdpLayoutTRQ :: int where "RdpLayoutTRQ = 0x0000041F"
definition RdpLayoutTRF :: int where "RdpLayoutTRF = 0x0001041F"

definition LayoutID :: "string \<Rightarrow> int" where
  "LayoutID name = (if name = ''tr-q'' then RdpLayoutTRQ else if name = ''tr-f'' then RdpLayoutTRF else RdpLayoutUS)"

section \<open>What the engine is told\<close>

record rdp_credentials =
  RdpUser :: string
  RdpPassword :: string
  RdpDomain :: string

definition quoted :: "string \<Rightarrow> string" where "quoted s = CHR 0x22 # s @ [CHR 0x22]"

definition hex8 :: "int \<Rightarrow> string" where
  \<comment> \<open>\<open>%08X\<close>, of a 32-bit number\<close>
  "hex8 n = map (\<lambda>i. ''0123456789ABCDEF'' ! nat (n div 16 ^ i mod 16)) (rev [0 ..< 8])"

definition alsa_conf :: "sound_device option \<Rightarrow> sound_device option \<Rightarrow> string" where
  \<comment> \<open>what \<open>writeALSAConf\<close> writes, for the output and the input chosen; it is only called with one of them at least\<close>
  "alsa_conf out inp =
     (let hw = (\<lambda>d. quoted (''hw:'' @ itoa (Card d) @ '','' @ itoa (PcmDev d)));
          slave = (\<lambda>dir d. tabchar # dir @ ''.pcm { type plug slave.pcm '' @ hw d @ '' }'' @ [newline]);
          card = (case out of Some d \<Rightarrow> Card d | None \<Rightarrow> case inp of Some d \<Rightarrow> Card d | None \<Rightarrow> 0)
      in ''pcm.!default {'' @ [newline, tabchar] @ ''type asym'' @ [newline] @
         (case out of Some d \<Rightarrow> slave ''playback'' d | None \<Rightarrow> []) @
         (case inp of Some d \<Rightarrow> slave ''capture'' d | None \<Rightarrow> []) @ ''}'' @ [newline] @
         ''ctl.!default { type hw card '' @ itoa card @ '' }'' @ [newline])"

definition writeALSAConf :: "bool \<Rightarrow> sound_device option \<Rightarrow> sound_device option \<Rightarrow> string option \<Rightarrow> string option \<times> bool" where
  \<comment> \<open>the first argument: the file can be written; with the file as it is and as it is left\<close>
  "writeALSAConf ok out inp old = (if ok then (Some (alsa_conf out inp), True) else (old, False))"

definition sound_args :: "bool \<Rightarrow> (sound_device option \<times> sound_device option) option \<Rightarrow> string option \<Rightarrow>
    string list \<times> int list \<times> string option" where
  \<comment> \<open>the arguments, the cards whose mixers are prepared, and \<open>/etc/asound.conf\<close>; \<open>None\<close>: there is no \<open>Audio\<close>\<close>
  "sound_args ok audio conf =
     (case audio of None \<Rightarrow> ([], [], conf)
      | Some (out, inp) \<Rightarrow>
        if out = None \<and> inp = None then ([], [], conf)
        else let (conf', done) = writeALSAConf ok out inp conf
          in if \<not> done then ([], [], conf')
             else ((case out of Some _ \<Rightarrow> [''/sound:sys:alsa''] | None \<Rightarrow> []) @
                   (case inp of Some _ \<Rightarrow> [''/microphone:sys:alsa''] | None \<Rightarrow> []),
                   (case out of Some d \<Rightarrow> [Card d] | None \<Rightarrow> []) @ (case inp of Some d \<Rightarrow> [Card d] | None \<Rightarrow> []), conf'))"

definition engineArgs :: "string \<Rightarrow> rdp_credentials \<Rightarrow> int \<Rightarrow> string list \<Rightarrow> string list \<Rightarrow> bool \<Rightarrow> string list" where
  \<comment> \<open>for the keyboard layout, the arguments for sound and for the devices, and whether to debug\<close>
  "engineArgs addr creds layout sound devices debug =
     [''/v:'' @ addr] @ (if RdpUser creds \<noteq> [] then [''/u:'' @ RdpUser creds] else []) @
     (if RdpDomain creds \<noteq> [] then [''/d:'' @ RdpDomain creds] else []) @
     [''/kbd:layout:0x'' @ hex8 layout] @ sound @ devices @ [if debug then ''/log-level:DEBUG'' else ''/log-level:WARN'']"

definition engine_preamble :: "string list \<Rightarrow> string \<Rightarrow> string" where
  \<comment> \<open>what \<open>StartEngine\<close> writes first\<close>
  "engine_preamble args password =
     concat (map (\<lambda>a. ''arg '' @ a @ [newline]) args) @ ''password '' @ password @ [newline] @ ''start'' @ [newline]"

record engine_told =
  told_args :: "string list"
  told_password :: "string option"

definition pipe_lines :: "string \<Rightarrow> string list" where
  \<comment> \<open>what \<open>next_line\<close> returns, for lines that fit its buffer: up to the newline, and as C strings\<close>
  "pipe_lines s = map (takeWhile (\<lambda>c. c \<noteq> CHR 0x00)) (butlast (split_on newline s))"

fun engine_reads :: "engine_told \<Rightarrow> string list \<Rightarrow> (engine_told \<times> string list) option" where
  \<comment> \<open>\<open>sc-rdp\<close>'s loop over its lines, with those left after \<open>start\<close>; the program is \<open>argv[0]\<close>\<close>
  "engine_reads t [] = None"
| "engine_reads t (l # ls) =
     (if l = ''start'' then Some (t, ls)
      else case cut_prefix l ''arg '' of
          Some a \<Rightarrow> if length (told_args t) + 1 < 200 then engine_reads (t\<lparr>told_args := told_args t @ [a]\<rparr>) ls else
            (case cut_prefix l ''password '' of Some p \<Rightarrow> engine_reads (t\<lparr>told_password := Some p\<rparr>) ls | None \<Rightarrow> engine_reads t ls)
        | None \<Rightarrow> (case cut_prefix l ''password '' of Some p \<Rightarrow> engine_reads (t\<lparr>told_password := Some p\<rparr>) ls | None \<Rightarrow> engine_reads t ls))"

definition b2i :: "bool \<Rightarrow> int" where "b2i b = (if b then 1 else 0)"

definition words :: "string list \<Rightarrow> string" where "words ws = join_with '' '' ws @ [newline]"

definition SendKey :: "int \<Rightarrow> bool \<Rightarrow> string" where
  \<comment> \<open>what is written to the engine\<close>
  "SendKey code down =
     (let sc = linuxToRDPScanCode code
      in if sc = 0 then [] else words [''k'', itoa sc, itoa (b2i (isExtendedKey code)), itoa (b2i down)])"

definition SendMouse :: "int \<Rightarrow> int \<Rightarrow> string" where "SendMouse x y = words [''m'', itoa x, itoa y]"
definition SendMouseDown :: "int \<Rightarrow> int \<Rightarrow> int \<Rightarrow> string" where
  "SendMouseDown button x y = words [''b'', itoa button, ''1'', itoa x, itoa y]"
definition SendMouseUp :: "int \<Rightarrow> int \<Rightarrow> int \<Rightarrow> string" where
  "SendMouseUp button x y = words [''b'', itoa button, ''0'', itoa x, itoa y]"
definition SendWheel :: "int \<Rightarrow> int \<Rightarrow> int \<Rightarrow> string" where
  "SendWheel notches x y = words [''w'', itoa notches, itoa x, itoa y]"

section \<open>What the engine says\<close>

definition connectTimeout :: int where "connectTimeout = 30000000000"
definition RejectWithin :: int where "RejectWithin = 30000000000"
definition writeWait :: int where "writeWait = 200000000"

record engine_error =
  Class :: string
  ErrName :: string
  ErrText :: string

definition engine_error_text :: "engine_error \<Rightarrow> string" where
  "engine_error_text e = Class e @ '': '' @ ErrText e @ '' ('' @ ErrName e @ '')''"

datatype engine_report = Connected | CannotRun | CannotConnect engine_error

record engine =
  reported :: "engine_report option"
  connected_at :: "int option"
  logged_on :: bool                        \<comment> \<open>\<open>session\<close>\<close>
  eng_failed :: bool
  eng_rejected :: bool
  EWidth :: int
  EHeight :: int
  ERefresh :: int
  EDisplay :: string
  pointer_moves :: "(int \<times> int) list"        \<comment> \<open>what \<open>onPointer\<close> was called with\<close>
  eng_closed :: bool

definition new_engine :: engine where
  "new_engine = \<lparr>reported = None, connected_at = None, logged_on = False, eng_failed = False, eng_rejected = False, EWidth = 0,
     EHeight = 0, ERefresh = 0, EDisplay = [], pointer_moves = [], eng_closed = False\<rparr>"

definition eng_report :: "engine_report \<Rightarrow> engine \<Rightarrow> engine" where
  "eng_report r e = (if reported e = None then e\<lparr>reported := Some r\<rparr> else e)"

definition engine_says :: "string list \<Rightarrow> engine_error" where
  \<comment> \<open>of an \<open>ERROR\<close> line\<close>
  "engine_says f =
     \<lparr>Class = (if length f \<ge> 2 then f ! 1 else ''other''), ErrName = (if length f \<ge> 3 then f ! 2 else []),
      ErrText = (if length f \<ge> 4 then join_with '' '' (drop 3 f) else [])\<rparr>"

definition watch_words :: "int \<Rightarrow> string list \<Rightarrow> engine \<Rightarrow> engine" where
  \<comment> \<open>one line, in words, read at a time\<close>
  "watch_words now f e =
     (case f of [] \<Rightarrow> e
      | w # _ \<Rightarrow>
        if w = ''MODE'' then
          (let e1 = (if length f \<ge> 4 then
               e\<lparr>EWidth := atoi_or (f ! 1), EHeight := atoi_or (f ! 2), ERefresh := atoi_or (f ! 3)\<rparr> else e)
           in if length f \<ge> 5 then e1\<lparr>EDisplay := f ! 4\<rparr> else e1)
        else if w = ''CONNECTED'' then eng_report Connected (e\<lparr>connected_at := Some now\<rparr>)
        else if w = ''SESSION'' then e\<lparr>logged_on := True\<rparr>
        else if w = ''POINTER'' then
          (if length f \<ge> 3 then e\<lparr>pointer_moves := pointer_moves e @ [(atoi_or (f ! 1), atoi_or (f ! 2))]\<rparr> else e)
        else if w = ''ERROR'' then
          (if length f \<ge> 2 \<and> f ! 1 = ''display'' then eng_report CannotRun e else eng_report (CannotConnect (engine_says f)) e)
        else if w = ''END'' then
          e\<lparr>eng_failed := (length f \<ge> 2 \<and> f ! 1 = ''lost''),
            eng_rejected := (length f \<ge> 2 \<and> f ! 1 = ''logoff'' \<and> \<not> logged_on e \<and>
              (case connected_at e of None \<Rightarrow> False | Some t \<Rightarrow> now - t < RejectWithin))\<rparr>
        else e)"

definition watch_line :: "int \<times> string \<Rightarrow> engine \<Rightarrow> engine" where
  "watch_line = (\<lambda>(now, line). watch_words now (str_fields line))"

definition engine_exits :: "engine \<Rightarrow> engine" where
  \<comment> \<open>the end of \<open>watch\<close>\<close>
  "engine_exits e = (eng_report CannotRun e)\<lparr>eng_closed := True\<rparr>"

definition engine_watch :: "(int \<times> string) list \<Rightarrow> engine" where
  \<comment> \<open>the whole of it: the lines, each at the time it was read, until the engine exits\<close>
  "engine_watch ls = engine_exits (fold watch_line ls new_engine)"

datatype engine_start = EngineRuns engine | NoEngineHere | EngineRefused engine_error string | EngineSilent string
  \<comment> \<open>an error that holds an \<open>EngineError\<close>, with its whole text; and any other error's text\<close>

definition timed_out :: "string \<Rightarrow> string" where
  "timed_out addr = ''RDP connect '' @ addr @ '': timeout after 45s''"

definition StartEngine :: "string \<Rightarrow> bool \<Rightarrow> (int \<times> string) list \<Rightarrow> bool \<Rightarrow> engine_start" where
  \<comment> \<open>whether the process could be started, what it said in the time it is given, and whether it has exited by then\<close>
  "StartEngine addr starts ls exited =
     (if \<not> starts then NoEngineHere
      else let e0 = fold watch_line ls new_engine; e = (if exited then engine_exits e0 else e0)
        in case reported e of
             None \<Rightarrow> EngineSilent (timed_out addr)
           | Some Connected \<Rightarrow> EngineRuns e
           | Some CannotRun \<Rightarrow> NoEngineHere
           | Some (CannotConnect x) \<Rightarrow> EngineRefused x (''RDP connect '' @ addr @ '': '' @ engine_error_text x))"

definition engine_write :: "engine \<Rightarrow> string \<Rightarrow> string \<Rightarrow> string" where
  \<comment> \<open>what has been written to the engine; the write is dropped once it has exited\<close>
  "engine_write e line written = (if eng_closed e then written else written @ line)"

definition decoder_of :: "string option \<Rightarrow> string \<times> bool" where
  \<comment> \<open>\<open>Decoder\<close>, on the file the engine leaves\<close>
  "decoder_of file =
     (case file of None \<Rightarrow> ([], False)
      | Some b \<Rightarrow>
        (case str_fields b of
           w # _ # d # _ \<Rightarrow>
             (if w \<noteq> ''gpu'' then ([], True)
              else (if d = ''i915'' \<or> d = ''xe'' then ''Intel'' else if d = ''amdgpu'' \<or> d = ''radeon'' then ''AMD'' else d, True))
         | _ \<Rightarrow> ([], True)))"

section \<open>No two keys are the same to the server\<close>

definition known_keys :: "int list" where
  "known_keys = [1..83] @ map fst scanCodes"

definition wire_key :: "int \<Rightarrow> int \<times> bool" where
  "wire_key k = (linuxToRDPScanCode k, isExtendedKey k)"

lemma known_distinct: "distinct (map wire_key known_keys)"
  by code_simp

lemma known_iff: "linuxToRDPScanCode k \<noteq> 0 \<longleftrightarrow> k \<in> set known_keys"
  by (auto simp: linuxToRDPScanCode_def known_keys_def scanCodes_def split: option.splits if_splits)

lemma code_range: "linuxToRDPScanCode k \<noteq> 0 \<Longrightarrow> 0 < linuxToRDPScanCode k \<and> linuxToRDPScanCode k < 128"
proof -
  have "list_all (\<lambda>(_, c). 0 < c \<and> c < 128) scanCodes" by (simp add: scanCodes_def)
  then have "0 < c \<and> c < 128" if "map_of scanCodes k = Some c" for c
    using map_of_SomeD [OF that] by (auto simp: list_all_iff)
  then show "linuxToRDPScanCode k \<noteq> 0 \<Longrightarrow> 0 < linuxToRDPScanCode k \<and> linuxToRDPScanCode k < 128"
    by (auto simp: linuxToRDPScanCode_def split: option.splits if_splits)
qed

lemma key_range: "k \<in> set known_keys \<Longrightarrow> 0 < linuxToRDPScanCode k \<and> linuxToRDPScanCode k < 128"
  using code_range by (simp add: known_iff [symmetric])

lemma SendKey_known:
  "SendKey k down = (if k \<in> set known_keys then
     words [''k'', itoa (linuxToRDPScanCode k), itoa (b2i (isExtendedKey k)), itoa (b2i down)] else [])"
proof (cases "k \<in> set known_keys")
  case True
  then have "linuxToRDPScanCode k \<noteq> 0" by (simp only: known_iff)
  with True show ?thesis by (simp only: SendKey_def Let_def if_True if_False)
next
  case False
  then have "linuxToRDPScanCode k = 0" using known_iff by blast
  with False show ?thesis by (simp add: SendKey_def)
qed

lemma itoa_words: "0 \<le> i \<Longrightarrow> CHR '' '' \<notin> set (itoa i)"
  using itoa_no_space [of i "CHR '' ''"] by (auto simp: is_digit_def)

lemma itoa_same: "0 \<le> i \<Longrightarrow> 0 \<le> j \<Longrightarrow> i < 128 \<Longrightarrow> j < 128 \<Longrightarrow> itoa i = itoa j \<longleftrightarrow> i = j"
proof
  assume b: "0 \<le> i" "0 \<le> j" "i < 128" "j < 128" and e: "itoa i = itoa j"
  have "i \<le> max_int" "j \<le> max_int" using b by (simp_all add: max_int_def)
  then have "atoi_or (itoa i) = i" "atoi_or (itoa j) = j" using b by (simp_all only: atoi_or_itoa)
  then show "i = j" using e by metis
qed simp

lemma b2i_range: "0 \<le> b2i b \<and> b2i b < 128" "b2i x = b2i y \<longleftrightarrow> x = y"
  by (simp_all add: b2i_def)

lemma same_words:
  assumes "\<forall>w \<in> set ws. CHR '' '' \<notin> set w" "\<forall>w \<in> set vs. CHR '' '' \<notin> set w" "ws \<noteq> []" "vs \<noteq> []" "words ws = words vs"
  shows "ws = vs"
proof -
  have "join_with '' '' ws = join_with '' '' vs" using assms(5) by (simp add: words_def)
  then show ?thesis using split_join [OF assms(3,1)] split_join [OF assms(4,2)] by metis
qed

lemma SendKey_same:
  assumes k: "k \<in> set known_keys" "k' \<in> set known_keys" and e: "SendKey k down = SendKey k' down'"
  shows "k = k' \<and> down = down'"
proof -
  have "[''k'', itoa (linuxToRDPScanCode k), itoa (b2i (isExtendedKey k)), itoa (b2i down)] =
      [''k'', itoa (linuxToRDPScanCode k'), itoa (b2i (isExtendedKey k')), itoa (b2i down')]"
    using key_range [OF k(1)] key_range [OF k(2)] b2i_range(1) e k
    by (intro same_words) (simp_all add: itoa_words SendKey_known)
  then have w: "itoa (linuxToRDPScanCode k) = itoa (linuxToRDPScanCode k')" "itoa (b2i (isExtendedKey k)) = itoa (b2i (isExtendedKey k'))"
    "itoa (b2i down) = itoa (b2i down')"
    by simp_all
  have "wire_key k = wire_key k'" "down = down'"
    using w key_range [OF k(1)] key_range [OF k(2)] b2i_range(1)
    by (simp_all add: itoa_same b2i_range wire_key_def)
  moreover have "inj_on wire_key (set known_keys)" using known_distinct by (simp add: distinct_map)
  ultimately show ?thesis using k by (simp add: inj_on_eq_iff)
qed

text \<open>C40. Every key that is sent at all reaches the server as that key: no two keys have the same scan code and
  prefix, pressing and releasing differ, and only keys without a scan code are not sent.\<close>

theorem keys_told_apart:
  "(SendKey k down \<noteq> [] \<longleftrightarrow> k \<in> set known_keys) \<and>
   (SendKey k down = SendKey k' down' \<and> SendKey k down \<noteq> [] \<longrightarrow> k = k' \<and> down = down') \<and>
   (k \<in> set known_keys \<longrightarrow> 0 < linuxToRDPScanCode k \<and> linuxToRDPScanCode k < 128)"
proof -
  have n: "SendKey k down \<noteq> [] \<longleftrightarrow> k \<in> set known_keys" for k down
    by (simp add: SendKey_known words_def)
  have "k = k' \<and> down = down'" if "SendKey k down = SendKey k' down'" "SendKey k down \<noteq> []"
    using SendKey_same [OF _ _ that(1)] n that by metis
  then show ?thesis using n key_range by blast
qed

lemma keys_told_apart_witness:
  "(SendKey 57 True \<noteq> []) \<and> (SendKey 57 True \<noteq> SendKey 28 True)"
proof -
  have "57 \<in> set known_keys" by (simp add: known_keys_def)
  then show ?thesis using keys_told_apart [of 57 True 28 True] by auto
qed

section \<open>How a session ended\<close>

definition says_word :: "string \<Rightarrow> int \<times> string \<Rightarrow> bool" where
  "says_word w x \<longleftrightarrow> str_fields (snd x) \<noteq> [] \<and> hd (str_fields (snd x)) = w"

definition connected_last :: "(int \<times> string) list \<Rightarrow> int option" where
  "connected_last ls = (case rev (filter (says_word ''CONNECTED'') ls) of [] \<Rightarrow> None | x # _ \<Rightarrow> Some (fst x))"

lemma watch_word_state:
  "logged_on (watch_line x e) = (logged_on e \<or> says_word ''SESSION'' x)"
  "connected_at (watch_line x e) = (if says_word ''CONNECTED'' x then Some (fst x) else connected_at e)"
  "\<not> says_word ''END'' x \<Longrightarrow> eng_failed (watch_line x e) = eng_failed e \<and> eng_rejected (watch_line x e) = eng_rejected e"
  by (auto simp: watch_line_def watch_words_def says_word_def eng_report_def Let_def split: prod.splits list.splits)

lemma watch_lines_state:
  "logged_on (fold watch_line ls e) = (logged_on e \<or> (\<exists>x \<in> set ls. says_word ''SESSION'' x))"
  "connected_at (fold watch_line ls e) = (case connected_last ls of None \<Rightarrow> connected_at e | Some t \<Rightarrow> Some t)"
  "\<forall>x \<in> set ls. \<not> says_word ''END'' x \<Longrightarrow>
     eng_failed (fold watch_line ls e) = eng_failed e \<and> eng_rejected (fold watch_line ls e) = eng_rejected e"
proof -
  show "logged_on (fold watch_line ls e) = (logged_on e \<or> (\<exists>x \<in> set ls. says_word ''SESSION'' x))"
    by (induction ls arbitrary: e) (auto simp: watch_word_state(1))
  show "connected_at (fold watch_line ls e) = (case connected_last ls of None \<Rightarrow> connected_at e | Some t \<Rightarrow> Some t)"
    by (induction ls rule: rev_induct) (simp_all add: connected_last_def watch_word_state(2))
  show "\<forall>x \<in> set ls. \<not> says_word ''END'' x \<Longrightarrow>
      eng_failed (fold watch_line ls e) = eng_failed e \<and> eng_rejected (fold watch_line ls e) = eng_rejected e"
    by (induction ls arbitrary: e) (simp_all add: watch_word_state(3))
qed

text \<open>C33. How a session ended is what the engine's last word on it says: it was lost, and is worth connecting again, if
  the connection died; and the account was turned down just if the server ended it, less than half a minute
  after it had come up, without ever having logged the user on.\<close>

theorem session_end_told:
  assumes "str_fields l = ''END'' # why # rest" "\<forall>x \<in> set post. \<not> says_word ''END'' x"
  shows "eng_failed (engine_watch (pre @ (t, l) # post)) = (why = ''lost'') \<and>
    eng_rejected (engine_watch (pre @ (t, l) # post)) =
      (why = ''logoff'' \<and> (\<forall>x \<in> set pre. \<not> says_word ''SESSION'' x) \<and>
       (\<exists>t0. connected_last pre = Some t0 \<and> t - t0 < RejectWithin))"
proof -
  have e: "watch_line (t, l) e = e\<lparr>eng_failed := (why = ''lost''), eng_rejected := (why = ''logoff'' \<and> \<not> logged_on e \<and>
      (case connected_at e of None \<Rightarrow> False | Some t0 \<Rightarrow> t - t0 < RejectWithin))\<rparr>" for e
    using assms(1) by (simp add: watch_line_def watch_words_def)
  have x: "eng_failed (engine_exits e) = eng_failed e" "eng_rejected (engine_exits e) = eng_rejected e" for e
    by (simp_all add: engine_exits_def eng_report_def)
  show ?thesis
    using watch_lines_state(3) [OF assms(2)]
    by (simp add: engine_watch_def x e watch_lines_state(1,2) new_engine_def split: option.splits)
qed

lemma session_end_told_witness:
  "eng_rejected (engine_watch ([(5, ''MODE 1920 1080 60 HDMI-1''), (7, ''CONNECTED 1920 1080'')] @ (2000000007, ''END logoff'') # []))"
proof -
  have f: "str_fields ''MODE 1920 1080 60 HDMI-1'' = [''MODE'', ''1920'', ''1080'', ''60'', ''HDMI-1'']"
    "str_fields ''CONNECTED 1920 1080'' = [''CONNECTED'', ''1920'', ''1080'']" "str_fields ''END logoff'' = ''END'' # ''logoff'' # []"
    by (simp_all add: str_fields_def is_space_def)
  then show ?thesis
    using session_end_told [OF f(3), of "[]" "[(5, ''MODE 1920 1080 60 HDMI-1''), (7, ''CONNECTED 1920 1080'')]" 2000000007]
    by (simp add: says_word_def connected_last_def RejectWithin_def)
qed

section \<open>The engine reads what the kiosk says\<close>

definition plain_line :: "string \<Rightarrow> bool" where
  "plain_line s \<longleftrightarrow> newline \<notin> set s \<and> CHR 0x00 \<notin> set s"

lemma pipe_line: "plain_line l \<Longrightarrow> pipe_lines (l @ newline # s) = l # pipe_lines s"
proof -
  assume a: "plain_line l"
  then have "takeWhile (\<lambda>c. c \<noteq> CHR 0x00) l = l" by (auto simp: plain_line_def takeWhile_eq_all_conv)
  with a show ?thesis
    by (simp add: pipe_lines_def plain_line_def split_on_no_sep)
qed

lemma pipe_args:
  "\<forall>a \<in> set args. plain_line a \<Longrightarrow>
   pipe_lines (concat (map (\<lambda>a. ''arg '' @ a @ [newline]) args) @ s) = map ((@) ''arg '') args @ pipe_lines s"
proof (induction args)
  case (Cons a args)
  have "plain_line (''arg '' @ a)" using Cons.prems by (simp add: plain_line_def)
  then show ?case using Cons pipe_line [of "''arg '' @ a"] by simp
qed simp

lemma reads_args:
  "length (told_args t) + length args < 199 \<Longrightarrow>
   engine_reads t (map ((@) ''arg '') args @ ls) = engine_reads (t\<lparr>told_args := told_args t @ args\<rparr>) ls"
proof (induction args arbitrary: t)
  case (Cons a args)
  have "cut_prefix (''arg '' @ a) ''arg '' = Some a" by (rule cut_prefix_append)
  then show ?case using Cons by simp
qed simp



end
