(* ===== verification/UiFlow.thy ===== *)
theory UiFlow
  imports PowerDialog UpdateDialog InstallDialog NetDialog Engine
begin

text \<open>
  \<open>internal/ui/loop.go\<close>: the main loop's reaction to keys, clicks, ticks and scans, and
  \<open>connect\<close>, the goroutine that sets a session up and sees it to its end. Each
  goroutine is a record of \<open>conns\<close>, and each stretch of it under \<open>state.Mu\<close> is an operation
  of its own, so that anything may come between two of them. What the resolver, the session
  engine and the remote server answer are arguments.
\<close>

section \<open>Errors\<close>

datatype dial_error =
    EngineError string string     \<comment> \<open>an error that holds an \<open>EngineError\<close> of a class, and its whole text\<close>
  | OtherDialError string

fun error_text :: "dial_error \<Rightarrow> string" where
  "error_text (EngineError c t) = t"
| "error_text (OtherDialError t) = t"

definition rdpErrToMessage :: "dial_error \<Rightarrow> 'a ui_scheme \<Rightarrow> string" where
  "rdpErrToMessage e s =
     (let msg = error_text e; lower = to_lower msg;
          by_text =
            (if contains lower ''timeout'' then T s ''ErrTimeout''
             else if contains lower ''refused'' then T s ''ErrRefused''
             else if contains lower ''auth'' \<or> contains lower ''logon'' \<or> contains lower ''credential'' then T s ''ErrAuthFailed''
             else let r = runes (map of_char msg)
                  in if length r > 60 then concat (map utf8 (take 60 r)) @ ''...'' else msg)
      in case e of
           EngineError c _ \<Rightarrow>
             if c = ''auth'' then T s ''ErrAuthFailed''
             else if c = ''unreachable'' then T s ''ErrTimeout''
             else if c = ''refused'' then T s ''ErrRefused'' else by_text
         | OtherDialError _ \<Rightarrow> by_text)"

definition authFailed :: "dial_error \<Rightarrow> 'a ui_scheme \<Rightarrow> bool" where
  "authFailed e s \<longleftrightarrow> rdpErrToMessage e s = T s ''ErrAuthFailed''"

datatype engine_answer = NoEngine | EngineFailed dial_error | EngineUp

definition dial :: "engine_answer \<Rightarrow> dial_error option \<Rightarrow> dial_error + bool" where
  \<comment> \<open>what \<open>StartEngine\<close> and, if it is asked, \<open>rdp.New\<close> say; the result says whether the engine runs it\<close>
  "dial engine builtin =
     (case engine of EngineUp \<Rightarrow> Inr True | EngineFailed e \<Rightarrow> Inl e
      | NoEngine \<Rightarrow> (case builtin of None \<Rightarrow> Inr False | Some e \<Rightarrow> Inl e))"

section \<open>Connections\<close>

datatype conn_phase =
    Starting            \<comment> \<open>\<open>go connect\<close> has been said\<close>
  | Resolving
  | Dialing
  | Live
  | Redialing nat       \<comment> \<open>before the attempts of \<open>reconnect\<close> from this one on\<close>

record conn =
  cn_server :: string
  cn_creds :: credentials
  cn_mode :: auto_mode
  cn_unattended :: bool
  cn_host :: "host option"
  cn_phase :: conn_phase
  cn_kept :: bool            \<comment> \<open>\<open>kept.Do\<close> has run\<close>
  cn_stood :: "int option"   \<comment> \<open>when the timer \<open>stood\<close> was started, until it is stopped\<close>

definition new_conn :: conn where
  "new_conn = \<lparr>cn_server = [], cn_creds = \<lparr>cred_user = [], cred_password = [], cred_domain = []\<rparr>, cn_mode = Off,
     cn_unattended = False, cn_host = None, cn_phase = Starting, cn_kept = False, cn_stood = None\<rparr>"

record flow = ui +
  session :: "nat option"               \<comment> \<open>the goroutine whose client \<open>*session\<close> holds\<close>
  conns :: "(nat \<times> conn) list"          \<comment> \<open>the goroutines of \<open>connect\<close> that run\<close>
  next_conn :: nat
  hosts_file :: "string option"         \<comment> \<open>the file at \<open>SavePath\<close>\<close>
  usb_for :: "nat list"                 \<comment> \<open>the goroutines that hold the USB devices\<close>

definition set_conn :: "nat \<Rightarrow> conn \<Rightarrow> 'a flow_scheme \<Rightarrow> 'a flow_scheme" where
  "set_conn i c s = s\<lparr>conns := AList.update i c (conns s)\<rparr>"

definition conn_ends :: "nat \<Rightarrow> 'a flow_scheme \<Rightarrow> 'a flow_scheme" where
  \<comment> \<open>the goroutine returns, and \<open>devices.End\<close> runs if it was deferred\<close>
  "conn_ends i s = s\<lparr>conns := AList.delete i (conns s), usb_for := removeAll i (usb_for s)\<rparr>"

definition go_connect :: "'a flow_scheme \<Rightarrow> 'a flow_scheme" where
  "go_connect s = s\<lparr>conns := conns s @ [(next_conn s, new_conn)], next_conn := Suc (next_conn s)\<rparr>"

definition set_modal :: "(modal_state \<Rightarrow> modal_state) \<Rightarrow> 'a ui_state_scheme \<Rightarrow> 'a ui_state_scheme" where
  "set_modal f s = s\<lparr>Modal := f (Modal s)\<rparr>"

definition connect_begin :: "nat \<Rightarrow> 'a flow_scheme \<Rightarrow> 'a flow_scheme" where
  "connect_begin i s =
     (let m = Modal s;
          c = new_conn\<lparr>cn_server := Fields m ! fieldServer,
                cn_creds := \<lparr>cred_user = Fields m ! fieldUser, cred_password = Fields m ! fieldPassword,
                  cred_domain = modal_domain m\<rparr>,
                cn_mode := ModalAuto m, cn_unattended := unattended s, cn_phase := Resolving\<rparr>
      in set_conn i c (set_modal (\<lambda>m. m\<lparr>ModalError := []\<rparr>)
           (Transition ScreenConnecting (s\<lparr>unattended := False\<rparr>))\<lparr>ErrorMsg := []\<rparr>))"

definition connect_resolved :: "int \<Rightarrow> nat \<Rightarrow> conn \<Rightarrow> address_error + host \<Rightarrow> 'a flow_scheme \<Rightarrow> 'a flow_scheme" where
  "connect_resolved now i c r s =
     (case r of
        Inl _ \<Rightarrow>
          conn_ends i
            (if cn_unattended c then autoFailed (T s ''ErrBadAddress'') now s
             else Transition ScreenModal
               (set_modal (\<lambda>m. m\<lparr>ModalError := T s ''ErrBadAddress'', FocusIdx := int fieldServer\<rparr>) s))
      | Inr h \<Rightarrow>
          let (s1, j) = AddHost h s
          in set_conn i (c\<lparr>cn_host := Some (hosts s1 ! nat j), cn_phase := Dialing\<rparr>)
               (s1\<lparr>SelectedIdx := j, usb_for := i # usb_for s1\<rparr>))"

definition run_session :: "nat \<Rightarrow> conn \<Rightarrow> 'a flow_scheme \<Rightarrow> 'a flow_scheme" where
  \<comment> \<open>the part of \<open>runSession\<close> under the lock\<close>
  "run_session i c s = set_conn i (c\<lparr>cn_phase := Live\<rparr>) (Transition ScreenSession (s\<lparr>session := Some i\<rparr>))"

definition connect_dialed :: "int \<Rightarrow> nat \<Rightarrow> conn \<Rightarrow> dial_error option \<Rightarrow> 'a flow_scheme \<Rightarrow> 'a flow_scheme" where
  "connect_dialed now i c err s =
     (case err of
        Some e \<Rightarrow>
          conn_ends i
            (if cn_unattended c \<and> \<not> authFailed e s then autoFailed (rdpErrToMessage e s) now s
             else Transition ScreenModal (set_modal (\<lambda>m. m\<lparr>ModalError := rdpErrToMessage e s\<rparr>) s))
      | None \<Rightarrow> run_session i (c\<lparr>cn_stood := Some now\<rparr>) s)"

definition conn_keep ::
  "(string \<Rightarrow> string option \<Rightarrow> string option \<times> bool) \<Rightarrow> int \<Rightarrow> nat \<Rightarrow> conn \<Rightarrow> 'a flow_scheme \<Rightarrow> 'a flow_scheme" where
  \<comment> \<open>\<open>keep\<close>; the first argument replaces the file of servers, or fails\<close>
  "conn_keep replace now i c s =
     (case cn_host c of
        None \<Rightarrow> s
      | Some h \<Rightarrow>
        if cn_kept c then s
        else
          let (s1, file) = saveConnection replace now h (cred_user (cn_creds c)) (cred_domain (cn_creds c)) (hosts_file s) s;
              (s2, auto, changed) = keepAuto (cn_server c) (cn_creds c) (cn_mode c) (s1\<lparr>hosts_file := file\<rparr>);
              s3 = set_conn i (c\<lparr>cn_kept := True\<rparr>) s2
          in if changed then ask (SaveStartup auto (Installed (Boot s3))) s3 else s3)"

definition reconnectDelays :: "int list" where
  "reconnectDelays = [1000000000, 2000000000, 4000000000, 8000000000]"

definition connect_finish ::
  "(string \<Rightarrow> string option \<Rightarrow> string option \<times> bool) \<Rightarrow> int \<Rightarrow> nat \<Rightarrow> conn \<Rightarrow> bool \<Rightarrow> 'a flow_scheme \<Rightarrow> 'a flow_scheme" where
  \<comment> \<open>after the loop; the flag: the last client was \<open>Rejected\<close>\<close>
  "connect_finish replace now i c rejected s =
     (if rejected then
        conn_ends i (Transition ScreenModal
          (set_modal (\<lambda>m. m\<lparr>ModalError := T s ''ErrRejected''\<rparr>) (s\<lparr>session := None\<rparr>)))
      else
        let s1 = (conn_keep replace now i c s)\<lparr>session := None\<rparr>;
            (s2, went) = (if isAutoServer (cn_server c) (cn_host c) s1 then startAuto now s1 else (s1, False));
            s3 = (if went then s2 else Transition ScreenDiscovery s2)
        in conn_ends i (flash (T s3 ''Disconnected'') now s3))"

datatype session_outcome = Ended | Lost | TurnedDown    \<comment> \<open>what \<open>Failed\<close> and \<open>Rejected\<close> say\<close>

definition connect_over ::
  "(string \<Rightarrow> string option \<Rightarrow> string option \<times> bool) \<Rightarrow> int \<Rightarrow> nat \<Rightarrow> conn \<Rightarrow> session_outcome \<Rightarrow> 'a flow_scheme \<Rightarrow> 'a flow_scheme" where
  "connect_over replace now i c e s =
     (if e = Lost then
        set_conn i (c\<lparr>cn_phase := Redialing 0\<rparr>) ((Transition ScreenConnecting s)\<lparr>Dirty := True\<rparr>)
      else connect_finish replace now i (c\<lparr>cn_stood := None\<rparr>) (e = TurnedDown) s)"

definition connect_redialed ::
  "(string \<Rightarrow> string option \<Rightarrow> string option \<times> bool) \<Rightarrow> int \<Rightarrow> nat \<Rightarrow> conn \<Rightarrow> nat \<Rightarrow> bool \<Rightarrow> 'a flow_scheme \<Rightarrow> 'a flow_scheme" where
  \<comment> \<open>one round of \<open>reconnect\<close>'s loop\<close>
  "connect_redialed replace now i c n ok s =
     (if ok then run_session i c s
      else if Suc n < length reconnectDelays then set_conn i (c\<lparr>cn_phase := Redialing (Suc n)\<rparr>) s
      else connect_finish replace now i (c\<lparr>cn_stood := None\<rparr>) False s)"

definition disconnect :: "int \<Rightarrow> 'a ui_scheme \<Rightarrow> 'a ui_scheme" where
  \<comment> \<open>the client is asked to close, which it does in its own time\<close>
  "disconnect now s = flash (T s ''Disconnected'') now (Transition ScreenDiscovery s)"

section \<open>Keys\<close>

definition handleModalKey :: "int \<Rightarrow> nat \<Rightarrow> 'a flow_scheme \<Rightarrow> 'a flow_scheme" where
  "handleModalKey code r s =
     (let m = Modal s; i = FocusIdx m
      in if code = KeyEsc then Transition ScreenDiscovery (s\<lparr>Modal := no_modal\<rparr>)
         else if code = KeyTab then s\<lparr>Modal := m\<lparr>FocusIdx := go_mod (i + 1) (fieldCount m + 2)\<rparr>\<rparr>
         else if code = KeyF6 then s\<lparr>Modal := toggleDomain m\<rparr>
         else if code = KeyF10 then
           (let (s1, gone) = toggleAuto s in if gone then ask (SaveStartup no_auto (Installed (Boot s1))) s1 else s1)
         else if code = KeyEnter then
           (if i = focusCancel m then Transition ScreenDiscovery s else go_connect (Transition ScreenConnecting s))
         else if code = KeyBackspace then
           (if i < fieldCount m then s\<lparr>Modal := set_field (nat i) (drop_rune (Fields m ! nat i)) m\<rparr> else s)
         else if r \<noteq> 0 \<and> i < fieldCount m then s\<lparr>Modal := set_field (nat i) (Fields m ! nat i @ utf8 r) m\<rparr>
         else s)"

definition handleAutoKey :: "int \<Rightarrow> 'a ui_state_scheme \<Rightarrow> 'a ui_state_scheme" where
  "handleAutoKey code s =
     (if code = KeyEsc then Transition ScreenDiscovery s
      else if code = KeyEnter then s\<lparr>AutoAt := 0\<rparr> else s)"

definition cidr_text :: "ui_world \<Rightarrow> string" where
  "cidr_text w = (case cidr_w w of None \<Rightarrow> [] | Some c \<Rightarrow> c)"

definition new_scan :: "ui_world \<Rightarrow> 'a ui_scheme \<Rightarrow> 'a ui_scheme" where
  \<comment> \<open>a scan of the subnet there is now, instead of the one under way\<close>
  "new_scan w s =
     (let s1 = (Rescan (ask CancelScan s))\<lparr>Subnet := cidr_text w\<rparr>
      in ask (StartScan (cidr_text w) (UiState.ScanPort s1)) s1)"

definition handleDiscoveryKey :: "ui_world \<Rightarrow> int \<Rightarrow> int \<Rightarrow> 'a ui_scheme \<Rightarrow> 'a ui_scheme" where
  "handleDiscoveryKey w maxRows code s =
     (if code = KeyUp then MoveSelection (-1) maxRows s
      else if code = KeyDown then MoveSelection 1 maxRows s
      else if code = KeyPageUp then MoveSelection (- maxRows) maxRows s
      else if code = KeyPageDown then MoveSelection maxRows maxRows s
      else if code = KeyEnter then
        Transition ScreenModal (if hosts s \<noteq> [] then OpenModalFor s else OpenModalManual s)
      else if code = KeyF7 then Transition ScreenModal (OpenModalManual s)
      else if code = KeyF8 then openNetwork w s
      else if code = KeyF4 then openPower s
      else if code = KeyF9 then
        (if CanInstall s then openInstall w s
         else if Installed (Boot s) then openUpdate (now_w w) s else s)
      else if code = KeyF5 then new_scan w (s\<lparr>ErrorMsg := []\<rparr>)
      else s)"

definition seen_update :: "'a ui_scheme \<Rightarrow> 'a ui_scheme" where
  "seen_update s = set_update (\<lambda>u. u\<lparr>TriedTag := []\<rparr>) s"

definition handleKeyPress :: "ui_world \<Rightarrow> int \<Rightarrow> int \<Rightarrow> nat \<Rightarrow> 'a flow_scheme \<Rightarrow> 'a flow_scheme option" where
  \<comment> \<open>\<open>handleInput\<close>, on a key's press\<close>
  "handleKeyPress w maxRows code r s =
     (if code = KeyF3 then Some (s\<lparr>ui_layout := NextLayout (ui_layout s), Dirty := True\<rparr>)
      else if code = KeyF2 then
        (let l = Next_lang (ui_lang s) in Some (s\<lparr>ui_lang := l, ui_layout := SetLayout (LayoutForLanguage l)\<rparr>))
      else case Screen s of
          ScreenDiscovery \<Rightarrow> Some (handleDiscoveryKey w maxRows code (seen_update s))
        | ScreenModal \<Rightarrow> Some (handleModalKey code r s)
        | ScreenInstall \<Rightarrow> handleInstallKey w code r s
        | ScreenUpdate \<Rightarrow> Some (handleUpdateKey (version_w w) code s)
        | ScreenPower \<Rightarrow> Some (handlePowerKey code s)
        | ScreenNetwork \<Rightarrow> Some (handleNetKey w code r s)
        | ScreenWifi \<Rightarrow> Some (handleWifiKey w code r s)
        | ScreenAuto \<Rightarrow> Some (handleAutoKey code s)
        | _ \<Rightarrow> Some s)"

definition handleWheel :: "int \<Rightarrow> int \<Rightarrow> 'a ui_scheme \<Rightarrow> 'a ui_scheme" where
  "handleWheel maxRows notches s =
     (case Screen s of
        ScreenDiscovery \<Rightarrow> MoveSelection (- notches) maxRows s
      | ScreenInstall \<Rightarrow> install_wheel notches s
      | ScreenWifi \<Rightarrow> if \<not> WBusy (WifiD s) \<and> \<not> Prompt (WifiD s) then set_wifi (wifi_move (- notches)) s else s
      | _ \<Rightarrow> s)"

section \<open>Clicks\<close>

definition doubleClick :: int where "doubleClick = 500000000"

datatype modal_hit = OnModalField nat | OnDomainToggle | OnAutoToggle | OnConnect | OnModalCancel

datatype ui_hit =
  \<comment> \<open>what the layout of the screen shown has under the pointer\<close>
    HitPowerHint | HitRow int | HitModal modal_hit | HitNet net_hit | HitWifi wifi_hit | HitUpdate update_hit
  | HitPower nat | HitNothing

definition click_row :: "int \<Rightarrow> int \<Rightarrow> 'a ui_state_scheme \<Rightarrow> 'a ui_state_scheme" where
  \<comment> \<open>a click on a row of the list at a time; 0 is no time, which no click is close to\<close>
  "click_row t row s =
     (let i = ScrollOffset s + row
      in if i < 0 \<or> i \<ge> int (length (hosts s)) then s
         else
           let double = (i = lastClickRow s \<and> lastClick s \<noteq> 0 \<and> t - lastClick s \<le> doubleClick);
               s1 = pick_row row s
           in if double then Transition ScreenModal (OpenModalFor (s1\<lparr>lastClick := 0\<rparr>))
              else s1\<lparr>lastClick := t, lastClickRow := i\<rparr>)"

definition click_modal :: "modal_hit \<Rightarrow> 'a flow_scheme \<Rightarrow> 'a flow_scheme" where
  "click_modal hit s =
     (case hit of
        OnModalField i \<Rightarrow> set_modal (\<lambda>m. m\<lparr>FocusIdx := int i\<rparr>) s
      | OnDomainToggle \<Rightarrow> set_modal toggleDomain s
      | OnAutoToggle \<Rightarrow>
          (let (s1, gone) = toggleAuto s in if gone then ask (SaveStartup no_auto (Installed (Boot s1))) s1 else s1)
      | OnConnect \<Rightarrow> go_connect (Transition ScreenConnecting (set_modal (\<lambda>m. m\<lparr>FocusIdx := focusConnect m\<rparr>) s))
      | OnModalCancel \<Rightarrow> Transition ScreenDiscovery s)"

definition handleMouseClick :: "ui_world \<Rightarrow> ui_hit \<Rightarrow> 'a flow_scheme \<Rightarrow> 'a flow_scheme" where
  "handleMouseClick w hit s =
     (case Screen s of
        ScreenDiscovery \<Rightarrow>
          (let s1 = seen_update s
           in case hit of HitPowerHint \<Rightarrow> openPower s1 | HitRow row \<Rightarrow> click_row (now_w w) row s1 | _ \<Rightarrow> s1)
      | ScreenModal \<Rightarrow> (case hit of HitModal h \<Rightarrow> click_modal h s | _ \<Rightarrow> s)
      | ScreenNetwork \<Rightarrow> handleNetClick w (case hit of HitNet h \<Rightarrow> Some h | _ \<Rightarrow> None) s
      | ScreenWifi \<Rightarrow> handleWifiClick w (case hit of HitWifi h \<Rightarrow> Some h | _ \<Rightarrow> None) s
      | ScreenUpdate \<Rightarrow> handleUpdateClick (version_w w) (case hit of HitUpdate h \<Rightarrow> Some h | _ \<Rightarrow> None) s
      | ScreenPower \<Rightarrow> handlePowerClick (case hit of HitPower i \<Rightarrow> Some i | _ \<Rightarrow> None) s
      | _ \<Rightarrow> s)"

section \<open>The main loop\<close>

definition net_tick :: "ui_world \<Rightarrow> 'a ui_scheme \<Rightarrow> 'a ui_scheme" where
  "net_tick w s =
     (let late = (Subnet s = [] \<or> has_prefix (Subnet s) ''169.254.'');
          behind = (Screen s \<in> {ScreenDiscovery, ScreenNetwork, ScreenWifi})
      in if late \<and> behind \<and> cidr_text w \<noteq> [] \<and> cidr_text w \<noteq> Subnet s then new_scan w s else s)"

definition wifi_tick :: "ui_world \<Rightarrow> 'a ui_scheme \<Rightarrow> 'a ui_scheme" where
  "wifi_tick w s =
     (let s1 = (if Screen s = ScreenWifi \<or> Screen s = ScreenNetwork \<or> CfgSSID (Joining (WifiD s)) \<noteq> []
                then refreshWifi s else s);
          s2 = (if Screen s1 = ScreenWifi \<and> now_w w - ScanAt (WifiD s1) > wifiRescan then scanWifi (now_w w) s1 else s1)
      in if Screen s2 = ScreenNetwork \<and> \<not> NetBusy (NetD s2)
         then set_net (\<lambda>n. n\<lparr>NetStatus := CurrentNet (net_w w) (NetIface n)\<rparr>) s2 else s2)"

definition render_tick :: "ui_world \<Rightarrow> 'a flow_scheme \<Rightarrow> 'a flow_scheme" where
  \<comment> \<open>what the tick does before it draws\<close>
  "render_tick w s =
     (let s1 = fst (restartWhenIdle (expireBanner (now_w w) s))
      in if Screen s1 \<noteq> ScreenAuto then s1
         else
           let (s2, due) = autoDue (cidr_w w) (now_w w) s1
           in if due then go_connect (Transition ScreenConnecting ((openAutoModal (now_w w) s2)\<lparr>unattended := True\<rparr>)) else s2)"

datatype flow_event =
    KeyPress int nat | LeftClick ui_hit | WheelTurn int | HangUp   \<comment> \<open>Ctrl+Alt+End\<close>
  | RenderTick | NetTick | WifiTick | DriverAsked | Found scan_event
  | ConnBegins nat | ConnResolved nat "address_error + host" | ConnDialed nat "dial_error option"
  | ConnOver nat session_outcome | ConnRedialed nat bool | ConnStood nat
  | Polled string nat "network list option" "wifi_status option" string | JoinEnds wifi_config wifi_config "string option"
  | KeepEnds bool "string option" | ForgetEnds string "string option"
  | NetSavedEnds net_config bool "string option" "string option" net_status
  | DailyChecked "release + went_wrong" | DialogChecked "release + went_wrong" | Downloaded int int | UpdateEnds "went_wrong option"
  | InstallStep int int string | InstallEnds "string option"

definition in_session :: "'a flow_scheme \<Rightarrow> bool" where
  "in_session s \<longleftrightarrow> Screen s = ScreenSession \<and> session s \<noteq> None"

definition conn_event ::
  "(string \<Rightarrow> string option \<Rightarrow> string option \<times> bool) \<Rightarrow> int \<Rightarrow> flow_event \<Rightarrow> nat \<Rightarrow> conn \<Rightarrow> 'a flow_scheme \<Rightarrow> 'a flow_scheme" where
  \<comment> \<open>the goroutine is where the event says it is, or the event is not one of it\<close>
  "conn_event replace now ev i c s =
     (case (ev, cn_phase c) of
        (ConnBegins _, Starting) \<Rightarrow> connect_begin i s
      | (ConnResolved _ r, Resolving) \<Rightarrow> connect_resolved now i c r s
      | (ConnDialed _ e, Dialing) \<Rightarrow> connect_dialed now i c e s
      | (ConnOver _ e, Live) \<Rightarrow> connect_over replace now i c e s
      | (ConnRedialed _ ok, Redialing n) \<Rightarrow> connect_redialed replace now i c n ok s
      | (ConnStood _, _) \<Rightarrow>
          (case cn_stood c of Some t \<Rightarrow> if now \<ge> t + RejectWithin then conn_keep replace now i c s else s | None \<Rightarrow> s)
      | _ \<Rightarrow> s)"

definition on_conn ::
  "(string \<Rightarrow> string option \<Rightarrow> string option \<times> bool) \<Rightarrow> int \<Rightarrow> flow_event \<Rightarrow> nat \<Rightarrow> 'a flow_scheme \<Rightarrow> 'a flow_scheme" where
  "on_conn replace now ev i s = (case map_of (conns s) i of None \<Rightarrow> s | Some c \<Rightarrow> conn_event replace now ev i c s)"

definition flow_step ::
  "(string \<Rightarrow> string option \<Rightarrow> string option \<times> bool) \<Rightarrow> int \<Rightarrow> ui_world \<Rightarrow> flow_event \<Rightarrow> flow \<Rightarrow> flow option" where
  \<comment> \<open>\<open>None\<close>: the program has panicked\<close>
  "flow_step replace maxRows w ev s =
     (let now = now_w w
      in case ev of
           KeyPress code r \<Rightarrow> if in_session s then Some s
             else map_option (\<lambda>t. t\<lparr>Dirty := True\<rparr>) (handleKeyPress w maxRows code r s)
         | LeftClick hit \<Rightarrow> Some (if in_session s then s else (handleMouseClick w hit s)\<lparr>Dirty := True\<rparr>)
         | WheelTurn n \<Rightarrow> Some (if in_session s then s else (handleWheel maxRows n s)\<lparr>Dirty := True\<rparr>)
         | HangUp \<Rightarrow> Some (if in_session s then disconnect now s else s)
         | RenderTick \<Rightarrow> Some (render_tick w s)
         | NetTick \<Rightarrow> Some (net_tick w s)
         | WifiTick \<Rightarrow> Some (wifi_tick w s)
         | DriverAsked \<Rightarrow> Some (s\<lparr>driverPending := True\<rparr>)
         | Found e \<Rightarrow> Some (HandleScanEvent e s)
         | ConnBegins i \<Rightarrow> Some (on_conn replace now ev i s)
         | ConnResolved i _ \<Rightarrow> Some (on_conn replace now ev i s)
         | ConnDialed i _ \<Rightarrow> Some (on_conn replace now ev i s)
         | ConnOver i _ \<Rightarrow> Some (on_conn replace now ev i s)
         | ConnRedialed i _ \<Rightarrow> Some (on_conn replace now ev i s)
         | ConnStood i \<Rightarrow> Some (on_conn replace now ev i s)
         | Polled iface g nets st a \<Rightarrow> Some (poll_ended iface g nets st a now s)
         | JoinEnds c p e \<Rightarrow> Some (join_ended c p e now s)
         | KeepEnds p e \<Rightarrow> Some (keep_ended p e s)
         | ForgetEnds n e \<Rightarrow> Some (forget_ended n e s)
         | NetSavedEnds c p e1 e2 st \<Rightarrow> Some (net_saved c p e1 e2 st s)
         | DailyChecked a \<Rightarrow> Some (checkUpdate a now s)
         | DialogChecked a \<Rightarrow> Some (checked_now a now s)
         | Downloaded d t \<Rightarrow> Some (update_progress d t s)
         | UpdateEnds e \<Rightarrow> Some (update_ended e s)
         | InstallStep n t name \<Rightarrow> Some (install_progress n t name s)
         | InstallEnds e \<Rightarrow> Some (install_ended e s))"

end
