(* ===== verification/UiFrames.thy ===== *)
theory UiFrames
  imports UiFlow
begin

text \<open>
  Which of the main loop's handlers change what: none but those that start a connection touches
  the connections, and none shows or leaves a session's screen.
\<close>

section \<open>What a handler leaves alone\<close>

definition core :: "flow \<Rightarrow> (nat \<times> conn) list \<times> nat option \<times> nat \<times> nat list \<times> string option" where
  \<comment> \<open>what only \<open>connect\<close> and those who start it change\<close>
  "core s = (conns s, session s, next_conn s, usb_for s, hosts_file s)"

definition calm :: "flow \<Rightarrow> bool" where
  \<comment> \<open>no connection is shown\<close>
  "calm s \<longleftrightarrow> Screen s \<noteq> ScreenConnecting \<and> Screen s \<noteq> ScreenSession"

definition quiet :: "flow \<Rightarrow> flow \<Rightarrow> bool" where
  "quiet s t \<longleftrightarrow> core t = core s \<and> (calm t \<longleftrightarrow> calm s) \<and> (\<not> calm s \<longrightarrow> Screen t = Screen s)"

lemma quiet_refl [simp]: "quiet s s"
  by (simp add: quiet_def)

lemma quiet_trans [trans]: "quiet s t \<Longrightarrow> quiet t u \<Longrightarrow> quiet s u"
  by (auto simp: quiet_def)

lemma quietI [simp]: "core t = core s \<Longrightarrow> Screen t = Screen s \<Longrightarrow> quiet s t"
  by (simp add: quiet_def calm_def)

lemma quiet_dirty [simp]: "quiet s t \<Longrightarrow> quiet s (t\<lparr>Dirty := b\<rparr>)"
  by (auto simp: quiet_def core_def calm_def)

lemma quiet_Transition [simp]:
  assumes "calm s" "to \<noteq> ScreenConnecting" "to \<noteq> ScreenSession" "quiet s t"
  shows "quiet s (Transition to t)"
  using assms by (auto simp: quiet_def core_def calm_def Transition_def Let_def)

lemma core_simps [simp]:
  "core (Transition to s) = core s" "core (ask e s) = core s" "core (set_update f s) = core s"
  "core (set_install g s) = core s" "core (set_wifi h s) = core s" "core (set_net k s) = core s"
  "core (set_modal m s) = core s" "core (s\<lparr>Modal := m'\<rparr>) = core s"
  "core (s\<lparr>Dirty := b\<rparr>) = core s" "core (s\<lparr>PowerD := p\<rparr>) = core s" "core (s\<lparr>WifiD := w\<rparr>) = core s"
  "core (s\<lparr>NetD := n\<rparr>) = core s" "core (s\<lparr>driverPending := b\<rparr>) = core s"
  "core (s\<lparr>ErrorMsg := x\<rparr>) = core s" "core (s\<lparr>Auto := a\<rparr>) = core s" "core (s\<lparr>hosts := hs\<rparr>) = core s"
  "core (s\<lparr>SelectedIdx := i\<rparr>) = core s" "core (s\<lparr>AutoAt := t\<rparr>) = core s" "core (s\<lparr>unattended := b\<rparr>) = core s"
  "core (s\<lparr>Subnet := x\<rparr>) = core s" "core (s\<lparr>lastClick := t\<rparr>) = core s" "core (s\<lparr>lastClickRow := i\<rparr>) = core s"
  by (simp_all add: core_def Transition_def ask_def set_update_def set_install_def set_wifi_def set_net_def set_modal_def Let_def)

lemma Screen_simps [simp]:
  "Screen (set_modal m s) = Screen s"
  by (simp_all add: set_modal_def)

lemma list_frame [simp]:
  fixes s :: flow
  shows "core (MoveSelection d m s) = core s" "Screen (MoveSelection d m s) = Screen s"
    "core (fst (AddHost h s)) = core s" "Screen (fst (AddHost h s)) = Screen s"
    "core (HandleScanEvent e s) = core s" "Screen (HandleScanEvent e s) = Screen s"
    "core (Rescan s) = core s" "Screen (Rescan s) = Screen s"
    "core (clear_list s) = core s" "Screen (clear_list s) = Screen s"
    "core (pick_row r s) = core s" "Screen (pick_row r s) = Screen s"
  by (simp_all add: core_def MoveSelection_def AddHost_def HandleScanEvent_def dropUnfound_def Rescan_def clear_list_def
      pick_row_def Let_def split: option.splits scan_event_type.splits prod.splits)

lemma modal_frame [simp]:
  fixes s :: flow
  shows "core (OpenModalFor s) = core s" "Screen (OpenModalFor s) = Screen s"
    "core (OpenModalManual s) = core s" "Screen (OpenModalManual s) = Screen s"
    "core (fst (toggleAuto s)) = core s" "Screen (fst (toggleAuto s)) = Screen s"
    "core (openAutoModal now s) = core s" "Screen (openAutoModal now s) = Screen s"
    "core (flash msg now s) = core s" "Screen (flash msg now s) = Screen s"
    "core (expireBanner now s) = core s" "Screen (expireBanner now s) = Screen s"
    "core (fst (autoDue c now s)) = core s" "Screen (fst (autoDue c now s)) = Screen s"
  by (simp_all add: core_def OpenModalFor_def OpenModalManual_def toggleAuto_def openAutoModal_def flash_def expireBanner_def
      autoDue_def AddHost_def Let_def split: option.splits prod.splits)

lemma wifi_frame [simp]:
  fixes s :: flow
  shows "core (scanWifi now s) = core s" "Screen (scanWifi now s) = Screen s"
    "core (refreshWifi s) = core s" "Screen (refreshWifi s) = Screen s"
    "core (wifi_join c s) = core s" "Screen (wifi_join c s) = Screen s"
    "core (wifi_keep c s) = core s" "Screen (wifi_keep c s) = Screen s"
    "core (wifi_forget s) = core s" "Screen (wifi_forget s) = Screen s"
    "core (leave_prompt s) = core s" "Screen (leave_prompt s) = Screen s"
    "core (fst (initWifi w s)) = core s" "Screen (fst (initWifi w s)) = Screen s"
  by (simp_all add: scanWifi_def refreshWifi_def wifi_join_def wifi_keep_def wifi_forget_def leave_prompt_def initWifi_def Let_def
      split: list.splits)

lemma wifi_frame2 [simp]:
  fixes s :: flow
  shows "core (wifi_submit w s) = core s" "Screen (wifi_submit w s) = Screen s"
    "core (wifi_choose s) = core s" "Screen (wifi_choose s) = Screen s"
    "core (wifi_watch now s) = core s" "Screen (wifi_watch now s) = Screen s"
  by (simp_all add: wifi_submit_def wifi_choose_def wifi_watch_def Let_def split: sum.splits wifi_error.splits)

lemma wifi_ends_frame [simp]:
  fixes s :: flow
  shows "core (poll_ended i g n st a now s) = core s" "Screen (poll_ended i g n st a now s) = Screen s"
    "core (join_ended c p e now s) = core s" "Screen (join_ended c p e now s) = Screen s"
    "core (keep_ended b e s) = core s" "Screen (keep_ended b e s) = Screen s"
    "core (forget_ended d e s) = core s" "Screen (forget_ended d e s) = Screen s"
    "core (net_saved nc b e e2 ns s) = core s" "Screen (net_saved nc b e e2 ns s) = Screen s"
  by (simp_all add: poll_ended_def join_ended_def keep_ended_def forget_ended_def net_saved_def core_def set_wifi_def
      set_net_def clear_list_def wifi_watch_def wifi_keep_def ask_def Let_def split: option.splits)

lemma update_frame [simp]:
  fixes s :: flow
  shows "core (checkUpdate a now s) = core s" "Screen (checkUpdate a now s) = Screen s"
    "core (checked_now a now s) = core s" "Screen (checked_now a now s) = Screen s"
    "core (checkNow s) = core s" "Screen (checkNow s) = Screen s"
    "core (startUpdate s) = core s" "Screen (startUpdate s) = Screen s"
    "core (update_progress d n s) = core s" "Screen (update_progress d n s) = Screen s"
    "core (update_ended e s) = core s" "Screen (update_ended e s) = Screen s"
    "core (cancelUpdate s) = core s" "Screen (cancelUpdate s) = Screen s"
    "core (updateMain v s) = core s" "Screen (updateMain v s) = Screen s"
    "core (install_progress i n nm s) = core s" "Screen (install_progress i n nm s) = Screen s"
    "core (install_ended er s) = core s" "Screen (install_ended er s) = Screen s"
    "core (install_wheel i s) = core s" "Screen (install_wheel i s) = Screen s"
  by (simp_all add: checkUpdate_def checked_now_def checkNow_def startUpdate_def update_progress_def update_ended_def
      cancelUpdate_def updateMain_def install_progress_def install_ended_def install_wheel_def Let_def split: sum.splits option.splits)

lemma quiet_frame [simp]:
  "quiet s (checkNow t) = quiet s t" "quiet s (refreshWifi t) = quiet s t" "quiet s (scanWifi now t) = quiet s t"
  "quiet s (ask e t) = quiet s t" "quiet s (set_update f t) = quiet s t" "quiet s (set_wifi g t) = quiet s t"
  "quiet s (set_net h t) = quiet s t" "quiet s (set_install k t) = quiet s t" "quiet s (t\<lparr>PowerD := p\<rparr>) = quiet s t"
  "quiet s (set_modal m t) = quiet s t"
  by (simp_all add: quiet_def calm_def)

lemma dialogs_quiet:
  assumes "calm s"
  shows "quiet s (openPower s)" "quiet s (powerChoose f s)" "quiet s (openUpdate now s)" "quiet s (openInstall w s)"
    "quiet s (openNetwork w s)" "quiet s (openWifi now s)" "quiet s (closeWifi w s)" "quiet s (saveNetwork s)"
    "quiet s (handlePowerKey code s)" "quiet s (handlePowerClick hit s)" "quiet s (fst (restartWhenIdle s))"
  subgoal using assms by (simp add: openPower_def)
  subgoal using assms by (auto simp: powerChoose_def Let_def)
  subgoal using assms by (auto simp: openUpdate_def Let_def)
  subgoal using assms by (auto simp: openInstall_def)
  subgoal using assms wifi_frame(13,14) [of w s] by (cases "initWifi w s") (simp add: openNetwork_def Let_def)
  subgoal using assms by (auto simp: openWifi_def)
  subgoal using assms by (auto simp: closeWifi_def Let_def)
  subgoal using assms by (auto simp: saveNetwork_def Let_def split: sum.splits option.splits)
  subgoal using assms by (auto simp: handlePowerKey_def powerChoose_def Let_def)
  subgoal using assms by (auto simp: handlePowerClick_def powerChoose_def Let_def split: option.splits)
  subgoal using assms by (auto simp: restartWhenIdle_def Let_def)
  done

lemma calm_frame [simp]:
  "calm (set_update f t) = calm t" "calm (set_wifi g t) = calm t" "calm (set_net h t) = calm t"
  "calm (set_install k t) = calm t" "calm (set_modal m t) = calm t"
  by (simp_all add: calm_def)

lemma net_click_quiet:
  assumes "calm s"
  shows "quiet s (openWifi now (set_net f s))" "quiet s (saveNetwork (set_net f s))"
  using assms by (auto intro: quiet_trans [OF _ dialogs_quiet(6)] quiet_trans [OF _ dialogs_quiet(8)])

lemma update_quiet:
  assumes "calm s"
  shows "quiet s (handleUpdateKey v code s)" "quiet s (handleUpdateClick v uh s)"
  subgoal using assms by (simp add: handleUpdateKey_def split: update_phase.splits)
  subgoal using assms by (simp add: handleUpdateClick_def split: update_phase.splits option.splits update_hit.splits)
  done

lemma install_quiet:
  assumes "calm s" "handleInstallKey w code r s = Some t"
  shows "quiet s t"
proof (cases "InPhase (InstallD s)")
  case InstallConfirm
  then have "startInstall w s = Some t \<or> quiet s t"
    using assms by (auto simp: handleInstallKey_def Let_def split: if_splits)
  then show ?thesis by (auto simp: startInstall_def Let_def split: if_splits)
qed (use assms dialogs_quiet(4) [OF assms(1), of w] in \<open>auto simp: handleInstallKey_def Let_def\<close>)

lemma net_quiet:
  assumes "calm s"
  shows "quiet s (handleNetKey w code r s)" "quiet s (handleNetClick w nh s)"
  subgoal using assms by (simp add: handleNetKey_def dialogs_quiet)
  subgoal using assms by (simp add: handleNetClick_def net_click_quiet split: option.splits net_hit.splits)
  done

lemma new_scan_frame [simp]:
  fixes s :: flow
  shows "core (new_scan w s) = core s" "Screen (new_scan w s) = Screen s"
  by (simp_all add: new_scan_def Let_def)

lemma prompt_frame [simp]:
  fixes s :: flow
  shows "core (promptKey w code r s) = core s" "Screen (promptKey w code r s) = Screen s"
  by (simp_all add: promptKey_def Let_def)

lemma wifi_key_quiet:
  assumes "calm s"
  shows "quiet s (handleWifiKey w code r s)" "quiet s (handleWifiClick w wh s)"
  subgoal using assms by (simp add: handleWifiKey_def dialogs_quiet)
  subgoal using assms by (simp add: handleWifiClick_def split: option.splits wifi_hit.splits)
  done

lemma discovery_quiet:
  assumes "calm s"
  shows "quiet s (handleAutoKey code s)" "quiet s (handleDiscoveryKey w m code s)" "quiet s (click_row t' row s)"
  subgoal using assms by (simp add: handleAutoKey_def)
  subgoal using assms by (simp add: handleDiscoveryKey_def dialogs_quiet)
  subgoal using assms by (simp add: click_row_def Let_def)
  done

lemma busy_handlers:
  \<comment> \<open>while a connection is shown, no key, click or wheel does anything but change language and layout\<close>
  assumes "\<not> calm s"
  shows "handleKeyPress w m code r s = Some t \<Longrightarrow> core t = core s \<and> Screen t = Screen s"
    "handleMouseClick w hit s = s" "handleWheel m n s = s"
  using assms
  by (auto simp: handleKeyPress_def handleMouseClick_def handleWheel_def calm_def core_def Let_def split: screen.splits if_splits)

lemma wheel_quiet: "quiet s (handleWheel m n s)"
  by (simp add: handleWheel_def split: screen.splits)

lemma ticks_quiet [simp]:
  fixes s :: flow
  shows "core (net_tick w s) = core s" "Screen (net_tick w s) = Screen s"
    "core (wifi_tick w s) = core s" "Screen (wifi_tick w s) = Screen s"
  by (simp_all add: net_tick_def wifi_tick_def Let_def)

end
