(* ===== verification/UiStart.thy ===== *)
theory UiStart
  imports UiFlow
begin

text \<open>
  How the kiosk comes up: \<open>main\<close> (\<open>cmd/simpleclient/main.go\<close>) as far as it decides
  anything, and the first part of \<open>Run\<close> (\<open>internal/ui/loop.go\<close>), up to its loop, which
  \<open>flow_run\<close> iterates.
\<close>

section \<open>The first half of Run\<close>

definition no_flow :: "string \<Rightarrow> string \<Rightarrow> flow" where
  \<comment> \<open>the zero \<open>UIState\<close>, with the language and layout in use\<close>
  "no_flow lang layout =
     \<lparr>Dirty = False, hosts = [], found = [], kept = [], SelectedIdx = 0, ScrollOffset = 0, ScanProgress = 0, ScanDone = False,
       Screen = ScreenDiscovery, Subnet = [], ui_state.ScanPort = 0, Modal = no_modal, ErrorMsg = [], ErrorUntil = 0,
       Boot = \<lparr>Slot = [], Kernel = [], GfxSafe = [], ESP = []\<rparr>, CanInstall = False, driverPending = False,
       lastClick = 0, lastClickRow = 0, DriverOff = False, lastUser = [], SavePath = False, Auto = None, AutoAt = 0,
       AutoNet = False, AutoErr = [], unattended = False, ui_lang = lang, ui_layout = layout,
       PowerD = \<lparr>PowerFocus = 0, Going = 0, Why = [], Driver = False\<rparr>,
       UpdateD = \<lparr>UpPhase = UpdateIdle, LatestRel = no_release, Checked = False, CheckedAt = 0, FailedTag = [], TriedTag = [],
         TriedOK = False, UpErr = [], UpDone = 0, UpTotal = 0, UpFocus = 0, up_cancel = False\<rparr>,
       InstallD = no_install,
       NetD = \<lparr>NetStatic = False, NetFields = [[], [], [], [], []], NetFocus = 0, NetPort = [], NetIface = [],
         NetStatus = \<lparr>st_interface = [], st_address = [], st_carrier = False\<rparr>, NetMsg = [], NetErr = False, NetBusy = False,
         NetWireless = []\<rparr>,
       WifiD = no_wifi_state, asked = [],
       session = None, conns = [], next_conn = 0, hosts_file = None, usb_for = []\<rparr>"

record start_world =
  boot_w :: boot
  gpus_w :: string
  settled_w :: "string \<times> bool \<times> string"    \<comment> \<open>what \<open>Settle\<close> says\<close>
  saved_w :: "string option"                \<comment> \<open>the file of servers\<close>
  host_w :: string                          \<comment> \<open>\<open>-host\<close>\<close>
  auto_w :: "auto_config option"            \<comment> \<open>\<open>autoconnect.Load\<close>\<close>

definition flow_start :: "start_world \<Rightarrow> ui_world \<Rightarrow> string \<Rightarrow> string \<Rightarrow> flow" where
  "flow_start b w lang layout =
     (let on_disk = Installed (boot_w b);
          s0 = (no_flow lang layout)\<lparr>Boot := boot_w b, DriverOff := LeftSafe (boot_w b) (gpus_w b), CanInstall := \<not> on_disk\<rparr>;
          s1 = (if on_disk then loadSaved (now_w w) (saved_w b) (s0\<lparr>SavePath := True, hosts_file := saved_w b\<rparr>) else s0);
          s2 = startUpdates (settled_w b) s1;
          s3 = (if host_w b = [] then s2
                else let (t, ok) = AddStaticHost (now_w w) (host_w b) s2
                  in if ok then t else t\<lparr>ErrorMsg := ''rdphost: '' @ host_w b @ ''?''\<rparr>);
          s4 = (case auto_w b of None \<Rightarrow> s3 | Some a \<Rightarrow> fst (startAuto (now_w w) (s3\<lparr>Auto := Some a\<rparr>)));
          port = NetConf.ScanPort (net_file w)
      in ask (StartScan (cidr_text w) port) (s4\<lparr>Subnet := cidr_text w, UiState.ScanPort := port, Dirty := True\<rparr>))"

fun flow_run ::
  "(string \<Rightarrow> string option \<Rightarrow> string option \<times> bool) \<Rightarrow> int \<Rightarrow> (ui_world \<times> flow_event) list \<Rightarrow> flow \<Rightarrow> flow option" where
  \<comment> \<open>the loop, over what happens and the machine as it is then; \<open>None\<close>: the program has panicked\<close>
  "flow_run replace m [] s = Some s"
| "flow_run replace m ((w, ev) # es) s =
     (case flow_step replace m w ev s of None \<Rightarrow> None | Some t \<Rightarrow> flow_run replace m es t)"

lemma load_frame:
  fixes s :: flow
  shows "session (load_line now l s) = session s \<and> conns (load_line now l s) = conns s \<and> usb_for (load_line now l s) = usb_for s \<and>
    Screen (load_line now l s) = Screen s"
  by (simp add: load_line_def RememberCredential_def AddHost_def Let_def split: prod.splits option.splits)

lemma load_frames:
  fixes s :: flow
  shows "session (loadSaved now f s) = session s \<and> conns (loadSaved now f s) = conns s \<and> usb_for (loadSaved now f s) = usb_for s \<and>
    Screen (loadSaved now f s) = Screen s"
proof -
  have "session (fold (load_line now) ls s) = session s \<and> conns (fold (load_line now) ls s) = conns s \<and>
      usb_for (fold (load_line now) ls s) = usb_for s \<and> Screen (fold (load_line now) ls s) = Screen s" for ls and s :: flow
    by (induction ls arbitrary: s) (simp_all add: load_frame)
  then show ?thesis by (cases f) (simp_all add: loadSaved_def)
qed

section \<open>The program\<close>

record config =
  FBDevice :: string
  KbdDevice :: string
  MouseDevice :: string
  ScanTimeout :: int
  MaxWorkers :: int
  Language :: string
  RDPDebug :: bool
  StaticHost :: string
  ColorDepth :: int
  BootGraphics :: string

definition Load_defaults :: config where
  \<comment> \<open>without flags\<close>
  "Load_defaults = \<lparr>FBDevice = ''/dev/fb0'', KbdDevice = [], MouseDevice = [], ScanTimeout = 500000000, MaxWorkers = 256,
     Language = Default, RDPDebug = False, StaticHost = [], ColorDepth = 16, BootGraphics = []\<rparr>"

definition config_Lang :: "config \<Rightarrow> string" where
  "config_Lang c = fst (Parse_lang (Language c))"

definition bootGraphics :: "env_io \<Rightarrow> boot \<Rightarrow> string \<Rightarrow> string \<Rightarrow> medium option \<Rightarrow> medium option \<times> string \<times> int" where
  \<comment> \<open>\<open>/init\<close>'s half of choosing the display driver: what it leaves, what it prints and its exit status\<close>
  "bootGraphics io b gpus step med =
     (if step = ''mode'' then (med, (if SafeGraphics b gpus then ''safe'' else ''native'') @ [newline], 0)
      else if step = ''try'' then
        (if gpus = [] then (med, [], 1) else let (m, ok) = GraphicsTry io gpus med in (m, [], if ok then 0 else 1))
      else if step = ''ok'' then (let (m, e) = GraphicsOK io med in (m, [], if e = None then 0 else 1))
      else (med, [], 2))"

definition session_depth :: "config \<Rightarrow> int \<Rightarrow> int" where
  \<comment> \<open>\<open>rdp.ColorDepth\<close>, given what it was\<close>
  "session_depth c old = (if ColorDepth c = 16 \<or> ColorDepth c = 24 then ColorDepth c else old)"

definition provenAfter :: int where "provenAfter = 20000000000"

datatype proven = ProvenSaid bool | GaveUp

primrec prove_boot :: "nat \<Rightarrow> (nat \<Rightarrow> bool \<times> bool) \<Rightarrow> proven" where
  \<comment> \<open>the goroutine of \<open>main\<close>, with so many tries left; the second argument: what \<open>MarkGood\<close> answers then (whether
    it worked, and whether to try the driver again)\<close>
  "prove_boot 0 ans = GaveUp"
| "prove_boot (Suc k) ans = (let (ok, retry) = ans (Suc k) in if ok then ProvenSaid retry else prove_boot k ans)"

definition boot_proven :: "(nat \<Rightarrow> bool \<times> bool) \<Rightarrow> proven" where
  "boot_proven ans = prove_boot 10 ans"

section \<open>It comes up without a session\<close>

lemma fst_AddStaticHost:
  fixes s :: flow
  shows "let t = fst (AddStaticHost now h s) in
    session t = session s \<and> conns t = conns s \<and> usb_for t = usb_for s \<and> Screen t = Screen s"
  by (simp add: AddStaticHost_def AddHost_def Let_def split: option.splits prod.splits)

lemma startAuto_screens:
  fixes s :: flow
  shows "let t = fst (startAuto now s) in
    session t = session s \<and> conns t = conns s \<and> usb_for t = usb_for s \<and>
    (Screen s = ScreenDiscovery \<longrightarrow> Screen t \<in> {ScreenDiscovery, ScreenModal, ScreenAuto})"
  by (auto simp: startAuto_def openAutoModal_def AddHost_def Transition_def allowed_def Let_def split: option.splits prod.splits)

lemma flow_start_idle:
  "session (flow_start b w lang layout) = None" "conns (flow_start b w lang layout) = []" "usb_for (flow_start b w lang layout) = []"
  "Screen (flow_start b w lang layout) \<in> {ScreenDiscovery, ScreenModal, ScreenAuto}"
proof -
  define s1 where "s1 = (let s0 = (no_flow lang layout)\<lparr>Boot := boot_w b, DriverOff := LeftSafe (boot_w b) (gpus_w b),
      CanInstall := \<not> Installed (boot_w b)\<rparr>
    in if Installed (boot_w b) then loadSaved (now_w w) (saved_w b) (s0\<lparr>SavePath := True, hosts_file := saved_w b\<rparr>) else s0)"
  define s2 where "s2 = startUpdates (settled_w b) s1"
  define s3 where "s3 = (if host_w b = [] then s2
      else let (t, ok) = AddStaticHost (now_w w) (host_w b) s2 in if ok then t else t\<lparr>ErrorMsg := ''rdphost: '' @ host_w b @ ''?''\<rparr>)"
  define s4 where "s4 = (case auto_w b of None \<Rightarrow> s3 | Some a \<Rightarrow> fst (startAuto (now_w w) (s3\<lparr>Auto := Some a\<rparr>)))"
  have 1: "session s1 = None \<and> conns s1 = [] \<and> usb_for s1 = [] \<and> Screen s1 = ScreenDiscovery"
    by (simp add: s1_def no_flow_def load_frames Let_def)
  then have 2: "session s2 = None \<and> conns s2 = [] \<and> usb_for s2 = [] \<and> Screen s2 = ScreenDiscovery"
    by (simp add: s2_def startUpdates_def set_update_def split: prod.splits)
  then have 3: "session s3 = None \<and> conns s3 = [] \<and> usb_for s3 = [] \<and> Screen s3 = ScreenDiscovery"
    using fst_AddStaticHost [of "now_w w" "host_w b" s2] by (auto simp: s3_def Let_def split: prod.splits)
  then have 4: "session s4 = None \<and> conns s4 = [] \<and> usb_for s4 = [] \<and> Screen s4 \<in> {ScreenDiscovery, ScreenModal, ScreenAuto}"
    using startAuto_screens [of "now_w w" "s3\<lparr>Auto := a\<rparr>" for a] by (simp add: s4_def Let_def split: option.splits)
  have "flow_start b w lang layout = ask (StartScan (cidr_text w) (NetConf.ScanPort (net_file w)))
      (s4\<lparr>Subnet := cidr_text w, UiState.ScanPort := NetConf.ScanPort (net_file w), Dirty := True\<rparr>)"
    by (simp only: flow_start_def s4_def s3_def s2_def s1_def Let_def)
  then show "session (flow_start b w lang layout) = None" "conns (flow_start b w lang layout) = []"
      "usb_for (flow_start b w lang layout) = []" "Screen (flow_start b w lang layout) \<in> {ScreenDiscovery, ScreenModal, ScreenAuto}"
    using 4 by (simp_all add: ask_def)
qed

end
