(* ===== verification/UiConnections.thy ===== *)
theory UiConnections
  imports UiFrames UiStart
begin

text \<open>
  What holds of the main loop and \<open>connect\<close> together, however their steps interleave: that the
  kiosk is in one session at a time, which accounts are kept, and that the startup server is gone
  back to.
\<close>

section \<open>One session at a time\<close>

definition phase_usb :: "conn_phase \<Rightarrow> bool" where
  "phase_usb p = (case p of Dialing \<Rightarrow> True | Live \<Rightarrow> True | Redialing _ \<Rightarrow> True | _ \<Rightarrow> False)"

definition conn_shown :: "nat \<Rightarrow> conn \<Rightarrow> nat option \<Rightarrow> nat list \<Rightarrow> nat \<Rightarrow> bool \<Rightarrow> bool" where
  \<comment> \<open>how the one connection there is stands to \<open>*session\<close>, the USB devices and the screen\<close>
  "conn_shown i c sess usb next live \<longleftrightarrow>
     i < next \<and> (live \<longleftrightarrow> cn_phase c = Live) \<and> (live \<longrightarrow> sess = Some i) \<and> sess \<in> {None, Some i} \<and>
     (sess \<noteq> None \<longrightarrow> cn_phase c = Live \<or> (\<exists>n. cn_phase c = Redialing n)) \<and>
     usb = (if phase_usb (cn_phase c) then [i] else []) \<and> (phase_usb (cn_phase c) \<longrightarrow> cn_host c \<noteq> None)"

definition one_conn :: "flow \<Rightarrow> bool" where
  "one_conn s \<longleftrightarrow>
     (if calm s then conns s = [] \<and> session s = None \<and> usb_for s = []
      else \<exists>i c. conns s = [(i, c)] \<and> conn_shown i c (session s) (usb_for s) (next_conn s) (Screen s = ScreenSession))"

lemma quiet_one_conn:
  assumes "quiet s t" "one_conn s"
  shows "one_conn t"
  using assms by (auto simp: quiet_def one_conn_def core_def)

lemma go_connect_one:
  assumes "one_conn s" "calm s" "core t = core s" "Screen t = ScreenConnecting"
  shows "one_conn (go_connect t)"
  using assms by (auto simp: one_conn_def conn_shown_def core_def calm_def go_connect_def new_conn_def phase_usb_def)

lemma Transition_connecting: "Screen s = ScreenModal \<or> Screen s = ScreenAuto \<Longrightarrow> Screen (Transition ScreenConnecting s) = ScreenConnecting"
  by (auto simp: Transition_def allowed_def Let_def)

definition begins :: "flow \<Rightarrow> flow \<Rightarrow> bool" where
  \<comment> \<open>a connection is started, and its screen shown at once\<close>
  "begins s t \<longleftrightarrow> calm s \<and> (\<exists>u. t = go_connect u \<and> core u = core s \<and> Screen u = ScreenConnecting)"

lemma begins_go: "calm s \<Longrightarrow> core u = core s \<Longrightarrow> Screen u = ScreenConnecting \<Longrightarrow> begins s (go_connect u)"
  by (auto simp: begins_def)

lemma begins_dirty: "begins s t \<Longrightarrow> begins s (t\<lparr>Dirty := b\<rparr>)"
proof -
  assume "begins s t"
  then obtain u where "calm s" "t = go_connect u" "core u = core s" "Screen u = ScreenConnecting"
    by (auto simp: begins_def)
  moreover have "(go_connect u)\<lparr>Dirty := b\<rparr> = go_connect (u\<lparr>Dirty := b\<rparr>)" by (simp add: go_connect_def)
  ultimately show ?thesis using begins_go [of s "u\<lparr>Dirty := b\<rparr>"] by simp
qed

lemma one_Dirty: "one_conn s \<Longrightarrow> one_conn (s\<lparr>Dirty := b\<rparr>)"
  by (rule quiet_one_conn [OF quietI]) simp_all

lemma begins_one: "begins s t \<Longrightarrow> one_conn s \<Longrightarrow> one_conn t"
  by (auto simp: begins_def intro!: go_connect_one)

lemma modal_moves:
  fixes s :: flow
  assumes "Screen s = ScreenModal"
  shows "quiet s (handleModalKey code r s) \<or> begins s (handleModalKey code r s)"
    "quiet s (click_modal hit s) \<or> begins s (click_modal hit s)"
proof -
  have c: "calm s" using assms by (simp add: calm_def)
  have go: "begins s (go_connect (Transition ScreenConnecting (set_modal f s)))" for f
    using assms by (intro begins_go [OF c]) (simp_all add: Transition_connecting)
  have same: "set_modal (\<lambda>m. m) s = s" by (simp add: set_modal_def)
  have q: "quiet s (let (s1, gone) = toggleAuto s in if gone then ask (SaveStartup no_auto (Installed (Boot s1))) s1 else s1)"
    using modal_frame(5,6) [of s] by (cases "toggleAuto s") (simp add: Let_def)
  show "quiet s (handleModalKey code r s) \<or> begins s (handleModalKey code r s)"
  proof (cases "code = KeyEnter \<and> FocusIdx (Modal s) \<noteq> focusCancel (Modal s)")
    case True
    then show ?thesis using go [of "\<lambda>m. m"] by (simp add: handleModalKey_def same key_codes Let_def)
  qed (use c q in \<open>simp add: handleModalKey_def Let_def\<close>)
  show "quiet s (click_modal hit s) \<or> begins s (click_modal hit s)"
    using c q go by (cases hit) (simp_all add: click_modal_def)
qed

lemma leave_busy:
  fixes s :: flow
  assumes "\<not> calm s" "to \<in> {ScreenModal, ScreenAuto, ScreenDiscovery}"
  shows "Screen (Transition to s) = to"
  using assms by (auto simp: calm_def Transition_def allowed_def Let_def)

lemma busy_again:
  fixes s :: flow
  assumes "\<not> calm s"
  shows "Screen (Transition ScreenConnecting s) = ScreenConnecting" "Screen (Transition ScreenSession s) = ScreenSession"
  using assms by (auto simp: calm_def Transition_def allowed_def Let_def)

lemma startAuto_leaves:
  fixes s :: flow
  assumes "\<not> calm s"
  shows "core (fst (startAuto now s)) = core s" "snd (startAuto now s) \<Longrightarrow> calm (fst (startAuto now s))"
    "\<not> snd (startAuto now s) \<Longrightarrow> fst (startAuto now s) = s"
proof -
  have b: "\<not> calm (openAutoModal now s)" "\<not> calm ((openAutoModal now s)\<lparr>AutoAt := t, AutoNet := x, AutoErr := y\<rparr>)" for t x y
    using assms by (simp_all add: calm_def)
  show "snd (startAuto now s) \<Longrightarrow> calm (fst (startAuto now s))"
    using leave_busy [OF b(1), of ScreenModal] leave_busy [OF b(2), of ScreenAuto]
    by (auto simp: startAuto_def calm_def Let_def split: option.splits)
qed (auto simp: startAuto_def core_def Let_def openAutoModal_def AddHost_def Transition_def split: option.splits prod.splits)

lemma conn_ends_one:
  assumes "one_conn s" "map_of (conns s) i = Some c" "core t = core (s\<lparr>session := None\<rparr>)" "calm t"
  shows "one_conn (conn_ends i t)"
proof -
  have n: "\<not> calm s" using assms(1,2) by (auto simp: one_conn_def)
  then obtain j d where "conns s = [(j, d)]" "conn_shown j d (session s) (usb_for s) (next_conn s) (Screen s = ScreenSession)"
    using assms(1) by (auto simp: one_conn_def)
  moreover have "Screen (conn_ends i t) = Screen t" by (simp add: conn_ends_def)
  ultimately show ?thesis
    using assms(2-4) by (auto simp: one_conn_def conn_shown_def core_def conn_ends_def calm_def split: if_splits)
qed

lemma set_conn_one:
  assumes "one_conn s" "map_of (conns s) i = Some c" "conns t = conns s" "next_conn t = next_conn s" "\<not> calm t"
    "conn_shown i d (session t) (usb_for t) (next_conn s) (Screen t = ScreenSession)"
  shows "one_conn (set_conn i d t)"
proof -
  have n: "\<not> calm s" using assms(1,2) by (auto simp: one_conn_def)
  then obtain j x where "conns s = [(j, x)]" using assms(1) by (auto simp: one_conn_def)
  moreover have "calm (set_conn i d t) = calm t" by (simp add: set_conn_def calm_def)
  ultimately show ?thesis
    using assms(2-6) by (auto simp: one_conn_def set_conn_def split: if_splits)
qed

lemma one_connD:
  assumes "one_conn s" "map_of (conns s) i = Some c"
  shows "\<not> calm s" "conns s = [(i, c)]" "conn_shown i c (session s) (usb_for s) (next_conn s) (Screen s = ScreenSession)"
  using assms by (auto simp: one_conn_def split: if_splits)

lemma core_auto [simp]: "core (s\<lparr>AutoErr := x\<rparr>) = core s" "core (s\<lparr>AutoErr := x, AutoAt := y\<rparr>) = core s"
  by (simp_all add: core_def)

lemma failed_leaves:
  fixes s :: flow
  assumes "\<not> calm s"
  shows "core (autoFailed m now s) = core s" "calm (autoFailed m now s)"
    "core (Transition ScreenModal (set_modal f s)) = core s" "calm (Transition ScreenModal (set_modal f s))"
proof -
  have "\<not> calm (s\<lparr>AutoErr := m, AutoAt := now + autoRetry\<rparr>)" using assms by (simp add: calm_def)
  then have a: "Screen (autoFailed m now s) = ScreenAuto" unfolding autoFailed_def by (rule leave_busy) simp
  then show "calm (autoFailed m now s)" by (simp add: calm_def)
  have "Screen (Transition ScreenModal (set_modal f s)) = ScreenModal"
    by (rule leave_busy) (simp_all add: assms)
  then show "calm (Transition ScreenModal (set_modal f s))" by (simp add: calm_def)
qed (simp_all add: autoFailed_def)

lemma connect_one:
  fixes s :: flow
  assumes o: "one_conn s" and c: "map_of (conns s) i = Some c"
  shows "cn_phase c = Starting \<Longrightarrow> one_conn (connect_begin i s)"
    "cn_phase c = Resolving \<Longrightarrow> one_conn (connect_resolved now i c r s)"
    "cn_phase c = Dialing \<Longrightarrow> one_conn (connect_dialed now i c e s)"
proof -
  note d = one_connD [OF o c]
  show "one_conn (connect_begin i s)" if p: "cn_phase c = Starting"
    unfolding connect_begin_def Let_def
    by (rule set_conn_one [OF o c])
      (use d p busy_again(1) [of "s\<lparr>unattended := False\<rparr>"] in
        \<open>auto simp: calm_def conn_shown_def phase_usb_def set_modal_def Transition_def Let_def\<close>)
  have s0: "session s = None" if "cn_phase c = Resolving \<or> cn_phase c = Dialing"
    using d(3) that by (auto simp: conn_shown_def)
  then have cs: "core (s\<lparr>session := None\<rparr>) = core s" if "cn_phase c = Resolving \<or> cn_phase c = Dialing"
    using that by (simp add: core_def)
  have failed: "one_conn (conn_ends i (autoFailed m now s))" "one_conn (conn_ends i (Transition ScreenModal (set_modal f s)))"
    if "cn_phase c = Resolving \<or> cn_phase c = Dialing" for m f
    using conn_ends_one [OF o c] failed_leaves [OF d(1)] cs [OF that] by simp_all
  show "one_conn (connect_resolved now i c r s)" if p: "cn_phase c = Resolving"
  proof (cases r)
    case (Inl e)
    then show ?thesis using failed p by (simp add: connect_resolved_def)
  next
    case (Inr h)
    obtain s1 j where a: "AddHost h s = (s1, j)" by (cases "AddHost h s")
    then have f: "core s1 = core s" "Screen s1 = Screen s" using list_frame(3,4) [of h s] by simp_all
    show ?thesis
      unfolding connect_resolved_def Inr sum.case a Let_def prod.case
      by (rule set_conn_one [OF o c])
        (use d p f in \<open>auto simp: core_def calm_def conn_shown_def phase_usb_def\<close>)
  qed
  show "one_conn (connect_dialed now i c e s)" if p: "cn_phase c = Dialing"
  proof (cases e)
    case (Some x)
    then show ?thesis using failed p by (simp add: connect_dialed_def)
  next
    case None
    show ?thesis
      unfolding connect_dialed_def None option.case run_session_def
      by (rule set_conn_one [OF o c])
        (use d p busy_again(2) [of "s\<lparr>session := Some i\<rparr>"] in
          \<open>auto simp: calm_def conn_shown_def phase_usb_def Transition_def Let_def\<close>)
  qed
qed


lemma conn_ends_calm:
  assumes "fst ` set (conns t) \<subseteq> {i}" "session t = None" "set (usb_for t) \<subseteq> {i}" "calm t"
  shows "one_conn (conn_ends i t)"
proof -
  have "AList.delete i (conns t) = []"
    using assms(1) by (auto simp: AList.delete_eq filter_empty_conv)
  moreover have "removeAll i (usb_for t) = []"
    using assms(3) by (auto simp: removeAll_filter_not_eq filter_empty_conv)
  moreover have "Screen (conn_ends i t) = Screen t" by (simp add: conn_ends_def)
  ultimately show ?thesis using assms(2,4) by (auto simp: one_conn_def conn_ends_def calm_def)
qed

lemma keys_update: "fst ` set (AList.update i d xs) = insert i (fst ` set xs)"
  by (induction xs) auto

lemma keep_frame [simp]:
  fixes s :: flow
  shows "session (conn_keep replace now i c s) = session s" "usb_for (conn_keep replace now i c s) = usb_for s"
    "next_conn (conn_keep replace now i c s) = next_conn s" "Screen (conn_keep replace now i c s) = Screen s"
    "calm (conn_keep replace now i c s) = calm s"
    "conns (conn_keep replace now i c s) =
      (if cn_host c = None \<or> cn_kept c then conns s else AList.update i (c\<lparr>cn_kept := True\<rparr>) (conns s))"
  by (simp_all add: conn_keep_def saveConnection_def keepAuto_def RememberCredential_def set_conn_def ask_def calm_def Let_def
      split: option.splits prod.splits)

lemma conns_of_core: "core t = core s \<Longrightarrow> conns t = conns s \<and> session t = session s \<and> usb_for t = usb_for s \<and> next_conn t = next_conn s \<and> hosts_file t = hosts_file s"
  by (simp add: core_def)

lemma finish_one:
  fixes s :: flow
  assumes n: "\<not> calm s" and k: "fst ` set (conns s) \<subseteq> {i}" and u: "set (usb_for s) \<subseteq> {i}"
  shows "one_conn (connect_finish replace now i c rejected s)"
proof (cases rejected)
  case True
  have "\<not> calm (s\<lparr>session := None\<rparr>)" using n by (simp add: calm_def)
  note f = failed_leaves(3,4) [OF this]
  show ?thesis
    unfolding connect_finish_def using True
    by (simp, intro conn_ends_calm) (use f k u in \<open>auto dest!: conns_of_core simp: core_def\<close>)
next
  case False
  define s1 where "s1 = (conn_keep replace now i c s)\<lparr>session := None\<rparr>"
  have s1: "\<not> calm s1" "fst ` set (conns s1) \<subseteq> {i}" "set (usb_for s1) \<subseteq> {i}" "session s1 = None"
    using n k u by (auto simp: s1_def calm_def keys_update)
  define r where "r = (if isAutoServer (cn_server c) (cn_host c) s1 then startAuto now s1 else (s1, False))"
  define s3 where "s3 = (if snd r then fst r else Transition ScreenDiscovery (fst r))"
  have c3: "core s3 = core s1" using startAuto_leaves(1) [OF s1(1)] by (simp add: s3_def r_def)
  have "calm s3"
    using startAuto_leaves(2,3) [OF s1(1)] leave_busy [OF s1(1), of ScreenDiscovery] by (auto simp: s3_def r_def calm_def)
  moreover have "one_conn (conn_ends i (flash m now s3))" for m
    using \<open>calm s3\<close> conns_of_core [OF c3] conns_of_core [OF modal_frame(9) [of m now s3]] s1
    by (intro conn_ends_calm) (simp_all add: calm_def)
  moreover have "connect_finish replace now i c rejected s = conn_ends i (flash (T s3 ''Disconnected'') now s3)"
    using False by (simp add: connect_finish_def s1_def r_def s3_def Let_def split: prod.splits)
  ultimately show ?thesis by simp
qed

lemma session_one:
  fixes s :: flow
  assumes o: "one_conn s" and c: "map_of (conns s) i = Some c"
  shows "cn_phase c = Live \<Longrightarrow> one_conn (connect_over replace now i c e s)"
    "cn_phase c = Redialing n \<Longrightarrow> one_conn (connect_redialed replace now i c n ok s)"
    "one_conn (conn_keep replace now i c s)"
proof -
  note d = one_connD [OF o c]
  have k: "fst ` set (conns s) \<subseteq> {i}" "set (usb_for s) \<subseteq> {i}"
    using d(2,3) by (auto simp: conn_shown_def)
  show "one_conn (connect_over replace now i c e s)" if p: "cn_phase c = Live"
  proof (cases "e = Lost")
    case True
    show ?thesis
      unfolding connect_over_def using True
      by (simp, intro set_conn_one [OF o c])
        (use d p busy_again(1) [OF d(1)] in \<open>auto simp: calm_def conn_shown_def phase_usb_def Transition_def Let_def\<close>)
  qed (simp add: connect_over_def finish_one [OF d(1) k])
  show "one_conn (connect_redialed replace now i c n ok s)" if p: "cn_phase c = Redialing n"
  proof (cases "ok \<or> Suc n < length reconnectDelays")
    case True
    show ?thesis
    proof (cases ok)
      case True
      show ?thesis
        unfolding connect_redialed_def run_session_def using True
        by (simp, intro set_conn_one [OF o c])
          (use d p busy_again(2) [of "s\<lparr>session := Some i\<rparr>"] in
            \<open>auto simp: calm_def conn_shown_def phase_usb_def Transition_def Let_def\<close>)
    next
      case False
      then show ?thesis
        unfolding connect_redialed_def using True
        by (simp, intro set_conn_one [OF o c]) (use d p in \<open>auto simp: calm_def conn_shown_def phase_usb_def\<close>)
    qed
  qed (simp add: connect_redialed_def finish_one [OF d(1) k])
  show "one_conn (conn_keep replace now i c s)"
  proof -
    have "conn_shown i (c\<lparr>cn_kept := True\<rparr>) (session s) (usb_for s) (next_conn s) (Screen s = ScreenSession)"
      using d(3) by (simp add: conn_shown_def)
    then show ?thesis using d by (simp add: one_conn_def)
  qed
qed

lemma conn_event_one:
  fixes s :: flow
  assumes "one_conn s"
  shows "one_conn (on_conn replace now ev i s)"
proof (cases "map_of (conns s) i")
  case (Some c)
  note a = connect_one [OF assms Some] session_one [OF assms Some]
  show ?thesis
    unfolding on_conn_def Some option.case conn_event_def prod.case
    using a assms by (simp split: flow_event.splits conn_phase.splits option.splits)
qed (simp add: on_conn_def assms)


lemma press_moves:
  fixes s :: flow
  assumes h: "handleKeyPress w m code r s = Some t"
  shows "quiet s t \<or> begins s t"
proof (cases "calm s")
  case False
  then show ?thesis using busy_handlers(1) [OF False h] by simp
next
  case True
  show ?thesis
  proof (cases "Screen s = ScreenModal \<and> code \<noteq> KeyF3 \<and> code \<noteq> KeyF2")
    case True
    then show ?thesis using modal_moves(1) h by (auto simp: handleKeyPress_def Let_def)
  next
    case False
    have "calm (seen_update s)" and su: "quiet s (seen_update s)" using True by (simp_all add: seen_update_def)
    then have d: "quiet s (handleDiscoveryKey w m code (seen_update s))"
      using discovery_quiet(2) quiet_trans by blast
    have "quiet s t"
      using h False True d install_quiet [OF True, of w code r t] update_quiet(1) [OF True] dialogs_quiet(9) [OF True]
        net_quiet(1) [OF True] wifi_key_quiet(1) [OF True] discovery_quiet(1) [OF True]
      by (simp add: handleKeyPress_def Let_def split: if_splits screen.splits) (auto simp: core_def)
    then show ?thesis ..
  qed
qed

lemma click_moves:
  fixes s :: flow
  shows "quiet s (handleMouseClick w hit s) \<or> begins s (handleMouseClick w hit s)"
proof (cases "calm s")
  case False
  then show ?thesis by (simp add: busy_handlers(2))
next
  case True
  show ?thesis
  proof (cases "Screen s = ScreenModal")
    case True
    then show ?thesis using modal_moves(2) by (simp add: handleMouseClick_def split: ui_hit.splits)
  next
    case False
    have c1: "calm (seen_update s)" and su: "quiet s (seen_update s)" using True by (simp_all add: seen_update_def)
    have d: "quiet s (openPower (seen_update s))" "quiet s (click_row (now_w w) row (seen_update s))" for row
      using dialogs_quiet(1) [OF c1] discovery_quiet(3) [OF c1] su by (blast intro: quiet_trans)+
    have "quiet s (handleMouseClick w hit s)"
      using False True d su update_quiet(2) [OF True] dialogs_quiet(10) [OF True]
        net_quiet(2) [OF True] wifi_key_quiet(2) [OF True]
      by (simp add: handleMouseClick_def Let_def split: screen.splits ui_hit.splits)
    then show ?thesis ..
  qed
qed

lemma begins_after: "quiet s u \<Longrightarrow> begins u t \<Longrightarrow> begins s t"
  by (auto simp: begins_def quiet_def)

lemma tick_moves:
  fixes s :: flow
  shows "quiet s (render_tick w s) \<or> begins s (render_tick w s)"
proof -
  define s1 where "s1 = fst (restartWhenIdle (expireBanner (now_w w) s))"
  have e: "quiet s (expireBanner (now_w w) s)" by simp
  have q: "quiet s s1"
  proof (cases "calm s")
    case True
    then have "calm (expireBanner (now_w w) s)" by (simp add: calm_def)
    from quiet_trans [OF e dialogs_quiet(11) [OF this]] show ?thesis by (simp add: s1_def)
  qed (use e in \<open>auto simp: s1_def restartWhenIdle_def calm_def\<close>)
  show ?thesis
  proof (cases "Screen s1 = ScreenAuto")
    case False
    then show ?thesis using q by (simp add: render_tick_def s1_def)
  next
    case True
    define s2 where "s2 = fst (autoDue (cidr_w w) (now_w w) s1)"
    have s2: "core s2 = core s1" "Screen s2 = ScreenAuto" using True by (simp_all add: s2_def)
    have "begins s1 (go_connect (Transition ScreenConnecting ((openAutoModal (now_w w) s2)\<lparr>unattended := True\<rparr>)))"
      using True s2 by (intro begins_go) (simp_all add: calm_def Transition_connecting)
    moreover have "quiet s1 s2" by (rule quietI) (simp_all add: s2 True)
    ultimately show ?thesis
      using True quiet_trans [OF q] begins_after [OF q]
      by (cases "autoDue (cidr_w w) (now_w w) s1") (simp add: render_tick_def s1_def [symmetric] s2_def)
  qed
qed

definition conn_of :: "flow_event \<Rightarrow> nat option" where
  \<comment> \<open>the connection whose step an event is\<close>
  "conn_of ev =
     (case ev of ConnBegins i \<Rightarrow> Some i | ConnResolved i _ \<Rightarrow> Some i | ConnDialed i _ \<Rightarrow> Some i | ConnOver i _ \<Rightarrow> Some i
      | ConnRedialed i _ \<Rightarrow> Some i | ConnStood i \<Rightarrow> Some i | _ \<Rightarrow> None)"

text \<open>What a step may be: one that leaves connections alone, one that starts one, a step of one, or the
  hanging up of Ctrl+Alt+End.\<close>

lemma flow_moves:
  assumes h: "flow_step replace m w ev s = Some t"
  obtains "quiet s t" | "begins s t" | i where "conn_of ev = Some i" "t = on_conn replace (now_w w) ev i s" | "ev = HangUp" "core t = core s"
proof (cases ev)
  case (KeyPress code r)
  then have "quiet s t \<or> begins s t"
    using h by (auto simp: flow_step_def Let_def intro: begins_dirty dest!: press_moves split: if_splits)
  then show ?thesis using that by blast
next
  case (WheelTurn n)
  then have "quiet s t" using h wheel_quiet by (auto simp: flow_step_def Let_def split: if_splits)
  then show ?thesis using that by blast
next
  case (LeftClick x)
  then have "quiet s t \<or> begins s t"
    using h click_moves [of s w x] by (auto simp: flow_step_def Let_def intro: begins_dirty split: if_splits)
  then show ?thesis using that by blast
next
  case RenderTick
  then show ?thesis using h tick_moves [of s w] that by (auto simp: flow_step_def Let_def)
next
  case HangUp
  moreover have "core (disconnect now s) = core s" for now by (simp add: disconnect_def)
  ultimately show ?thesis using h that by (auto simp: flow_step_def Let_def split: if_splits)
qed (use h that(1) [OF quietI] that(3) in \<open>auto simp: flow_step_def conn_of_def Let_def\<close>)

lemma flow_step_one:
  assumes o: "one_conn s" and h: "flow_step replace m w ev s = Some t" and "ev \<noteq> HangUp"
  shows "one_conn t"
  using h by (cases rule: flow_moves) (use assms in \<open>auto intro: quiet_one_conn begins_one conn_event_one\<close>)

lemma flow_run_one:
  "one_conn s \<Longrightarrow> flow_run replace m es s = Some t \<Longrightarrow> HangUp \<notin> snd ` set es \<Longrightarrow> one_conn t"
  proof (induction es arbitrary: s)
  case (Cons e es)
  obtain w ev where e: "e = (w, ev)" by (cases e)
  with Cons.prems(2) obtain u where u: "flow_step replace m w ev s = Some u" "flow_run replace m es u = Some t"
    by (auto split: option.splits)
  have "one_conn u" by (rule flow_step_one [OF Cons.prems(1) u(1)]) (use Cons.prems(3) e in auto)
  then show ?case using Cons.IH u(2) Cons.prems(3) by auto
qed simp


definition still_world :: "int \<Rightarrow> ui_world" where
  "still_world t = \<lparr>now_w = t, cidr_w = Some ''10.0.0.0/24'', disks_w = None, efi_w = True,
     net_w = \<lparr>net_names = [], net_carrier = (\<lambda>_. None), net_addrs = (\<lambda>_. None), net_route = None, net_resolv = None\<rparr>,
     net_file = no_net, wireless_w = [], wifi_file = (no_wifi, False), version_w = ''v1.0.0'',
     hmac_w = (\<lambda>_ _. []), md4_w = (\<lambda>_. [])\<rparr>"

definition stick :: start_world where
  "stick = \<lparr>boot_w = \<lparr>Slot = ''A'', Kernel = ''lts'', GfxSafe = [], ESP = []\<rparr>, gpus_w = [], settled_w = ([], False, []), saved_w = None,
     host_w = [], auto_w = None\<rparr>"

definition pc_host :: host where "pc_host = \<lparr>IP = IP4 0x0A000005, Hostname = ''pc'', Port = 3389, LatencyMs = 1, DiscoveredAt = 0\<rparr>"

definition session_trip :: "(ui_world \<times> flow_event) list" where
  \<comment> \<open>a dialog left empty, whose server resolves, and a session on it\<close>
  "session_trip = map (\<lambda>e. (still_world 5, e))
     [KeyPress KeyF7 0, KeyPress KeyEnter 0, ConnBegins 0, KeyPress KeyEnter 0, ConnResolved 0 (Inr pc_host),
      RenderTick, ConnDialed 0 None]"

definition kept_file :: "string \<Rightarrow> string option \<Rightarrow> string option \<times> bool" where
  "kept_file new old = (Some new, True)"

lemmas trip_defs = flow_start_def stick_def still_world_def no_flow_def Installed_def LeftSafe_def loadSaved_def startUpdates_def set_update_def
     ask_def cidr_text_def no_net_def flow_step_def in_session_def handleKeyPress_def handleDiscoveryKey_def seen_update_def
     OpenModalManual_def no_modal_def Transition_def allowed_def

lemmas trip_more = key_codes handleModalKey_def focusCancel_def fieldCount_def go_connect_def on_conn_def
     conn_event_def connect_begin_def new_conn_def field_defs modal_domain_def set_conn_def set_modal_def connect_resolved_def pc_host_def
     AddHost_def index_same.simps connect_dialed_def render_tick_def restartWhenIdle_def expireBanner_def run_session_def Let_def
     set_field_def

lemma session_trip_runs:
  "map_option (\<lambda>t. (session t, usb_for t, Screen t, map (\<lambda>(i, c). (i, cn_server c, cn_phase c)) (conns t)))
     (flow_run kept_file 10 session_trip (flow_start stick (still_world 1) ''en'' ''us'')) =
   Some (Some 0, [0], ScreenSession, [(0, [], Live)])"
  by (simp add: session_trip_def trip_defs trip_more)

section \<open>Which accounts are kept\<close>

lemma file_frame [simp]:
  fixes s :: flow
  shows "hosts_file (conn_ends i s) = hosts_file s" "hosts_file (set_conn i d s) = hosts_file s"
    "hosts_file (Transition to s) = hosts_file s" "hosts_file (set_modal f s) = hosts_file s"
    "hosts_file (autoFailed msg now s) = hosts_file s" "hosts_file (flash msg now s) = hosts_file s"
    "hosts_file (fst (startAuto now s)) = hosts_file s" "hosts_file (fst (AddHost h s)) = hosts_file s"
    "hosts_file (run_session i d s) = hosts_file s"
  by (simp_all add: conn_ends_def set_conn_def Transition_def set_modal_def autoFailed_def flash_def startAuto_def
      openAutoModal_def AddHost_def run_session_def Let_def split: option.splits prod.splits)

definition keeps :: "(string \<Rightarrow> string option \<Rightarrow> string option \<times> bool) \<Rightarrow> int \<Rightarrow> conn \<Rightarrow> flow \<Rightarrow> flow \<Rightarrow> bool" where
  \<comment> \<open>the file of servers has been written with the connection's server, its user name and domain\<close>
  "keeps replace now c s t \<longleftrightarrow> \<not> cn_kept c \<and> (\<exists>h. cn_host c = Some h \<and>
     hosts_file t = fst (replace (saved_text now h (cred_user (cn_creds c)) (cred_domain (cn_creds c)) (hosts_file s)) (hosts_file s)))"

lemma keeps_if:
  "hosts_file (conn_keep replace now i c s) = hosts_file s \<or> keeps replace now c s (conn_keep replace now i c s)"
  by (cases "cn_host c")
    (simp_all add: conn_keep_def keeps_def saveConnection_def keepAuto_def RememberCredential_def set_conn_def ask_def Let_def split: prod.splits)

lemma finish_keeps:
  fixes s :: flow
  shows "hosts_file (connect_finish replace now i c r s) = (if r then hosts_file s else hosts_file (conn_keep replace now i c s))"
proof -
  define s1 where "s1 = (conn_keep replace now i c s)\<lparr>session := None\<rparr>"
  define a where "a = (if isAutoServer (cn_server c) (cn_host c) s1 then startAuto now s1 else (s1, False))"
  define s3 where "s3 = (if snd a then fst a else Transition ScreenDiscovery (fst a))"
  have "connect_finish replace now i c False s = conn_ends i (flash (T s3 ''Disconnected'') now s3)"
    by (simp add: connect_finish_def s1_def a_def s3_def Let_def split: prod.splits)
  moreover have "hosts_file s3 = hosts_file s1" by (simp add: s3_def a_def)
  moreover have "hosts_file (connect_finish replace now i c True s) = hosts_file s" by (simp add: connect_finish_def)
  ultimately show ?thesis by (cases r) (simp_all add: s1_def)
qed

lemma conn_keeps:
  fixes s :: flow
  assumes "hosts_file (conn_event replace now ev i c s) \<noteq> hosts_file s"
  shows "keeps replace now c s (conn_event replace now ev i c s) \<and>
    ((\<exists>j t. ev = ConnStood j \<and> cn_stood c = Some t \<and> t + RejectWithin \<le> now) \<or>
     (\<exists>j. ev = ConnOver j Ended \<and> cn_phase c = Live) \<or>
     (\<exists>j n. ev = ConnRedialed j False \<and> cn_phase c = Redialing n))"
proof -
  have fin: "hosts_file (connect_finish replace now i (c\<lparr>cn_stood := None\<rparr>) r s) = hosts_file s \<or>
      \<not> r \<and> keeps replace now c s (connect_finish replace now i (c\<lparr>cn_stood := None\<rparr>) r s)" for r
    using keeps_if [of replace now i "c\<lparr>cn_stood := None\<rparr>" s] by (auto simp: finish_keeps keeps_def)
  have begun: "hosts_file (connect_begin i s) = hosts_file s"
    by (simp add: connect_begin_def Let_def)
  have resolved: "hosts_file (connect_resolved now i c r s) = hosts_file s" for r
    by (cases r; (cases "AddHost (projr r) s")?)
      (simp_all add: connect_resolved_def Let_def split: prod.splits, metis fst_conv file_frame(8))
  have dialed: "hosts_file (connect_dialed now i c e s) = hosts_file s" for e
    by (simp add: connect_dialed_def split: option.splits)
  have over: "hosts_file (connect_over replace now i c e s) = hosts_file s \<or>
      e = Ended \<and> keeps replace now c s (connect_over replace now i c e s)" for e
    using fin [of "e = TurnedDown"] by (cases e) (simp_all add: connect_over_def)
  have redialed: "hosts_file (connect_redialed replace now i c n ok s) = hosts_file s \<or>
      \<not> ok \<and> keeps replace now c s (connect_redialed replace now i c n ok s)" for n ok
    using fin [of False] by (simp add: connect_redialed_def)
  show ?thesis
    using assms begun resolved dialed over redialed keeps_if [of replace now i c s]
    by (cases ev; cases "cn_phase c") (fastforce simp: conn_event_def split: option.splits if_splits)+
qed

lemma step_keeps:
  assumes "flow_step replace m w ev s = Some t" "hosts_file t \<noteq> hosts_file s"
  obtains i c where "map_of (conns s) i = Some c" "keeps replace (now_w w) c s t"
    "(ev = ConnStood i \<and> (\<exists>t. cn_stood c = Some t \<and> t + RejectWithin \<le> now_w w)) \<or>
     (ev = ConnOver i Ended \<and> cn_phase c = Live) \<or> (\<exists>n. ev = ConnRedialed i False \<and> cn_phase c = Redialing n)"
  using assms(1)
proof (cases rule: flow_moves)
  case (3 i)
  with assms(2) obtain c where c: "map_of (conns s) i = Some c"
    by (auto simp: on_conn_def split: option.splits)
  with 3 assms(2) have "hosts_file (conn_event replace (now_w w) ev i c s) \<noteq> hosts_file s" "t = conn_event replace (now_w w) ev i c s"
    by (simp_all add: on_conn_def)
  then show ?thesis using conn_keeps [of replace "now_w w" ev i c s] c 3(1) that by (auto simp: conn_of_def)
qed (use assms(2) in \<open>auto simp: quiet_def core_def begins_def go_connect_def\<close>)


lemma session_kept:
  "map_option (\<lambda>t. hosts_file t = None)
     (flow_run kept_file 10 (session_trip @ [(still_world 9, ConnOver 0 Ended)]) (flow_start stick (still_world 1) ''en'' ''us'')) =
   Some False"
  by (simp add: session_trip_def trip_defs trip_more conn_keep_def saveConnection_def kept_file_def keepAuto_def connect_over_def
    connect_finish_def RememberCredential_def isAutoServer_def conn_ends_def flash_def)


end
