(* ===== verification/UiStartup.thy ===== *)
theory UiStartup
  imports UiConnections
begin

text \<open>
  The startup server is not given up on: \<open>autoFailed\<close>, \<open>autoDue\<close> and \<open>connect\<close>
  (\<open>internal/ui/autoconnect.go\<close>, \<open>loop.go\<close>) together.
\<close>

definition waiting :: "auto_config \<Rightarrow> int \<Rightarrow> nat \<Rightarrow> flow \<Rightarrow> bool" where
  \<comment> \<open>the countdown to a server, over at a time, with no connection set up\<close>
  "waiting a t k s \<longleftrightarrow> Screen s = ScreenAuto \<and> AutoAt s = t \<and> Auto s = Some a \<and> \<not> driverPending s \<and> conns s = [] \<and>
     next_conn s = k"

definition dialed_name :: "int \<Rightarrow> auto_config \<Rightarrow> string" where
  \<comment> \<open>the server field \<open>openAutoModal\<close> fills in\<close>
  "dialed_name now a = (case ParseIPAddress now (Server a) of None \<Rightarrow> Server a | Some h \<Rightarrow> Address h)"

lemma expire_waits [simp]: "waiting a t k (expireBanner now s) = waiting a t k s"
  by (simp add: waiting_def expireBanner_def)

lemma early_tick: "waiting a t k s \<Longrightarrow> now_w w < t \<Longrightarrow> waiting a t k (render_tick w s)"
proof -
  assume a: "waiting a t k s" "now_w w < t"
  then have e: "waiting a t k (expireBanner (now_w w) s)" by simp
  then have "render_tick w s = expireBanner (now_w w) s"
    using a(2) by (simp add: render_tick_def restartWhenIdle_def autoDue_def waiting_def)
  with e show ?thesis by simp
qed

lemma early_ticks:
  "waiting a t k s \<Longrightarrow> \<forall>(w, ev) \<in> set es. ev = RenderTick \<and> now_w w < t \<Longrightarrow> \<exists>u. flow_run replace m es s = Some u \<and> waiting a t k u"
  by (induction es arbitrary: s) (auto simp: flow_step_def early_tick)

lemma auto_modal:
  assumes "Auto s = Some a"
  shows "Fields (Modal (openAutoModal now s)) = [dialed_name now a, Username a, Password a, Domain a]"
    "ShowDomain (Modal (openAutoModal now s)) = (Domain a \<noteq> [])" "ModalAuto (Modal (openAutoModal now s)) = Mode a"
  using assms
  by (simp_all add: openAutoModal_def dialed_name_def AddHost_def no_modal_def set_field_def fill_modal_def field_defs Let_def
      split: option.splits prod.splits)

lemma due_tick:
  assumes "waiting a t k s" "t \<le> now_w w" "cidr_w w \<noteq> None"
  obtains u where "render_tick w s = u" "Screen u = ScreenConnecting" "unattended u" "conns u = [(k, new_conn)]" "next_conn u = Suc k"
    "Fields (Modal u) = [dialed_name (now_w w) a, Username a, Password a, Domain a]" "ShowDomain (Modal u) = (Domain a \<noteq> [])"
    "ModalAuto (Modal u) = Mode a"
proof -
  define s1 where "s1 = expireBanner (now_w w) s"
  have e: "waiting a t k s1" using assms(1) by (simp add: s1_def)
  define s2 where "s2 = s1\<lparr>AutoNet := True\<rparr>"
  have s2: "Screen s2 = ScreenAuto" "Auto s2 = Some a" "conns s2 = []" "next_conn s2 = k"
    using e by (simp_all add: s2_def waiting_def)
  define s3 where "s3 = (openAutoModal (now_w w) s2)\<lparr>unattended := True\<rparr>"
  have u: "render_tick w s = go_connect (Transition ScreenConnecting s3)"
    using e assms(2,3)
    by (cases "cidr_w w")
      (simp_all add: render_tick_def restartWhenIdle_def autoDue_def waiting_def s1_def [symmetric] s2_def s3_def)
  have c: "core s3 = core s2" "Screen s3 = ScreenAuto" "unattended s3" using s2(1) by (simp_all add: s3_def)
  have c': "conns s3 = []" "next_conn s3 = k" using conns_of_core [OF c(1)] s2 by simp_all
  have "Modal s3 = Modal (openAutoModal (now_w w) s2)" by (simp add: s3_def)
  note m = auto_modal [OF s2(2), of "now_w w", folded this]
  show ?thesis
    by (rule that [OF u [symmetric, THEN sym]])
      (use c c' m in \<open>simp_all add: go_connect_def Transition_def allowed_def Let_def\<close>)
qed


definition logon_pc :: auto_config where
  "logon_pc = \<lparr>Mode = Logon, Server = ''pc'', Username = ''ada'', Domain = [], Password = ''x''\<rparr>"

definition startup_trip :: "(ui_world \<times> flow_event) list" where
  "startup_trip = map (\<lambda>e. (still_world 9000000000, e)) [RenderTick, ConnBegins 0, ConnResolved 0 (Inr pc_host)]"

lemma parse_pc: "ParseIPAddress now ''pc'' = None"
proof -
  have "fst (the (splitAddress ''pc'')) = ''pc''" by code_simp
  moreover have "ParseIP ''pc'' = None" by code_simp
  ultimately show ?thesis by (auto simp: ParseIPAddress_def split: option.splits)
qed

lemma startup_trip_runs:
  "map_option (\<lambda>t. (map (\<lambda>(i, c). (i, cn_unattended c, cn_phase c)) (conns t), Auto t, driverPending t, ui_lang t, next_conn t))
     (flow_run kept_file 10 startup_trip (flow_start (stick\<lparr>auto_w := Some logon_pc\<rparr>) (still_world 1) ''en'' ''us'')) =
   Some ([(0, True, Dialing)], Some logon_pc, False, ''en'', 1)"
  by (simp add: startup_trip_def trip_defs trip_more startAuto_def openAutoModal_def logon_pc_def parse_pc fill_modal_def autoDelay_def
     autoDue_def)

lemma said_apart: "T_msg ''en'' ''ErrTimeout'' \<noteq> T_msg ''en'' ''ErrAuthFailed''"
  by code_simp


end
