(* ===== verification/EngineLink.thy ===== *)
theory EngineLink
  imports UiConnections
begin

text \<open>
  The engine (\<open>Engine\<close>) behind the connections of the main loop (\<open>UiFlow\<close>): what \<open>dial\<close> makes of the
  engine's words, and how its last word ends a session.
\<close>

definition engine_answer_of :: "engine_start \<Rightarrow> engine_answer" where
  "engine_answer_of a =
     (case a of EngineRuns _ \<Rightarrow> EngineUp | NoEngineHere \<Rightarrow> NoEngine
      | EngineRefused e t \<Rightarrow> EngineFailed (EngineError (Class e) t) | EngineSilent t \<Rightarrow> EngineFailed (OtherDialError t))"

definition outcome_of :: "engine \<Rightarrow> session_outcome" where
  \<comment> \<open>what \<open>connect\<close> asks of a session that is over\<close>
  "outcome_of e = (if eng_failed e then Lost else if eng_rejected e then TurnedDown else Ended)"

lemma reported_stays: "reported e = Some r \<Longrightarrow> reported (fold watch_line ls e) = Some r"
proof (induction ls arbitrary: e)
  case (Cons x ls)
  have "reported (watch_line x e) = Some r"
    using Cons.prems by (auto simp: watch_line_def watch_words_def eng_report_def Let_def split: prod.splits list.splits)
  then show ?case using Cons.IH by simp
qed simp

lemma still_unreported:
  "\<forall>x \<in> set ls. \<not> says_word ''CONNECTED'' x \<and> \<not> says_word ''ERROR'' x \<Longrightarrow> reported (fold watch_line ls e) = reported e"
proof (induction ls arbitrary: e)
  case (Cons x ls)
  then have q: "\<not> says_word ''CONNECTED'' x" "\<not> says_word ''ERROR'' x" by simp_all
  have "reported (watch_line x e) = reported e"
  proof (cases "str_fields (snd x)")
    case (Cons w ws)
    then show ?thesis
      using q by (cases x) (simp add: watch_line_def watch_words_def says_word_def Let_def)
  qed (cases x; simp add: watch_line_def watch_words_def)
  then show ?case using Cons by simp
qed simp

lemma contains_mid: "contains (a @ t @ b) t"
proof (induction a)
  case Nil
  have "has_prefix (t @ b) t" by (simp add: has_prefix_def)
  then show ?case by (cases "t @ b") auto
next
  case (Cons x a)
  then show ?case by simp
qed

lemma timed_out_said: "rdpErrToMessage (OtherDialError (timed_out addr)) s = T s ''ErrTimeout''"
proof -
  have "to_lower (timed_out addr) = to_lower (''RDP connect '' @ addr @ '': '') @ ''timeout'' @ '' after 45s''"
    by (simp add: timed_out_def to_lower_def lower_char_def is_upper_def)
  then have "contains (to_lower (timed_out addr)) ''timeout''" by (simp only: contains_mid)
  then show ?thesis by (simp add: rdpErrToMessage_def)
qed

lemma engine_said:
  assumes "\<forall>x \<in> set pre. \<not> says_word ''CONNECTED'' x \<and> \<not> says_word ''ERROR'' x"
  shows "(str_fields l = ''CONNECTED'' # rest \<longrightarrow>
      dial (engine_answer_of (StartEngine addr True (pre @ (t, l) # post) ex)) builtin = Inr True)"
    and "str_fields l = ''ERROR'' # cls # rest \<longrightarrow>
      (\<exists>txt. dial (engine_answer_of (StartEngine addr True (pre @ (t, l) # post) ex)) builtin =
         (if cls = ''display'' then dial NoEngine builtin else Inl (EngineError cls txt)) \<and>
       rdpErrToMessage (EngineError ''auth'' txt) s = T s ''ErrAuthFailed'' \<and>
       rdpErrToMessage (EngineError ''unreachable'' txt) s = T s ''ErrTimeout'' \<and>
       rdpErrToMessage (EngineError ''refused'' txt) s = T s ''ErrRefused'')"
    and "dial (engine_answer_of (StartEngine addr True pre True)) builtin = dial NoEngine builtin"
    and "\<exists>e. dial (engine_answer_of (StartEngine addr True pre False)) builtin = Inl e \<and> rdpErrToMessage e s = T s ''ErrTimeout''"
proof -
  have p: "reported (fold watch_line pre new_engine) = None"
    using still_unreported [OF assms] by (simp add: new_engine_def)
  have x: "reported (engine_exits e) = (case reported e of None \<Rightarrow> Some CannotRun | Some r \<Rightarrow> Some r)" for e
    by (simp add: engine_exits_def eng_report_def split: option.splits)
  have after: "reported (fold watch_line (pre @ (t, l) # post) new_engine) = Some r"
    if "reported (watch_line (t, l) (fold watch_line pre new_engine)) = Some r" for r
    using reported_stays [OF that] by simp
  show "str_fields l = ''CONNECTED'' # rest \<longrightarrow>
      dial (engine_answer_of (StartEngine addr True (pre @ (t, l) # post) ex)) builtin = Inr True"
    using after [of Connected] p
    by (auto simp: StartEngine_def x engine_answer_of_def dial_def watch_line_def watch_words_def eng_report_def Let_def)
  have err: "reported (fold watch_line (pre @ (t, l) # post) new_engine) =
      Some (if cls = ''display'' then CannotRun else CannotConnect (engine_says (str_fields l)))"
    if "str_fields l = ''ERROR'' # cls # rest"
    by (rule after) (use that p in \<open>simp add: watch_line_def watch_words_def eng_report_def\<close>)
  have cls: "Class (engine_says (str_fields l)) = cls" if "str_fields l = ''ERROR'' # cls # rest"
    using that by (simp add: engine_says_def)
  show "str_fields l = ''ERROR'' # cls # rest \<longrightarrow>
      (\<exists>txt. dial (engine_answer_of (StartEngine addr True (pre @ (t, l) # post) ex)) builtin =
         (if cls = ''display'' then dial NoEngine builtin else Inl (EngineError cls txt)) \<and>
       rdpErrToMessage (EngineError ''auth'' txt) s = T s ''ErrAuthFailed'' \<and>
       rdpErrToMessage (EngineError ''unreachable'' txt) s = T s ''ErrTimeout'' \<and>
       rdpErrToMessage (EngineError ''refused'' txt) s = T s ''ErrRefused'')"
  proof
    assume a: "str_fields l = ''ERROR'' # cls # rest"
    show "\<exists>txt. dial (engine_answer_of (StartEngine addr True (pre @ (t, l) # post) ex)) builtin =
         (if cls = ''display'' then dial NoEngine builtin else Inl (EngineError cls txt)) \<and>
       rdpErrToMessage (EngineError ''auth'' txt) s = T s ''ErrAuthFailed'' \<and>
       rdpErrToMessage (EngineError ''unreachable'' txt) s = T s ''ErrTimeout'' \<and>
       rdpErrToMessage (EngineError ''refused'' txt) s = T s ''ErrRefused''"
      by (rule exI [of _ "''RDP connect '' @ addr @ '': '' @ engine_error_text (engine_says (str_fields l))"])
        (use err [OF a] cls [OF a] in \<open>simp add: StartEngine_def Let_def x engine_answer_of_def dial_def rdpErrToMessage_def\<close>)
  qed
  show "dial (engine_answer_of (StartEngine addr True pre True)) builtin = dial NoEngine builtin"
    using p by (simp add: StartEngine_def x engine_answer_of_def dial_def)
  show "\<exists>e. dial (engine_answer_of (StartEngine addr True pre False)) builtin = Inl e \<and> rdpErrToMessage e s = T s ''ErrTimeout''"
    using p timed_out_said by (simp add: StartEngine_def engine_answer_of_def dial_def)
qed

text \<open>C32. What comes of a connection that the engine was asked for is its first word on it. That it is up makes the
  session; that it has no display to drive, or that it ended without a word, leaves the connection to the built-in
  client; any other error is the connection's, and the dialog says that the account was turned down, that
  the server cannot be reached or that it refused, as the engine has sorted it; and
  an engine that says nothing is given up on as a server that does not answer.\<close>

theorem engine_failure_said:
  assumes "\<forall>x \<in> set pre. \<not> says_word ''CONNECTED'' x \<and> \<not> says_word ''ERROR'' x"
  shows "(str_fields l = ''CONNECTED'' # rest \<longrightarrow>
      dial (engine_answer_of (StartEngine addr True (pre @ (t, l) # post) ex)) builtin = Inr True) \<and>
    (str_fields l = ''ERROR'' # cls # rest \<longrightarrow>
      (\<exists>txt. dial (engine_answer_of (StartEngine addr True (pre @ (t, l) # post) ex)) builtin =
         (if cls = ''display'' then dial NoEngine builtin else Inl (EngineError cls txt)) \<and>
       rdpErrToMessage (EngineError ''auth'' txt) s = T s ''ErrAuthFailed'' \<and>
       rdpErrToMessage (EngineError ''unreachable'' txt) s = T s ''ErrTimeout'' \<and>
       rdpErrToMessage (EngineError ''refused'' txt) s = T s ''ErrRefused'')) \<and>
    dial (engine_answer_of (StartEngine addr True pre True)) builtin = dial NoEngine builtin \<and>
    (\<exists>e. dial (engine_answer_of (StartEngine addr True pre False)) builtin = Inl e \<and>
       rdpErrToMessage e s = T s ''ErrTimeout'')"
  by (intro conjI engine_said [OF assms])

lemma engine_failure_said_witness:
  "\<exists>txt. dial (engine_answer_of (StartEngine ''pc:3389'' True ([(1, ''MODE 1920 1080 60 HDMI-1'')] @ (2, ''ERROR auth X'') # []) False)) None =
     Inl (EngineError ''auth'' txt)"
proof -
  have f: "str_fields ''MODE 1920 1080 60 HDMI-1'' = [''MODE'', ''1920'', ''1080'', ''60'', ''HDMI-1'']"
    "str_fields ''ERROR auth X'' = ''ERROR'' # ''auth'' # [''X'']"
    by (simp_all add: str_fields_def is_space_def)
  then have "\<forall>x \<in> set [(1, ''MODE 1920 1080 60 HDMI-1'')]. \<not> says_word ''CONNECTED'' x \<and> \<not> says_word ''ERROR'' x"
    by (simp add: says_word_def)
  from engine_failure_said [OF this, of "''ERROR auth X''" "[''X'']" "''pc:3389''" 2 "[]" False None "''auth''"] f(2)
  show ?thesis by auto
qed

end
