(* ===== verification/Framebuffer.thy ===== *)
theory Framebuffer
  imports Prelude
begin

unbundle bit_operations_syntax

text \<open>
  \<open>internal/framebuffer\<close>: the screen as the kernel maps it (\<open>fb.go\<close>), and the one the kiosk
  draws on, a whole number of times smaller (\<open>scaled.go\<close>). What the code asks of a screen is the locale
  \<open>screen\<close>, which both satisfy. The ioctls and the mapping itself are arguments.
\<close>

section \<open>Images\<close>

record rect =
  MinX :: int
  MinY :: int
  MaxX :: int
  MaxY :: int

definition mk_rect :: "int \<Rightarrow> int \<Rightarrow> int \<Rightarrow> int \<Rightarrow> rect" where
  \<comment> \<open>\<open>image.Rect\<close>, which puts its corners in order\<close>
  "mk_rect x0 y0 x1 y1 = \<lparr>MinX = min x0 x1, MinY = min y0 y1, MaxX = max x0 x1, MaxY = max y0 y1\<rparr>"

definition rect_empty :: "rect \<Rightarrow> bool" where
  "rect_empty r \<longleftrightarrow> MinX r \<ge> MaxX r \<or> MinY r \<ge> MaxY r"

definition intersect :: "rect \<Rightarrow> rect \<Rightarrow> rect" where
  \<comment> \<open>\<open>Rectangle.Intersect\<close>\<close>
  "intersect r s =
     (let t = \<lparr>MinX = max (MinX r) (MinX s), MinY = max (MinY r) (MinY s), MaxX = min (MaxX r) (MaxX s),
            MaxY = min (MaxY r) (MaxY s)\<rparr>
      in if rect_empty t then \<lparr>MinX = 0, MinY = 0, MaxX = 0, MaxY = 0\<rparr> else t)"

definition in_rect :: "int \<Rightarrow> int \<Rightarrow> rect \<Rightarrow> bool" where
  "in_rect x y r \<longleftrightarrow> MinX r \<le> x \<and> x < MaxX r \<and> MinY r \<le> y \<and> y < MaxY r"

definition overlaps :: "rect \<Rightarrow> rect \<Rightarrow> bool" where
  "overlaps r s \<longleftrightarrow> \<not> rect_empty r \<and> \<not> rect_empty s \<and>
     MinX r < MaxX s \<and> MinX s < MaxX r \<and> MinY r < MaxY s \<and> MinY s < MaxY r"

record rgba =
  Red :: byte
  Green :: byte
  Blue :: byte
  Alpha :: byte

record rgba_image =
  Bounds :: rect
  Pixel :: "int \<Rightarrow> int \<Rightarrow> rgba"     \<comment> \<open>\<open>Pix\<close>, by coordinates; only those within the bounds mean anything\<close>

lemma in_intersect [simp]: "in_rect x y (intersect r s) \<longleftrightarrow> in_rect x y r \<and> in_rect x y s"
  by (auto simp: in_rect_def intersect_def rect_empty_def Let_def)

lemma empty_iff: "rect_empty r \<Longrightarrow> \<not> in_rect x y r"
  by (auto simp: in_rect_def rect_empty_def)

section \<open>The framebuffer\<close>

record fb =
  fb_width :: nat
  fb_height :: nat
  fb_stride :: nat
  fb_bpp :: nat
  rOff :: nat
  gOff :: nat
  bOff :: nat
  rLen :: nat
  gLen :: nat
  bLen :: nat
  fb_data :: bytes

record fb_info =
  \<comment> \<open>what \<open>FBIOGET_VSCREENINFO\<close> answers, of what is used of it\<close>
  Xres :: nat
  Yres :: nat
  BitsPerPixel :: nat
  RedField :: "nat \<times> nat"     \<comment> \<open>offset and length\<close>
  GreenField :: "nat \<times> nat"
  BlueField :: "nat \<times> nat"

definition default_fields :: "nat \<Rightarrow> fb \<Rightarrow> fb" where
  "default_fields bpp f =
     (if rLen f = 0 \<or> gLen f = 0 \<or> bLen f = 0 then
        (if bpp = 2 then f\<lparr>rOff := 11, rLen := 5, gOff := 5, gLen := 6, bOff := 0, bLen := 5\<rparr>
         else f\<lparr>rOff := 16, rLen := 8, gOff := 8, gLen := 8, bOff := 0, bLen := 8\<rparr>)
      else f)"

definition Open :: "fb_info option \<Rightarrow> nat option \<Rightarrow> (nat \<Rightarrow> bytes option) \<Rightarrow> fb option" where
  \<comment> \<open>what the two ioctls answer, and the mapping of so many bytes; \<open>None\<close>: an error\<close>
  "Open vinfo line mmap =
     (case vinfo of None \<Rightarrow> None
      | Some v \<Rightarrow>
        let bpp = BitsPerPixel v div 8
        in if \<not> (bpp = 2 \<or> bpp = 3 \<or> bpp = 4) then None
           else
             let tight = Xres v * bpp;
                 stride = (case line of Some l \<Rightarrow> if l \<ge> tight then l else tight | None \<Rightarrow> tight)
             in case mmap (stride * Yres v) of None \<Rightarrow> None
                | Some d \<Rightarrow>
                  Some (default_fields bpp
                    \<lparr>fb_width = Xres v, fb_height = Yres v, fb_stride = stride, fb_bpp = bpp, rOff = fst (RedField v),
                      gOff = fst (GreenField v), bOff = fst (BlueField v), rLen = snd (RedField v), gLen = snd (GreenField v),
                      bLen = snd (BlueField v), fb_data = d\<rparr>))"

definition fb_xrgb :: "fb \<Rightarrow> bool" where
  "fb_xrgb f \<longleftrightarrow> fb_bpp f = 4 \<and> rOff f = 16 \<and> gOff f = 8 \<and> bOff f = 0 \<and> rLen f = 8 \<and> gLen f = 8 \<and> bLen f = 8"

definition fb_bounds :: "fb \<Rightarrow> rect" where
  "fb_bounds f = mk_rect 0 0 (int (fb_width f)) (int (fb_height f))"

definition scale_channel :: "byte \<Rightarrow> nat \<Rightarrow> u32" where
  \<comment> \<open>\<open>scale\<close>\<close>
  "scale_channel v n = (if n \<le> 8 then drop_bit (8 - n) (ucast v) else push_bit (n - 8) (ucast v))"

definition pack :: "fb \<Rightarrow> rgba \<Rightarrow> u32" where
  "pack f c =
     push_bit (rOff f) (scale_channel (Red c) (rLen f)) OR push_bit (gOff f) (scale_channel (Green c) (gLen f)) OR
     push_bit (bOff f) (scale_channel (Blue c) (bLen f))"

definition pixel_bytes :: "fb \<Rightarrow> rgba \<Rightarrow> bytes" where
  \<comment> \<open>one pixel of \<open>packRow\<close>\<close>
  "pixel_bytes f c =
     (if fb_xrgb f then [Blue c, Green c, Red c, 0xff]
      else map (\<lambda>i. ucast (drop_bit (8 * i) (pack f c))) [0 ..< fb_bpp f])"

definition packRow :: "fb \<Rightarrow> rgba list \<Rightarrow> bytes" where
  "packRow f cs = concat (map (pixel_bytes f) cs)"

definition put_at :: "nat \<Rightarrow> bytes \<Rightarrow> bytes \<Rightarrow> bytes" where
  \<comment> \<open>\<open>copy(d[off:off+len(b)], b)\<close>\<close>
  "put_at off b d = take off d @ b @ drop (off + length b) d"

definition blit_row :: "rgba_image \<Rightarrow> rect \<Rightarrow> int \<Rightarrow> fb \<Rightarrow> fb" where
  "blit_row img r y f =
     f\<lparr>fb_data := put_at (nat y * fb_stride f + nat (MinX r) * fb_bpp f)
        (packRow f (map (\<lambda>x. Pixel img x y) [MinX r .. MaxX r - 1])) (fb_data f)\<rparr>"

definition BlitRect :: "rgba_image \<Rightarrow> rect \<Rightarrow> fb \<Rightarrow> fb" where
  "BlitRect img r0 f =
     (let r = intersect (intersect r0 (fb_bounds f)) (Bounds img)
      in if rect_empty r then f else fold (blit_row img r) [MinY r .. MaxY r - 1] f)"

definition WritePixel :: "int \<Rightarrow> int \<Rightarrow> rgba \<Rightarrow> fb \<Rightarrow> fb" where
  "WritePixel x y c f =
     (if x < 0 \<or> x \<ge> int (fb_width f) \<or> y < 0 \<or> y \<ge> int (fb_height f) then f
      else f\<lparr>fb_data := put_at (nat y * fb_stride f + nat x * fb_bpp f) (pixel_bytes f c) (fb_data f)\<rparr>)"

section \<open>What is on it\<close>

definition fb_ok :: "fb \<Rightarrow> bool" where
  "fb_ok f \<longleftrightarrow> fb_bpp f \<in> {2, 3, 4} \<and> fb_width f * fb_bpp f \<le> fb_stride f \<and> length (fb_data f) = fb_stride f * fb_height f"

definition fb_shown :: "fb \<Rightarrow> int \<Rightarrow> int \<Rightarrow> bytes" where
  \<comment> \<open>the bytes of a pixel\<close>
  "fb_shown f x y = take (fb_bpp f) (drop (nat y * fb_stride f + nat x * fb_bpp f) (fb_data f))"

lemma pixel_bytes_length: "fb_ok f \<Longrightarrow> length (pixel_bytes f c) = fb_bpp f"
  by (auto simp: pixel_bytes_def fb_xrgb_def fb_ok_def)

lemma Open_ok:
  assumes "Open v l mmap = Some f" "\<forall>n d. mmap n = Some d \<longrightarrow> length d = n"
  shows "fb_ok f"
  using assms
  by (auto simp: Open_def fb_ok_def default_fields_def Let_def split: option.splits if_splits)

lemma put_length: "off + length b \<le> length d \<Longrightarrow> length (put_at off b d) = length d"
  by (simp add: put_at_def)

lemma put_outside:
  assumes "off + length b \<le> length d" "i + n \<le> off \<or> off + length b \<le> i"
  shows "take n (drop i (put_at off b d)) = take n (drop i d)"
proof (cases "i + n \<le> off")
  case True
  with assms(1) have l: "i \<le> off" "off \<le> length d" "n \<le> off - i" by simp_all
  then have "drop i (put_at off b d) = take (off - i) (drop i d) @ b @ drop (off + length b) d"
    by (simp add: put_at_def drop_take)
  with l show ?thesis by simp
next
  case False
  then obtain k where "i = off + length b + k" using assms(2) le_Suc_ex by blast
  then show ?thesis using assms(1) by (simp add: put_at_def add.commute add.left_commute)
qed

lemma put_inside:
  assumes "off \<le> length d" "off \<le> i" "i + n \<le> off + length b"
  shows "take n (drop i (put_at off b d)) = take n (drop (i - off) b)"
  using assms by (simp add: put_at_def)

lemma packRow_length: "fb_ok f \<Longrightarrow> length (packRow f cs) = length cs * fb_bpp f"
  by (induction cs) (simp_all add: packRow_def pixel_bytes_length)

lemma packRow_nth:
  assumes "fb_ok f" "k < length cs"
  shows "take (fb_bpp f) (drop (k * fb_bpp f) (packRow f cs)) = pixel_bytes f (cs ! k)"
  using assms(2)
proof (induction cs arbitrary: k)
  case (Cons c cs)
  then show ?case
    using pixel_bytes_length [OF assms(1), of c] by (cases k) (simp_all add: packRow_def)
qed simp

lemma slot_rows:
  assumes "u < w" "w * b \<le> (st::nat)" "v < y"
  shows "v * st + u * b + b \<le> y * st"
proof -
  have "u * b + b \<le> w * b" using assms(1) mult_le_mono1 [of "Suc u" w b] by simp
  also have "\<dots> \<le> st" by (rule assms(2))
  finally have "v * st + (u * b + b) \<le> Suc v * st" by simp
  also have "\<dots> \<le> y * st" using assms(3) by (intro mult_le_mono1) simp
  finally show ?thesis by simp
qed

lemma fb_frame [simp]:
  "fb_width (f\<lparr>fb_data := d\<rparr>) = fb_width f" "pack (f\<lparr>fb_data := d\<rparr>) = pack f" "pixel_bytes (f\<lparr>fb_data := d\<rparr>) = pixel_bytes f"
  "fb_bounds (f\<lparr>fb_data := d\<rparr>) = fb_bounds f"
  by (auto simp: pack_def pixel_bytes_def fb_xrgb_def fb_bounds_def fun_eq_iff)

lemma in_bounds: "in_rect x y (fb_bounds f) \<longleftrightarrow> 0 \<le> x \<and> x < int (fb_width f) \<and> 0 \<le> y \<and> y < int (fb_height f)"
  by (auto simp: in_rect_def fb_bounds_def mk_rect_def)

text \<open>Writing a stretch of a row: within the mapping, and only its own pixels change.\<close>

definition put_row :: "nat \<Rightarrow> nat \<Rightarrow> rgba list \<Rightarrow> fb \<Rightarrow> fb" where
  "put_row y a cs f = f\<lparr>fb_data := put_at (y * fb_stride f + a * fb_bpp f) (packRow f cs) (fb_data f)\<rparr>"

lemma put_row_fits:
  assumes "fb_ok f" "y < fb_height f" "a + length cs \<le> fb_width f"
  shows "y * fb_stride f + a * fb_bpp f + length (packRow f cs) \<le> length (fb_data f)"
proof (cases "cs = []")
  case True
  have "a * fb_bpp f \<le> fb_width f * fb_bpp f" using assms(3) by (intro mult_le_mono1) simp
  also have "\<dots> \<le> fb_stride f" using assms(1) by (simp add: fb_ok_def)
  finally have "a * fb_bpp f \<le> fb_stride f" .
  then have "y * fb_stride f + a * fb_bpp f \<le> Suc y * fb_stride f" by simp
  also have "\<dots> \<le> fb_height f * fb_stride f" using assms(2) by (intro mult_le_mono1) simp
  finally show ?thesis using assms(1) True by (simp add: fb_ok_def packRow_def mult.commute)
next
  case False
  have "(a + length cs) * fb_bpp f \<le> fb_width f * fb_bpp f" using assms(3) by (intro mult_le_mono1)
  also have "\<dots> \<le> fb_stride f" using assms(1) by (simp add: fb_ok_def)
  finally have "y * fb_stride f + (a + length cs) * fb_bpp f \<le> Suc y * fb_stride f" by simp
  also have "\<dots> \<le> fb_height f * fb_stride f" using assms(2) by (intro mult_le_mono1) simp
  finally show ?thesis using assms(1) by (simp add: packRow_length fb_ok_def algebra_simps)
qed

lemma put_row_ok: "fb_ok f \<Longrightarrow> y < fb_height f \<Longrightarrow> a + length cs \<le> fb_width f \<Longrightarrow> fb_ok (put_row y a cs f)"
  using put_row_fits [of f y a cs] put_length [of "y * fb_stride f + a * fb_bpp f" "packRow f cs" "fb_data f"]
  by (auto simp: put_row_def fb_ok_def)

lemma put_row_shown:
  assumes ok: "fb_ok f" and r: "y < fb_height f" "a + length cs \<le> fb_width f" and p: "u < fb_width f"
  shows "fb_shown (put_row y a cs f) (int u) (int v) =
    (if v = y \<and> a \<le> u \<and> u < a + length cs then pixel_bytes f (cs ! (u - a)) else fb_shown f (int u) (int v))"
proof -
  let ?st = "fb_stride f" and ?b = "fb_bpp f"
  let ?off = "y * ?st + a * ?b" and ?i = "v * ?st + u * ?b"
  have w: "fb_width f * ?b \<le> ?st" using ok by (simp add: fb_ok_def)
  have len: "length (packRow f cs) = length cs * ?b" by (rule packRow_length [OF ok])
  note fits = put_row_fits [OF ok r]
  have sh: "fb_shown (put_row y a cs f) (int u) (int v) = take ?b (drop ?i (put_at ?off (packRow f cs) (fb_data f)))"
    by (simp add: fb_shown_def put_row_def)
  have sh0: "fb_shown f (int u) (int v) = take ?b (drop ?i (fb_data f))" by (simp add: fb_shown_def)
  show ?thesis
  proof (cases "v = y \<and> a \<le> u \<and> u < a + length cs")
    case True
    then have k: "?i - ?off = (u - a) * ?b" "?off \<le> ?i" "?i + ?b \<le> ?off + length (packRow f cs)"
    proof -
      have m: "a * ?b \<le> u * ?b" "Suc u * ?b \<le> (a + length cs) * ?b" using True mult_le_mono1 [of a u ?b] mult_le_mono1 [of "Suc u" "a + length cs" ?b] by simp_all
      then show "?i - ?off = (u - a) * ?b" "?off \<le> ?i" "?i + ?b \<le> ?off + length (packRow f cs)"
        using True len by (simp_all add: algebra_simps diff_mult_distrib)
    qed
    have "take ?b (drop ?i (put_at ?off (packRow f cs) (fb_data f))) = take ?b (drop ((u - a) * ?b) (packRow f cs))"
      using put_inside [OF _ k(2,3)] fits k(1) by simp
    moreover have "u - a < length cs" using True by linarith
    ultimately show ?thesis using True sh packRow_nth [OF ok, of "u - a" cs] by simp
  next
    case False
    have "?i + ?b \<le> ?off \<or> ?off + length (packRow f cs) \<le> ?i"
    proof -
      consider "v < y" | "y < v" | "v = y" "u < a" | "v = y" "a + length cs \<le> u" using False by linarith
      then show ?thesis
      proof cases
        case 1
        with slot_rows [OF p w this] show ?thesis by simp
      next
        case 2
        have "(a + length cs) * ?b \<le> ?st" by (rule order.trans [OF mult_le_mono1 [OF r(2)] w])
        then have "y * ?st + (a + length cs) * ?b \<le> Suc y * ?st" by simp
        also have "\<dots> \<le> v * ?st" using 2 by (intro mult_le_mono1) simp
        finally show ?thesis using len by (simp add: algebra_simps)
      next
        case 3
        then show ?thesis using mult_le_mono1 [of "Suc u" a ?b] by simp
      next
        case 4
        then show ?thesis using mult_le_mono1 [of "a + length cs" u ?b] len by (simp add: algebra_simps)
      qed
    qed
    from put_outside [OF fits this] show ?thesis unfolding if_not_P [OF False] sh sh0 .
  qed
qed

lemma put_row_same [simp]:
  "fb_width (put_row y a cs f) = fb_width f" "fb_height (put_row y a cs f) = fb_height f" "fb_bounds (put_row y a cs f) = fb_bounds f"
  "pixel_bytes (put_row y a cs f) = pixel_bytes f"
  by (simp_all add: put_row_def)

lemma blit_row_put: "blit_row img r y f = put_row (nat y) (nat (MinX r)) (map (\<lambda>x. Pixel img x y) [MinX r .. MaxX r - 1]) f"
  by (simp add: blit_row_def put_row_def)

lemma blit_rows:
  assumes "fb_ok f" "0 \<le> MinX r" "MinX r \<le> MaxX r" "MaxX r \<le> int (fb_width f)"
    "\<forall>y \<in> set ys. 0 \<le> y \<and> y < int (fb_height f)"
  shows "let g = fold (blit_row img r) ys f in
    fb_ok g \<and> fb_bounds g = fb_bounds f \<and> fb_width g = fb_width f \<and> fb_height g = fb_height f \<and> pixel_bytes g = pixel_bytes f \<and>
    (\<forall>u v. 0 \<le> u \<and> u < int (fb_width f) \<and> 0 \<le> v \<longrightarrow>
       fb_shown g u v = (if v \<in> set ys \<and> MinX r \<le> u \<and> u < MaxX r then pixel_bytes f (Pixel img u v) else fb_shown f u v))"
  using assms(1,4,5)
proof (induction ys arbitrary: f)
  case (Cons y ys)
  let ?cs = "map (\<lambda>x. Pixel img x y) [MinX r .. MaxX r - 1]"
  define g where "g = blit_row img r y f"
  have g: "g = put_row (nat y) (nat (MinX r)) ?cs f" by (simp add: g_def blit_row_put)
  have fit: "nat y < fb_height f" "nat (MinX r) + length ?cs \<le> fb_width f"
    using Cons.prems(2,3) assms(2,3) by auto
  have ok: "fb_ok g" unfolding g by (rule put_row_ok [OF Cons.prems(1) fit])
  have sh: "fb_shown g u v = (if v = y \<and> MinX r \<le> u \<and> u < MaxX r then pixel_bytes f (Pixel img u v) else fb_shown f u v)"
    if "0 \<le> u" "u < int (fb_width f)" "0 \<le> v" for u v
  proof -
    have y: "0 \<le> y" using Cons.prems(3) by simp
    have "fb_shown g (int (nat u)) (int (nat v)) = (if nat v = nat y \<and> nat (MinX r) \<le> nat u \<and> nat u < nat (MinX r) + length ?cs
        then pixel_bytes f (?cs ! (nat u - nat (MinX r))) else fb_shown f (int (nat u)) (int (nat v)))"
      unfolding g by (rule put_row_shown [OF Cons.prems(1) fit]) (use that in simp)
    moreover have "nat v = nat y \<and> nat (MinX r) \<le> nat u \<and> nat u < nat (MinX r) + length ?cs \<longleftrightarrow> v = y \<and> MinX r \<le> u \<and> u < MaxX r"
      using that assms(2,3) y by auto
    moreover have "?cs ! (nat u - nat (MinX r)) = Pixel img u v" if "v = y" "MinX r \<le> u" "u < MaxX r"
      using that \<open>0 \<le> u\<close> assms(2) by (simp add: nth_map)
    ultimately show ?thesis using that by auto
  qed
  have same: "fb_width g = fb_width f" "fb_height g = fb_height f" "fb_bounds g = fb_bounds f" "pixel_bytes g = pixel_bytes f"
    by (simp_all add: g)
  show ?case
    using Cons.IH [OF ok] Cons.prems(2,3) same sh by (auto simp: Let_def g_def [symmetric])
qed simp

lemma BlitRect_shown:
  assumes "fb_ok f"
  shows "fb_ok (BlitRect img r f)" "fb_bounds (BlitRect img r f) = fb_bounds f" "pixel_bytes (BlitRect img r f) = pixel_bytes f"
    "in_rect u v (fb_bounds f) \<Longrightarrow> fb_shown (BlitRect img r f) u v =
      (if in_rect u v r \<and> in_rect u v (Bounds img) then pixel_bytes f (Pixel img u v) else fb_shown f u v)"
proof -
  define q where "q = intersect (intersect r (fb_bounds f)) (Bounds img)"
  have i: "in_rect x y q \<longleftrightarrow> in_rect x y r \<and> in_rect x y (fb_bounds f) \<and> in_rect x y (Bounds img)" for x y
    by (auto simp: q_def)
  have "fb_ok (BlitRect img r f) \<and> fb_bounds (BlitRect img r f) = fb_bounds f \<and> pixel_bytes (BlitRect img r f) = pixel_bytes f \<and>
    (in_rect u v (fb_bounds f) \<longrightarrow> fb_shown (BlitRect img r f) u v =
      (if in_rect u v r \<and> in_rect u v (Bounds img) then pixel_bytes f (Pixel img u v) else fb_shown f u v))"
  proof (cases "rect_empty q")
    case True
    then have "BlitRect img r f = f" by (simp add: BlitRect_def q_def Let_def)
    then show ?thesis using assms empty_iff [OF True, of u v] i by auto
  next
    case False
    then have "in_rect (MinX q) (MinY q) q" "in_rect (MaxX q - 1) (MaxY q - 1) q"
      by (auto simp: in_rect_def rect_empty_def)
    then have c: "in_rect (MinX q) (MinY q) (fb_bounds f)" "in_rect (MaxX q - 1) (MaxY q - 1) (fb_bounds f)"
      using i by blast+
    have h: "0 \<le> MinX q" "MinX q \<le> MaxX q" "MaxX q \<le> int (fb_width f)"
      "\<forall>y \<in> set [MinY q .. MaxY q - 1]. 0 \<le> y \<and> y < int (fb_height f)"
      using c False by (auto simp: in_bounds rect_empty_def)
    have "BlitRect img r f = fold (blit_row img q) [MinY q .. MaxY q - 1] f"
      using False by (simp add: BlitRect_def q_def Let_def)
    moreover have "v \<in> set [MinY q .. MaxY q - 1] \<and> MinX q \<le> u \<and> u < MaxX q \<longleftrightarrow> in_rect u v q"
      by (auto simp: in_rect_def)
    ultimately show ?thesis
      using blit_rows [OF assms h, of img] i [of u v] by (auto simp: Let_def in_bounds)
  qed
  then show "fb_ok (BlitRect img r f)" "fb_bounds (BlitRect img r f) = fb_bounds f" "pixel_bytes (BlitRect img r f) = pixel_bytes f"
    "in_rect u v (fb_bounds f) \<Longrightarrow> fb_shown (BlitRect img r f) u v =
      (if in_rect u v r \<and> in_rect u v (Bounds img) then pixel_bytes f (Pixel img u v) else fb_shown f u v)"
    by blast+
qed

lemma WritePixel_shown:
  assumes "fb_ok f"
  shows "fb_ok (WritePixel x y c f)" "fb_bounds (WritePixel x y c f) = fb_bounds f" "pixel_bytes (WritePixel x y c f) = pixel_bytes f"
    "in_rect u v (fb_bounds f) \<Longrightarrow> fb_shown (WritePixel x y c f) u v = (if u = x \<and> v = y then pixel_bytes f c else fb_shown f u v)"
proof -
  have w: "WritePixel x y c f = (if in_rect x y (fb_bounds f) then put_row (nat y) (nat x) [c] f else f)"
    by (auto simp: WritePixel_def in_bounds put_row_def packRow_def)
  have fit: "nat y < fb_height f" "nat x + length [c] \<le> fb_width f" if "in_rect x y (fb_bounds f)"
    using that by (auto simp: in_bounds)
  show "fb_ok (WritePixel x y c f)" "fb_bounds (WritePixel x y c f) = fb_bounds f" "pixel_bytes (WritePixel x y c f) = pixel_bytes f"
    using put_row_ok [OF assms fit] assms by (auto simp: w)
  assume p: "in_rect u v (fb_bounds f)"
  then show "fb_shown (WritePixel x y c f) u v = (if u = x \<and> v = y then pixel_bytes f c else fb_shown f u v)"
  proof (cases "in_rect x y (fb_bounds f)")
    case True
    have "nat u < fb_width f" using p by (auto simp: in_bounds)
    from put_row_shown [OF assms fit [OF True] this, of "nat v"] show ?thesis
      using True p by (auto simp: w in_bounds nat_eq_iff le_Suc_eq)
  qed (auto simp: w)
qed

section \<open>What the code asks of a screen\<close>

record 'd device_ops =
  dev_width :: "'d \<Rightarrow> int"
  dev_height :: "'d \<Rightarrow> int"
  dev_bounds :: "'d \<Rightarrow> rect"
  dev_blit :: "rgba_image \<Rightarrow> rect \<Rightarrow> 'd \<Rightarrow> 'd"
  dev_pixel :: "int \<Rightarrow> int \<Rightarrow> rgba \<Rightarrow> 'd \<Rightarrow> 'd"

definition Blit :: "'d device_ops \<Rightarrow> rgba_image \<Rightarrow> 'd \<Rightarrow> 'd" where
  \<comment> \<open>a whole frame; the \<open>Flush\<close> after it asks the kernel to put on the glass what is in the mapping\<close>
  "Blit ops img d = dev_blit ops img (Bounds img) d"

locale screen =
  fixes ops :: "'d device_ops" and ok :: "'d \<Rightarrow> bool" and px :: "'d \<Rightarrow> rgba \<Rightarrow> 'p" and shown :: "'d \<Rightarrow> int \<Rightarrow> int \<Rightarrow> 'p"
  assumes bounds_size: "ok d \<Longrightarrow> dev_bounds ops d = mk_rect 0 0 (dev_width ops d) (dev_height ops d)"
    and size_nonneg: "ok d \<Longrightarrow> 0 \<le> dev_width ops d \<and> 0 \<le> dev_height ops d"
    and blit_ok: "ok d \<Longrightarrow> ok (dev_blit ops img r d)"
    and blit_width: "ok d \<Longrightarrow> dev_width ops (dev_blit ops img r d) = dev_width ops d"
    and blit_height: "ok d \<Longrightarrow> dev_height ops (dev_blit ops img r d) = dev_height ops d"
    and blit_px: "ok d \<Longrightarrow> px (dev_blit ops img r d) = px d"
    and blit_shown: "ok d \<Longrightarrow> in_rect u v (dev_bounds ops d) \<Longrightarrow> shown (dev_blit ops img r d) u v =
        (if in_rect u v r \<and> in_rect u v (Bounds img) then px d (Pixel img u v) else shown d u v)"
    and pixel_ok: "ok d \<Longrightarrow> ok (dev_pixel ops x y c d)"
    and pixel_width: "ok d \<Longrightarrow> dev_width ops (dev_pixel ops x y c d) = dev_width ops d"
    and pixel_height: "ok d \<Longrightarrow> dev_height ops (dev_pixel ops x y c d) = dev_height ops d"
    and pixel_px: "ok d \<Longrightarrow> px (dev_pixel ops x y c d) = px d"
    and pixel_shown: "ok d \<Longrightarrow> in_rect u v (dev_bounds ops d) \<Longrightarrow>
        shown (dev_pixel ops x y c d) u v = (if u = x \<and> v = y then px d c else shown d u v)"
begin

lemma blit_bounds: "ok d \<Longrightarrow> dev_bounds ops (dev_blit ops img r d) = dev_bounds ops d"
  by (simp add: bounds_size blit_ok blit_width blit_height)

lemma pixel_bounds: "ok d \<Longrightarrow> dev_bounds ops (dev_pixel ops x y c d) = dev_bounds ops d"
  by (simp add: bounds_size pixel_ok pixel_width pixel_height)

lemmas blit_same = blit_ok blit_width blit_height blit_px blit_bounds
lemmas pixel_same = pixel_ok pixel_width pixel_height pixel_px pixel_bounds

lemma in_screen: "ok d \<Longrightarrow> in_rect u v (dev_bounds ops d) \<longleftrightarrow>
  0 \<le> u \<and> u < dev_width ops d \<and> 0 \<le> v \<and> v < dev_height ops d"
  using size_nonneg [of d] by (auto simp: bounds_size in_rect_def mk_rect_def)

text \<open>A run of single pixels of one colour.\<close>

lemma pixels_same:
  assumes "ok d"
  shows "ok (fold (\<lambda>(x, y). dev_pixel ops x y c) ps d)"
    and "dev_width ops (fold (\<lambda>(x, y). dev_pixel ops x y c) ps d) = dev_width ops d"
    and "dev_height ops (fold (\<lambda>(x, y). dev_pixel ops x y c) ps d) = dev_height ops d"
    and "px (fold (\<lambda>(x, y). dev_pixel ops x y c) ps d) = px d"
    and "dev_bounds ops (fold (\<lambda>(x, y). dev_pixel ops x y c) ps d) = dev_bounds ops d"
  using assms by (induction ps arbitrary: d) (auto simp: pixel_same)

lemma pixels_shown:
  assumes "ok d" "in_rect u v (dev_bounds ops d)"
  shows "shown (fold (\<lambda>(x, y). dev_pixel ops x y c) ps d) u v = (if (u, v) \<in> set ps then px d c else shown d u v)"
  using assms
proof (induction ps arbitrary: d)
  case (Cons p ps)
  obtain x y where p: "p = (x, y)" by (cases p)
  show ?case using Cons.IH [of "dev_pixel ops x y c d"] Cons.prems by (auto simp: p pixel_same pixel_shown)
qed simp

end

definition fb_ops :: "fb device_ops" where
  "fb_ops = \<lparr>dev_width = \<lambda>f. int (fb_width f), dev_height = \<lambda>f. int (fb_height f), dev_bounds = fb_bounds, dev_blit = BlitRect,
     dev_pixel = WritePixel\<rparr>"

lemma blit_size [simp]: "fb_width (BlitRect img r f) = fb_width f" "fb_height (BlitRect img r f) = fb_height f"
proof -
  have "fb_width (fold (blit_row img q) ys f) = fb_width f \<and> fb_height (fold (blit_row img q) ys f) = fb_height f" for q ys
    by (induction ys arbitrary: f) (simp_all add: blit_row_put)
  then show "fb_width (BlitRect img r f) = fb_width f" "fb_height (BlitRect img r f) = fb_height f"
    by (simp_all add: BlitRect_def Let_def)
qed

lemma pixel_size [simp]: "fb_width (WritePixel x y c f) = fb_width f" "fb_height (WritePixel x y c f) = fb_height f"
  by (simp_all add: WritePixel_def)

lemma fb_ops_sel [simp]:
  "dev_width fb_ops f = int (fb_width f)" "dev_height fb_ops f = int (fb_height f)" "dev_bounds fb_ops = fb_bounds"
  "dev_blit fb_ops = BlitRect" "dev_pixel fb_ops = WritePixel"
  by (simp_all add: fb_ops_def)

interpretation fbs: screen fb_ops fb_ok pixel_bytes fb_shown
  by unfold_locales (simp_all add: BlitRect_shown WritePixel_shown, simp add: fb_bounds_def)

section \<open>The kiosk's own screens, drawn larger\<close>

definition Scale :: "int \<Rightarrow> int \<Rightarrow> int" where
  "Scale w h = max 1 (min (min (w div 1920) (h div 1080)) 4)"

record 'd scaled =
  dev :: 'd
  factor :: int
  sc_w :: int
  sc_h :: int
  wide :: "int \<Rightarrow> int \<Rightarrow> rgba"     \<comment> \<open>one row widened to the device, \<open>factor\<close> rows tall: column, row\<close>

definition NewScaled :: "'d device_ops \<Rightarrow> 'd \<Rightarrow> int \<Rightarrow> 'd + 'd scaled" where
  \<comment> \<open>\<open>Inl\<close>: the device itself\<close>
  "NewScaled ops d f =
     (if f \<le> 1 then Inl d
      else Inr \<lparr>dev = d, factor = f, sc_w = dev_width ops d div f, sc_h = dev_height ops d div f,
             wide = \<lambda>_ _. \<lparr>Red = 0, Green = 0, Blue = 0, Alpha = 0\<rparr>\<rparr>)"

definition scaled_bounds :: "'d scaled \<Rightarrow> rect" where
  "scaled_bounds s = mk_rect 0 0 (sc_w s) (sc_h s)"

definition scaled_row :: "'d device_ops \<Rightarrow> rgba_image \<Rightarrow> rect \<Rightarrow> int \<Rightarrow> 'd scaled \<Rightarrow> 'd scaled" where
  "scaled_row ops img r y s =
     (let f = factor s;
          wd = (\<lambda>x i. if MinX r * f \<le> x \<and> x < MaxX r * f then Pixel img (x div f) y else wide s x i);
          strip = \<lparr>Bounds = mk_rect 0 (y * f) (dev_width ops (dev s)) (y * f + f), Pixel = \<lambda>u v. wd u (v - y * f)\<rparr>
      in s\<lparr>wide := wd, dev := dev_blit ops strip (mk_rect (MinX r * f) (y * f) (MaxX r * f) (y * f + f)) (dev s)\<rparr>)"

definition scaled_blit :: "'d device_ops \<Rightarrow> rgba_image \<Rightarrow> rect \<Rightarrow> 'd scaled \<Rightarrow> 'd scaled" where
  "scaled_blit ops img r0 s =
     (let r = intersect (intersect r0 (scaled_bounds s)) (Bounds img)
      in if rect_empty r then s else fold (scaled_row ops img r) [MinY r .. MaxY r - 1] s)"

definition scaled_pixel :: "'d device_ops \<Rightarrow> int \<Rightarrow> int \<Rightarrow> rgba \<Rightarrow> 'd scaled \<Rightarrow> 'd scaled" where
  "scaled_pixel ops x y c s =
     (if x < 0 \<or> x \<ge> sc_w s \<or> y < 0 \<or> y \<ge> sc_h s then s
      else s\<lparr>dev := fold (\<lambda>(u, v). dev_pixel ops u v c)
               [(x * factor s + dx, y * factor s + dy). dy \<leftarrow> [0 .. factor s - 1], dx \<leftarrow> [0 .. factor s - 1]] (dev s)\<rparr>)"

definition scaled_ops :: "'d device_ops \<Rightarrow> 'd scaled device_ops" where
  "scaled_ops ops = \<lparr>dev_width = sc_w, dev_height = sc_h, dev_bounds = scaled_bounds, dev_blit = scaled_blit ops,
     dev_pixel = scaled_pixel ops\<rparr>"

definition scaled_ok :: "'d device_ops \<Rightarrow> ('d \<Rightarrow> bool) \<Rightarrow> 'd scaled \<Rightarrow> bool" where
  "scaled_ok ops ok s \<longleftrightarrow> ok (dev s) \<and> 1 \<le> factor s \<and> sc_w s = dev_width ops (dev s) div factor s \<and>
     sc_h s = dev_height ops (dev s) div factor s"

definition square :: "('d \<Rightarrow> int \<Rightarrow> int \<Rightarrow> 'p) \<Rightarrow> 'd scaled \<Rightarrow> int \<Rightarrow> int \<Rightarrow> 'p list list" where
  \<comment> \<open>what is on the device where a pixel of the scaled screen is\<close>
  "square shown s u v =
     map (\<lambda>j. map (\<lambda>i. shown (dev s) (u * factor s + i) (v * factor s + j)) [0 .. factor s - 1]) [0 .. factor s - 1]"

definition filled :: "('d \<Rightarrow> rgba \<Rightarrow> 'p) \<Rightarrow> 'd scaled \<Rightarrow> rgba \<Rightarrow> 'p list list" where
  "filled px s c = map (\<lambda>j. map (\<lambda>i. px (dev s) c) [0 .. factor s - 1]) [0 .. factor s - 1]"

lemma scaled_ops_sel [simp]:
  "dev_width (scaled_ops ops) = sc_w" "dev_height (scaled_ops ops) = sc_h" "dev_bounds (scaled_ops ops) = scaled_bounds"
  "dev_blit (scaled_ops ops) = scaled_blit ops" "dev_pixel (scaled_ops ops) = scaled_pixel ops"
  by (simp_all add: scaled_ops_def)

lemma squares_eq:
  "(\<And>i j. 0 \<le> i \<Longrightarrow> i < factor s \<Longrightarrow> 0 \<le> j \<Longrightarrow> j < factor s \<Longrightarrow>
      shown (dev s) (u * factor s + i) (v * factor s + j) = p) \<Longrightarrow>
   square shown s u v = map (\<lambda>j. map (\<lambda>i. p) [0 .. factor s - 1]) [0 .. factor s - 1]"
  by (auto simp: square_def)

lemma squares_same:
  "factor t = factor s \<Longrightarrow>
   (\<And>i j. 0 \<le> i \<Longrightarrow> i < factor s \<Longrightarrow> 0 \<le> j \<Longrightarrow> j < factor s \<Longrightarrow>
      shown (dev t) (u * factor s + i) (v * factor s + j) = shown (dev s) (u * factor s + i) (v * factor s + j)) \<Longrightarrow>
   square shown t u v = square shown s u v"
  by (auto simp: square_def)

lemma in_square: "0 \<le> i \<Longrightarrow> i < f \<Longrightarrow> (u * f + i) div f = u" for f :: int
  by (simp add: div_add1_eq)

lemma square_fits:
  fixes f :: int
  assumes "1 \<le> f" "0 \<le> u" "u < w div f" "0 \<le> i" "i < f"
  shows "0 \<le> u * f + i \<and> u * f + i < w"
proof -
  have "(u + 1) * f \<le> w div f * f" using assms(1,3) by (intro mult_right_mono) simp_all
  also have "\<dots> \<le> w" using assms(1) div_mult_mod_eq [of w f] pos_mod_sign [of f w] by linarith
  finally show ?thesis using assms by (simp add: distrib_right)
qed

lemma strip_rows:
  fixes f :: int
  assumes "1 \<le> f"
  shows "v div f = y \<longleftrightarrow> y * f \<le> v \<and> v < y * f + f"
proof
  assume "v div f = y"
  then have "v = y * f + v mod f" using div_mult_mod_eq [of v f] by simp
  moreover have "0 \<le> v mod f" "v mod f < f" using assms by (simp_all add: pos_mod_bound)
  ultimately show "y * f \<le> v \<and> v < y * f + f" by linarith
next
  assume "y * f \<le> v \<and> v < y * f + f"
  then show "v div f = y" using in_square [of "v - y * f" f y] by simp
qed

lemma mult_le_iff:
  fixes f :: int
  assumes "1 \<le> f"
  shows "a * f \<le> u \<longleftrightarrow> a \<le> u div f"
proof
  assume "a * f \<le> u"
  then have "a * f div f \<le> u div f" using assms by (intro zdiv_mono1) simp_all
  then show "a \<le> u div f" using assms by simp
next
  assume "a \<le> u div f"
  then have "a * f \<le> u div f * f" using assms by (intro mult_right_mono) simp_all
  then show "a * f \<le> u" using div_mult_mod_eq [of u f] pos_mod_sign [of f u] assms by linarith
qed

lemma strip_columns: "1 \<le> f \<Longrightarrow> a * f \<le> u \<and> u < b * f \<longleftrightarrow> a \<le> u div f \<and> u div f < b" for f :: int
  using mult_le_iff [of f a u] mult_le_iff [of f b u] by linarith

context screen
begin

lemma scaled_row_shown:
  assumes s: "scaled_ok ops ok s" and y: "0 \<le> y" "y < sc_h s" and r: "MinX r \<le> MaxX r"
    and p: "in_rect u v (dev_bounds ops (dev s))"
  shows "shown (dev (scaled_row ops img r y s)) u v =
    (if v div factor s = y \<and> MinX r \<le> u div factor s \<and> u div factor s < MaxX r
     then px (dev s) (Pixel img (u div factor s) y) else shown (dev s) u v)"
proof -
  have f: "1 \<le> factor s" and ok: "ok (dev s)" using s by (simp_all add: scaled_ok_def)
  have o: "MinX r * factor s \<le> MaxX r * factor s" using r f by (intro mult_right_mono) simp_all
  have "0 \<le> u" "u < dev_width ops (dev s)" using p ok by (simp_all add: in_screen)
  then show ?thesis
    using o ok p f by (auto simp: scaled_row_def Let_def blit_shown in_rect_def mk_rect_def strip_rows strip_columns [OF f, symmetric])
qed

lemma scaled_row_same:
  assumes "scaled_ok ops ok s"
  shows "scaled_ok ops ok (scaled_row ops img r y s)" "factor (scaled_row ops img r y s) = factor s"
    "sc_w (scaled_row ops img r y s) = sc_w s" "sc_h (scaled_row ops img r y s) = sc_h s"
    "px (dev (scaled_row ops img r y s)) = px (dev s)"
    "dev_bounds ops (dev (scaled_row ops img r y s)) = dev_bounds ops (dev s)"
  using assms by (auto simp: scaled_row_def scaled_ok_def Let_def blit_same)

lemma scaled_rows:
  assumes "scaled_ok ops ok s" "MinX r \<le> MaxX r" "\<forall>y \<in> set ys. 0 \<le> y \<and> y < sc_h s"
  shows "let t = fold (scaled_row ops img r) ys s in
    scaled_ok ops ok t \<and> factor t = factor s \<and> sc_w t = sc_w s \<and> sc_h t = sc_h s \<and> px (dev t) = px (dev s) \<and>
    (\<forall>u v. in_rect u v (dev_bounds ops (dev s)) \<longrightarrow> shown (dev t) u v =
      (if v div factor s \<in> set ys \<and> MinX r \<le> u div factor s \<and> u div factor s < MaxX r
       then px (dev s) (Pixel img (u div factor s) (v div factor s)) else shown (dev s) u v))"
  using assms(1,3)
proof (induction ys arbitrary: s)
  case (Cons y ys)
  note same = scaled_row_same [OF Cons.prems(1), of img r y]
  show ?case
    using Cons.IH [OF same(1)] Cons.prems(2) scaled_row_shown [OF Cons.prems(1) _ _ assms(2), of y _ _ img]
    by (auto simp: Let_def same)
qed (simp add: Let_def)

lemma in_scaled:
  assumes "scaled_ok ops ok s"
  shows "in_rect u v (scaled_bounds s) \<longleftrightarrow> 0 \<le> u \<and> u < sc_w s \<and> 0 \<le> v \<and> v < sc_h s"
proof -
  have "ok (dev s)" "1 \<le> factor s" using assms by (simp_all add: scaled_ok_def)
  then have "0 \<le> sc_w s" "0 \<le> sc_h s"
    using assms size_nonneg [of "dev s"] by (simp_all add: scaled_ok_def pos_imp_zdiv_nonneg_iff)
  then show ?thesis by (auto simp: in_rect_def scaled_bounds_def mk_rect_def)
qed

lemma square_in:
  assumes s: "scaled_ok ops ok s" and p: "in_rect u v (scaled_bounds s)" and i: "0 \<le> i" "i < factor s" "0 \<le> j" "j < factor s"
  shows "in_rect (u * factor s + i) (v * factor s + j) (dev_bounds ops (dev s))"
    "(u * factor s + i) div factor s = u" "(v * factor s + j) div factor s = v"
proof -
  have f: "1 \<le> factor s" and ok: "ok (dev s)" using s by (simp_all add: scaled_ok_def)
  have "0 \<le> u" "u < sc_w s" "0 \<le> v" "v < sc_h s" using p by (simp_all add: in_scaled [OF s])
  then show "in_rect (u * factor s + i) (v * factor s + j) (dev_bounds ops (dev s))"
    using square_fits [OF f, of u _ i] square_fits [OF f, of v _ j] s i ok by (simp add: in_screen scaled_ok_def)
qed (use i in \<open>simp_all add: in_square\<close>)

lemma scaled_blit_shown:
  assumes s: "scaled_ok ops ok s"
  shows "scaled_ok ops ok (scaled_blit ops img r s)" "factor (scaled_blit ops img r s) = factor s"
    "sc_w (scaled_blit ops img r s) = sc_w s" "sc_h (scaled_blit ops img r s) = sc_h s"
    "px (dev (scaled_blit ops img r s)) = px (dev s)"
    "in_rect u v (scaled_bounds s) \<Longrightarrow> square shown (scaled_blit ops img r s) u v =
      (if in_rect u v r \<and> in_rect u v (Bounds img) then filled px s (Pixel img u v) else square shown s u v)"
proof -
  define q where "q = intersect (intersect r (scaled_bounds s)) (Bounds img)"
  let ?t = "scaled_blit ops img r s"
  have i: "in_rect x y q \<longleftrightarrow> in_rect x y r \<and> in_rect x y (scaled_bounds s) \<and> in_rect x y (Bounds img)" for x y
    by (auto simp: q_def)
  have all: "scaled_ok ops ok ?t \<and> factor ?t = factor s \<and> sc_w ?t = sc_w s \<and> sc_h ?t = sc_h s \<and> px (dev ?t) = px (dev s) \<and>
    (\<forall>u v. in_rect u v (dev_bounds ops (dev s)) \<longrightarrow> shown (dev ?t) u v =
      (if in_rect (u div factor s) (v div factor s) q then px (dev s) (Pixel img (u div factor s) (v div factor s))
       else shown (dev s) u v))"
  proof (cases "rect_empty q")
    case True
    then have "?t = s" by (simp add: scaled_blit_def q_def Let_def)
    then show ?thesis using s empty_iff [OF True] by simp
  next
    case False
    then have "in_rect (MinX q) (MinY q) q" "in_rect (MaxX q - 1) (MaxY q - 1) q" by (auto simp: in_rect_def rect_empty_def)
    then have c: "in_rect (MinX q) (MinY q) (scaled_bounds s)" "in_rect (MaxX q - 1) (MaxY q - 1) (scaled_bounds s)"
      using i by blast+
    have h: "MinX q \<le> MaxX q" "\<forall>y \<in> set [MinY q .. MaxY q - 1]. 0 \<le> y \<and> y < sc_h s"
      using c False by (auto simp: in_scaled [OF s] rect_empty_def)
    have t: "?t = fold (scaled_row ops img q) [MinY q .. MaxY q - 1] s"
      using False by (simp add: scaled_blit_def q_def Let_def)
    have "b \<in> set [MinY q .. MaxY q - 1] \<and> MinX q \<le> a \<and> a < MaxX q \<longleftrightarrow> in_rect a b q" for a b
      by (auto simp: in_rect_def)
    then show ?thesis using scaled_rows [OF s h, of img] unfolding Let_def t by simp
  qed
  then show "scaled_ok ops ok ?t" "factor ?t = factor s" "sc_w ?t = sc_w s" "sc_h ?t = sc_h s" "px (dev ?t) = px (dev s)"
    by blast+
  assume p: "in_rect u v (scaled_bounds s)"
  have at: "shown (dev ?t) (u * factor s + i) (v * factor s + j) =
      (if in_rect u v q then px (dev s) (Pixel img u v) else shown (dev s) (u * factor s + i) (v * factor s + j))"
    if "0 \<le> i" "i < factor s" "0 \<le> j" "j < factor s" for i j
    using all square_in [OF s p that] by simp
  show "square shown ?t u v =
      (if in_rect u v r \<and> in_rect u v (Bounds img) then filled px s (Pixel img u v) else square shown s u v)"
  proof (cases "in_rect u v q")
    case True
    then show ?thesis using at all i by (auto simp: square_def filled_def)
  next
    case False
    then show ?thesis using at all i p by (auto simp: square_def)
  qed
qed

lemma scaled_pixel_shown:
  assumes s: "scaled_ok ops ok s"
  shows "scaled_ok ops ok (scaled_pixel ops x y c s)" "factor (scaled_pixel ops x y c s) = factor s"
    "sc_w (scaled_pixel ops x y c s) = sc_w s" "sc_h (scaled_pixel ops x y c s) = sc_h s"
    "px (dev (scaled_pixel ops x y c s)) = px (dev s)"
    "in_rect u v (scaled_bounds s) \<Longrightarrow> square shown (scaled_pixel ops x y c s) u v =
      (if u = x \<and> v = y then filled px s c else square shown s u v)"
proof -
  let ?t = "scaled_pixel ops x y c s" and ?f = "factor s"
  have f: "1 \<le> ?f" and ok: "ok (dev s)" using s by (simp_all add: scaled_ok_def)
  note same = pixels_same [OF ok, of c]
  show "scaled_ok ops ok ?t" "factor ?t = factor s" "sc_w ?t = sc_w s" "sc_h ?t = sc_h s" "px (dev ?t) = px (dev s)"
    using s by (simp_all add: scaled_pixel_def scaled_ok_def same)
  assume p: "in_rect u v (scaled_bounds s)"
  have "shown (dev ?t) (u * ?f + i) (v * ?f + j) = (if u = x \<and> v = y then px (dev s) c else shown (dev s) (u * ?f + i) (v * ?f + j))"
    if ij: "0 \<le> i" "i < ?f" "0 \<le> j" "j < ?f" for i j
  proof -
    let ?ps = "[(x * ?f + dx, y * ?f + dy). dy \<leftarrow> [0 .. ?f - 1], dx \<leftarrow> [0 .. ?f - 1]]"
    have "(u * ?f + i, v * ?f + j) \<in> set ?ps \<longleftrightarrow> u = x \<and> v = y"
    proof
      assume "(u * ?f + i, v * ?f + j) \<in> set ?ps"
      then obtain dx dy where "u * ?f + i = x * ?f + dx" "v * ?f + j = y * ?f + dy" "0 \<le> dx" "dx < ?f" "0 \<le> dy" "dy < ?f" by auto
      then show "u = x \<and> v = y" using ij in_square [of i ?f u] in_square [of j ?f v] in_square [of dx ?f x] in_square [of dy ?f y] by simp
    next
      assume "u = x \<and> v = y"
      then show "(u * ?f + i, v * ?f + j) \<in> set ?ps"
        using ij by (auto intro!: bexI [of _ j] image_eqI [of _ _ i])
    qed
    moreover have "\<not> (x < 0 \<or> x \<ge> sc_w s \<or> y < 0 \<or> y \<ge> sc_h s)" if "u = x" "v = y"
      using p that by (simp add: in_scaled [OF s])
    ultimately show ?thesis
      using pixels_shown [OF ok square_in(1) [OF s p ij], of c ?ps] by (auto simp: scaled_pixel_def simp del: set_concat)
  qed
  then show "square shown ?t u v = (if u = x \<and> v = y then filled px s c else square shown s u v)"
    using \<open>factor ?t = factor s\<close> by (auto simp: square_def filled_def)
qed

end

locale scaled_screen = screen ops ok px shown
  for ops :: "'d device_ops" and ok :: "'d \<Rightarrow> bool" and px :: "'d \<Rightarrow> rgba \<Rightarrow> 'p" and shown :: "'d \<Rightarrow> int \<Rightarrow> int \<Rightarrow> 'p"

sublocale scaled_screen \<subseteq> larger: screen "scaled_ops ops" "scaled_ok ops ok" "filled px" "square shown"
proof unfold_locales
  fix d u v img r x y c
  assume d: "scaled_ok ops ok d"
  note b = scaled_blit_shown [OF d] and p = scaled_pixel_shown [OF d]
  show "dev_bounds (scaled_ops ops) d = mk_rect 0 0 (dev_width (scaled_ops ops) d) (dev_height (scaled_ops ops) d)"
    by (simp add: scaled_bounds_def)
  show "0 \<le> dev_width (scaled_ops ops) d \<and> 0 \<le> dev_height (scaled_ops ops) d"
    using d size_nonneg [of "dev d"] by (simp add: scaled_ok_def pos_imp_zdiv_nonneg_iff)
  show "scaled_ok ops ok (dev_blit (scaled_ops ops) img r d)" "scaled_ok ops ok (dev_pixel (scaled_ops ops) x y c d)"
    "dev_width (scaled_ops ops) (dev_blit (scaled_ops ops) img r d) = dev_width (scaled_ops ops) d"
    "dev_height (scaled_ops ops) (dev_blit (scaled_ops ops) img r d) = dev_height (scaled_ops ops) d"
    "dev_width (scaled_ops ops) (dev_pixel (scaled_ops ops) x y c d) = dev_width (scaled_ops ops) d"
    "dev_height (scaled_ops ops) (dev_pixel (scaled_ops ops) x y c d) = dev_height (scaled_ops ops) d"
    using b p by simp_all
  show "filled px (dev_blit (scaled_ops ops) img r d) = filled px d" "filled px (dev_pixel (scaled_ops ops) x y c d) = filled px d"
    using b(2,5) p(2,5) by (simp_all add: filled_def fun_eq_iff)
  assume "in_rect u v (dev_bounds (scaled_ops ops) d)"
  then show "square shown (dev_blit (scaled_ops ops) img r d) u v =
      (if in_rect u v r \<and> in_rect u v (Bounds img) then filled px d (Pixel img u v) else square shown d u v)"
    "square shown (dev_pixel (scaled_ops ops) x y c d) u v = (if u = x \<and> v = y then filled px d c else square shown d u v)"
    using b(6) p(6) by simp_all
qed

interpretation fbl: scaled_screen fb_ops fb_ok pixel_bytes fb_shown ..



end
