(* ===== verification/FrameWriter.thy ===== *)
theory FrameWriter
  imports Framebuffer
begin

text \<open>
  \<open>internal/rdp/framewriter.go\<close>: the session's screen updates and the mouse pointer, put on a screen.
  The server sends tiles and never the pointer; what the screen has to show after any sequence of
  updates and pointer moves is \<open>desktop\<close> (the newest tile over each point) with the cross of \<open>on_pointer\<close> over it.
\<close>

section \<open>The writer\<close>

definition cursorArm :: int where
  "cursorArm = 6"

definition cursorColor :: rgba where
  "cursorColor = \<lparr>Red = 255, Green = 255, Blue = 100, Alpha = 255\<rparr>"

definition cursorDotColor :: rgba where
  "cursorDotColor = \<lparr>Red = 255, Green = 80, Blue = 80, Alpha = 255\<rparr>"

record 'd frame_writer =
  FB :: 'd
  canvas :: "rgba_image option"
  cursorX :: int
  cursorY :: int
  cursorVisible :: bool

definition new_writer :: "'d \<Rightarrow> 'd frame_writer" where
  "new_writer d = \<lparr>FB = d, canvas = None, cursorX = 0, cursorY = 0, cursorVisible = False\<rparr>"

definition new_image :: "rect \<Rightarrow> rgba_image" where
  "new_image r = \<lparr>Bounds = r, Pixel = \<lambda>_ _. \<lparr>Red = 0, Green = 0, Blue = 0, Alpha = 0\<rparr>\<rparr>"

definition draw_src :: "rgba_image \<Rightarrow> rect \<Rightarrow> rgba_image \<Rightarrow> rgba_image" where
  \<comment> \<open>\<open>draw.Draw(dst, r, img, r.Min, draw.Src)\<close>\<close>
  "draw_src img r dst =
     dst\<lparr>Pixel := \<lambda>u v. if in_rect u v (intersect r (Bounds dst)) then Pixel img u v else Pixel dst u v\<rparr>"

definition cursorRect :: "'d device_ops \<Rightarrow> 'd frame_writer \<Rightarrow> rect" where
  "cursorRect ops fw =
     intersect (mk_rect (cursorX fw - cursorArm) (cursorY fw - cursorArm) (cursorX fw + cursorArm + 1) (cursorY fw + cursorArm + 1))
       (dev_bounds ops (FB fw))"

definition paintCursor :: "'d device_ops \<Rightarrow> 'd frame_writer \<Rightarrow> 'd frame_writer" where
  "paintCursor ops fw =
     (let r = cursorRect ops fw
      in if rect_empty r then fw
         else
           let d1 = fold (\<lambda>(x, y). dev_pixel ops x y cursorColor) (map (\<lambda>x. (x, cursorY fw)) [MinX r .. MaxX r - 1]) (FB fw);
               d2 = fold (\<lambda>(x, y). dev_pixel ops x y cursorColor) (map (\<lambda>y. (cursorX fw, y)) [MinY r .. MaxY r - 1]) d1
           in fw\<lparr>FB := dev_pixel ops (cursorX fw) (cursorY fw) cursorDotColor d2\<rparr>)"

definition draw_tile :: "'d device_ops \<Rightarrow> rgba_image option \<Rightarrow> 'd frame_writer \<times> bool \<Rightarrow> 'd frame_writer \<times> bool" where
  \<comment> \<open>one turn of \<open>WriteUpdate\<close>'s loop: the writer and \<open>cursorHit\<close>\<close>
  "draw_tile ops tile = (\<lambda>(fw, hit).
     (case tile of None \<Rightarrow> (fw, hit)
      | Some img \<Rightarrow>
        let r = intersect (Bounds img) (dev_bounds ops (FB fw))
        in if rect_empty r then (fw, hit)
           else
             let cv = draw_src img r (the (canvas fw));
                 fw = fw\<lparr>canvas := Some cv, FB := dev_blit ops cv r (FB fw)\<rparr>
             in (fw, hit \<or> cursorVisible fw \<and> overlaps r (cursorRect ops fw))))"

definition WriteUpdate :: "'d device_ops \<Rightarrow> rgba_image option list \<Rightarrow> 'd frame_writer \<Rightarrow> 'd frame_writer" where
  "WriteUpdate ops tiles fw =
     (let fw = (if canvas fw = None then fw\<lparr>canvas := Some (new_image (dev_bounds ops (FB fw)))\<rparr> else fw);
          (fw, hit) = fold (draw_tile ops) tiles (fw, False)
      in if hit then paintCursor ops fw else fw)"

definition restore_under :: "'d device_ops \<Rightarrow> 'd frame_writer \<Rightarrow> 'd frame_writer" where
  \<comment> \<open>the desktop where the pointer is, of \<open>MoveCursor\<close> and \<open>HideCursor\<close>\<close>
  "restore_under ops fw =
     (case canvas fw of Some c \<Rightarrow> if cursorVisible fw then fw\<lparr>FB := dev_blit ops c (cursorRect ops fw) (FB fw)\<rparr> else fw
      | None \<Rightarrow> fw)"

definition MoveCursor :: "'d device_ops \<Rightarrow> int \<Rightarrow> int \<Rightarrow> 'd frame_writer \<Rightarrow> 'd frame_writer" where
  "MoveCursor ops x y fw =
     (if cursorVisible fw \<and> cursorX fw = x \<and> cursorY fw = y then fw
      else paintCursor ops ((restore_under ops fw)\<lparr>cursorX := x, cursorY := y, cursorVisible := True\<rparr>))"

definition HideCursor :: "'d device_ops \<Rightarrow> 'd frame_writer \<Rightarrow> 'd frame_writer" where
  "HideCursor ops fw = (restore_under ops fw)\<lparr>cursorVisible := False\<rparr>"

section \<open>What it promises\<close>

datatype writer_op =
  Tiles "rgba_image option list"
| Pointer int int
| NoPointer

primrec writer_step :: "'d device_ops \<Rightarrow> writer_op \<Rightarrow> 'd frame_writer \<Rightarrow> 'd frame_writer" where
  "writer_step ops (Tiles ts) fw = WriteUpdate ops ts fw"
| "writer_step ops (Pointer x y) fw = MoveCursor ops x y fw"
| "writer_step ops NoPointer fw = HideCursor ops fw"

primrec spec_step :: "writer_op \<Rightarrow> rgba_image list \<times> (int \<times> int) option \<Rightarrow> rgba_image list \<times> (int \<times> int) option" where
  \<comment> \<open>the tiles so far, and where the pointer is\<close>
  "spec_step (Tiles ts) s = (fst s @ [t. Some t \<leftarrow> ts], snd s)"
| "spec_step (Pointer x y) s = (fst s, Some (x, y))"
| "spec_step NoPointer s = (fst s, None)"

fun newest :: "rgba_image list \<Rightarrow> int \<Rightarrow> int \<Rightarrow> rgba option" where
  "newest [] u v = None"
| "newest (t # ts) u v = (if in_rect u v (Bounds t) then Some (Pixel t u v) else newest ts u v)"

definition desktop :: "rgba_image list \<Rightarrow> int \<Rightarrow> int \<Rightarrow> rgba option" where
  "desktop ts = newest (rev ts)"

definition on_pointer :: "(int \<times> int) option \<Rightarrow> int \<Rightarrow> int \<Rightarrow> bool" where
  "on_pointer p u v =
     (case p of None \<Rightarrow> False
      | Some (x, y) \<Rightarrow> u = x \<and> \<bar>v - y\<bar> \<le> cursorArm \<or> v = y \<and> \<bar>u - x\<bar> \<le> cursorArm)"

definition pointer_colour :: "(int \<times> int) option \<Rightarrow> int \<Rightarrow> int \<Rightarrow> rgba" where
  "pointer_colour p u v = (if p = Some (u, v) then cursorDotColor else cursorColor)"

lemma desktop_Nil [simp]: "desktop [] u v = None"
  by (simp add: desktop_def)

lemma desktop_snoc: "desktop (ts @ [t]) u v = (if in_rect u v (Bounds t) then Some (Pixel t u v) else desktop ts u v)"
  by (simp add: desktop_def)

definition pointer_of :: "'d frame_writer \<Rightarrow> (int \<times> int) option" where
  "pointer_of fw = (if cursorVisible fw then Some (cursorX fw, cursorY fw) else None)"

context screen
begin

definition shows_desktop :: "'d \<Rightarrow> rgba_image list \<Rightarrow> 'd frame_writer \<Rightarrow> bool" where
  \<comment> \<open>all but the pointer: it is still the screen \<open>d\<close>, the canvas holds the desktop and so does the screen off the cross\<close>
  "shows_desktop d ts fw \<longleftrightarrow> ok (FB fw) \<and> dev_bounds ops (FB fw) = dev_bounds ops d \<and> px (FB fw) = px d \<and>
     (\<forall>c. canvas fw = Some c \<longrightarrow> Bounds c = dev_bounds ops d) \<and>
     (\<forall>u v p. in_rect u v (dev_bounds ops d) \<longrightarrow> desktop ts u v = Some p \<longrightarrow>
        (\<exists>c. canvas fw = Some c \<and> Pixel c u v = p) \<and> (\<not> on_pointer (pointer_of fw) u v \<longrightarrow> shown (FB fw) u v = px d p))"

definition shows_pointer :: "'d \<Rightarrow> 'd frame_writer \<Rightarrow> bool" where
  "shows_pointer d fw \<longleftrightarrow> (\<forall>u v. in_rect u v (dev_bounds ops d) \<longrightarrow> on_pointer (pointer_of fw) u v \<longrightarrow>
     shown (FB fw) u v = px d (pointer_colour (pointer_of fw) u v))"

lemma in_cursorRect: "in_rect u v (cursorRect ops fw) \<longleftrightarrow> \<bar>u - cursorX fw\<bar> \<le> cursorArm \<and> \<bar>v - cursorY fw\<bar> \<le> cursorArm \<and>
    in_rect u v (dev_bounds ops (FB fw))"
  unfolding cursorRect_def in_intersect by (auto simp: in_rect_def mk_rect_def cursorArm_def)

lemma cursorRect_sides:
  assumes "\<not> rect_empty (cursorRect ops fw)" "in_rect u v (dev_bounds ops (FB fw))"
  shows "v = cursorY fw \<Longrightarrow> MinX (cursorRect ops fw) \<le> u \<and> u < MaxX (cursorRect ops fw) \<longleftrightarrow> in_rect u v (cursorRect ops fw)"
    and "u = cursorX fw \<Longrightarrow> MinY (cursorRect ops fw) \<le> v \<and> v < MaxY (cursorRect ops fw) \<longleftrightarrow> in_rect u v (cursorRect ops fw)"
  using assms by (auto simp: cursorRect_def intersect_def rect_empty_def in_rect_def mk_rect_def cursorArm_def Let_def
      split: if_splits)

lemma paintCursor_same:
  assumes "ok (FB fw)"
  shows "ok (FB (paintCursor ops fw))" "dev_bounds ops (FB (paintCursor ops fw)) = dev_bounds ops (FB fw)"
    "px (FB (paintCursor ops fw)) = px (FB fw)" "canvas (paintCursor ops fw) = canvas fw"
    "pointer_of (paintCursor ops fw) = pointer_of fw" "cursorVisible (paintCursor ops fw) = cursorVisible fw"
  using assms by (simp_all add: paintCursor_def Let_def pixels_same pixel_same pointer_of_def)

lemma paintCursor_shown:
  assumes "ok (FB fw)" "in_rect u v (dev_bounds ops (FB fw))" "cursorVisible fw"
  shows "shown (FB (paintCursor ops fw)) u v =
    (if on_pointer (pointer_of fw) u v then px (FB fw) (pointer_colour (pointer_of fw) u v) else shown (FB fw) u v)"
proof -
  let ?r = "cursorRect ops fw"
  have on: "on_pointer (pointer_of fw) u v \<longleftrightarrow> in_rect u v ?r \<and> (u = cursorX fw \<or> v = cursorY fw)"
    using assms(2,3) by (auto simp: on_pointer_def pointer_of_def in_cursorRect cursorArm_def)
  show ?thesis
  proof (cases "rect_empty ?r")
    case True
    then show ?thesis using empty_iff [OF True, of u v] on by (simp add: paintCursor_def)
  next
    case False
    define ps where "ps = map (\<lambda>x. (x, cursorY fw)) [MinX ?r .. MaxX ?r - 1]"
    define qs where "qs = map (\<lambda>y. (cursorX fw, y)) [MinY ?r .. MaxY ?r - 1]"
    have "(u, v) \<in> set ps \<longleftrightarrow> v = cursorY fw \<and> in_rect u v ?r" "(u, v) \<in> set qs \<longleftrightarrow> u = cursorX fw \<and> in_rect u v ?r"
      using cursorRect_sides [OF False assms(2)] by (auto simp: ps_def qs_def)
    then have m: "on_pointer (pointer_of fw) u v \<longleftrightarrow> (u, v) \<in> set ps \<or> (u, v) \<in> set qs" using on by blast
    have c: "in_rect u v ?r" if "u = cursorX fw" "v = cursorY fw"
      using that assms(2) by (simp add: in_cursorRect cursorArm_def)
    have p: "pointer_of fw = Some (cursorX fw, cursorY fw)" using assms(3) by (simp add: pointer_of_def)
    show ?thesis
      using False assms(1,2) m c on
      by (auto simp: paintCursor_def Let_def ps_def [symmetric] qs_def [symmetric] pixels_same pixel_shown pixels_shown
          pointer_colour_def p)
  qed
qed

lemma paintCursor_repairs:
  assumes "shows_desktop d ts fw" "cursorVisible fw"
  shows "shows_desktop d ts (paintCursor ops fw)" "shows_pointer d (paintCursor ops fw)"
proof -
  have k: "ok (FB fw)" "dev_bounds ops (FB fw) = dev_bounds ops d" "px (FB fw) = px d"
    using assms(1) by (simp_all add: shows_desktop_def)
  show "shows_desktop d ts (paintCursor ops fw)" "shows_pointer d (paintCursor ops fw)"
    using assms k paintCursor_same [OF k(1)] paintCursor_shown [OF k(1) _ assms(2)]
    by (auto simp: shows_desktop_def shows_pointer_def)
qed

lemma shows_none: "\<not> cursorVisible fw \<Longrightarrow> shows_pointer d fw"
  by (simp add: shows_pointer_def pointer_of_def on_pointer_def)

text \<open>One tile.\<close>

definition tile_inv :: "'d \<Rightarrow> rgba_image list \<Rightarrow> (int \<times> int) option \<Rightarrow> 'd frame_writer \<times> bool \<Rightarrow> bool" where
  "tile_inv d ts p s \<longleftrightarrow> shows_desktop d ts (fst s) \<and> (\<not> snd s \<longrightarrow> shows_pointer d (fst s)) \<and> (snd s \<longrightarrow> cursorVisible (fst s)) \<and>
     pointer_of (fst s) = p \<and> canvas (fst s) \<noteq> None"

lemma pointer_in_rect: "pointer_of fw = Some (cursorX fw, cursorY fw) \<Longrightarrow> on_pointer (pointer_of fw) u v \<Longrightarrow>
    in_rect u v (dev_bounds ops (FB fw)) \<Longrightarrow> in_rect u v (cursorRect ops fw)"
  by (auto simp: on_pointer_def in_cursorRect cursorArm_def)

lemma apart: "\<not> overlaps r s \<Longrightarrow> in_rect u v r \<Longrightarrow> \<not> in_rect u v s"
  by (auto simp: overlaps_def in_rect_def rect_empty_def)

lemma draw_tile_inv:
  assumes "tile_inv d ts p s"
  shows "tile_inv d (ts @ (case t of None \<Rightarrow> [] | Some x \<Rightarrow> [x])) p (draw_tile ops t s)"
proof (cases t)
  case None
  then show ?thesis using assms by (cases s) (simp add: draw_tile_def)
next
  case (Some img)
  obtain fw hit where s: "s = (fw, hit)" by (cases s)
  obtain c where c: "canvas fw = Some c" using assms by (auto simp: tile_inv_def s)
  have k: "ok (FB fw)" "dev_bounds ops (FB fw) = dev_bounds ops d" "px (FB fw) = px d" "Bounds c = dev_bounds ops d"
    and desk: "\<And>u v q. in_rect u v (dev_bounds ops d) \<Longrightarrow> desktop ts u v = Some q \<Longrightarrow>
        Pixel c u v = q \<and> (\<not> on_pointer p u v \<longrightarrow> shown (FB fw) u v = px d q)"
    and p: "pointer_of fw = p"
    using assms c by (simp_all add: tile_inv_def s shows_desktop_def)
  define r where "r = intersect (Bounds img) (dev_bounds ops d)"
  show ?thesis
  proof (cases "rect_empty r")
    case True
    have "\<not> in_rect u v (Bounds img)" if "in_rect u v (dev_bounds ops d)" for u v
      using empty_iff [OF True, of u v] that by (simp add: r_def)
    then show ?thesis
      using assms True by (auto simp: Some s draw_tile_def k r_def [symmetric] tile_inv_def shows_desktop_def desktop_snoc)
  next
    case False
    define cv where "cv = draw_src img r c"
    define fw' where "fw' = fw\<lparr>canvas := Some cv, FB := dev_blit ops cv r (FB fw)\<rparr>"
    have cv: "Bounds cv = dev_bounds ops d" "\<And>u v. in_rect u v (dev_bounds ops d) \<Longrightarrow>
        Pixel cv u v = (if in_rect u v (Bounds img) then Pixel img u v else Pixel c u v)"
      by (simp_all add: cv_def draw_src_def k(4) r_def)
    have sh: "shown (FB fw') u v = (if in_rect u v (Bounds img) then px d (Pixel img u v) else shown (FB fw) u v)"
      if "in_rect u v (dev_bounds ops d)" for u v
      using blit_shown [OF k(1), of u v cv r] that cv by (simp add: fw'_def k r_def)
    have same: "ok (FB fw')" "dev_bounds ops (FB fw') = dev_bounds ops d" "px (FB fw') = px d" "canvas fw' = Some cv"
      "pointer_of fw' = p" "cursorVisible fw' = cursorVisible fw" "cursorRect ops fw' = cursorRect ops fw"
      using k p by (auto simp: fw'_def blit_same pointer_of_def cursorRect_def)
    have "shows_desktop d (ts @ [img]) fw'"
      using same cv sh desk by (auto simp: shows_desktop_def desktop_snoc)
    moreover have "shows_pointer d fw'"
      if "\<not> hit" "\<not> (cursorVisible fw \<and> overlaps r (cursorRect ops fw))"
    proof (cases "cursorVisible fw")
      case True
      have "\<not> in_rect u v (Bounds img)" if "on_pointer p u v" "in_rect u v (dev_bounds ops d)" for u v
        using apart [of r "cursorRect ops fw" u v] pointer_in_rect [of fw u v] that True p k
          \<open>\<not> (cursorVisible fw \<and> overlaps r (cursorRect ops fw))\<close> by (auto simp: r_def pointer_of_def)
      then show ?thesis using assms \<open>\<not> hit\<close> sh same by (simp add: shows_pointer_def tile_inv_def s)
    qed (use same in \<open>simp add: shows_none\<close>)
    moreover have "draw_tile ops t s = (fw', hit \<or> cursorVisible fw \<and> overlaps r (cursorRect ops fw))"
      using False same by (simp add: Some s draw_tile_def k c r_def [symmetric] cv_def [symmetric] fw'_def [symmetric] Let_def)
    ultimately show ?thesis
      using assms same by (auto simp: tile_inv_def s Some)
  qed
qed

lemma draw_tiles_inv:
  "tile_inv d ts p s \<Longrightarrow> tile_inv d (ts @ [t. Some t \<leftarrow> tiles]) p (fold (draw_tile ops) tiles s)"
proof (induction tiles arbitrary: ts s)
  case (Cons t tiles)
  from Cons.IH [OF draw_tile_inv [OF Cons.prems, of t]] show ?case by (cases t) simp_all
qed simp

definition writer_inv :: "'d \<Rightarrow> rgba_image list \<times> (int \<times> int) option \<Rightarrow> 'd frame_writer \<Rightarrow> bool" where
  "writer_inv d s fw \<longleftrightarrow> shows_desktop d (fst s) fw \<and> shows_pointer d fw \<and> pointer_of fw = snd s"

lemma WriteUpdate_inv:
  assumes "writer_inv d (ts, p) fw"
  shows "writer_inv d (ts @ [t. Some t \<leftarrow> tiles], p) (WriteUpdate ops tiles fw)"
proof -
  define fw0 where "fw0 = (if canvas fw = None then fw\<lparr>canvas := Some (new_image (dev_bounds ops (FB fw)))\<rparr> else fw)"
  have p0: "pointer_of fw0 = pointer_of fw" by (simp add: fw0_def pointer_of_def)
  have "tile_inv d ts p (fw0, False)"
    using assms p0 by (auto simp: writer_inv_def tile_inv_def shows_desktop_def shows_pointer_def fw0_def new_image_def)
  from draw_tiles_inv [OF this, of tiles]
  have i: "tile_inv d (ts @ [t. Some t \<leftarrow> tiles]) p (fold (draw_tile ops) tiles (fw0, False))" .
  obtain fw1 hit where f: "fold (draw_tile ops) tiles (fw0, False) = (fw1, hit)" by (metis surj_pair)
  have w: "WriteUpdate ops tiles fw = (if hit then paintCursor ops fw1 else fw1)"
    by (simp add: WriteUpdate_def Let_def fw0_def [symmetric] f)
  have k: "ok (FB fw1)" using i by (simp add: f tile_inv_def shows_desktop_def)
  show ?thesis
    using i paintCursor_repairs [of d "ts @ [t. Some t \<leftarrow> tiles]" fw1] paintCursor_same [OF k]
    by (auto simp: w f tile_inv_def writer_inv_def)
qed

lemma restored:
  assumes "writer_inv d (ts, p) fw"
  shows "shows_desktop d ts ((restore_under ops fw)\<lparr>cursorX := x, cursorY := y, cursorVisible := b\<rparr>)"
proof -
  let ?fw = "(restore_under ops fw)\<lparr>cursorX := x, cursorY := y, cursorVisible := b\<rparr>"
  have k: "ok (FB fw)" "dev_bounds ops (FB fw) = dev_bounds ops d" "px (FB fw) = px d"
    and cb: "\<And>c. canvas fw = Some c \<Longrightarrow> Bounds c = dev_bounds ops d"
    and desk: "\<And>u v q. in_rect u v (dev_bounds ops d) \<Longrightarrow> desktop ts u v = Some q \<Longrightarrow>
        (\<exists>c. canvas fw = Some c \<and> Pixel c u v = q) \<and> (\<not> on_pointer (pointer_of fw) u v \<longrightarrow> shown (FB fw) u v = px d q)"
    using assms by (simp_all add: writer_inv_def shows_desktop_def)
  have same: "canvas ?fw = canvas fw" "ok (FB ?fw)" "dev_bounds ops (FB ?fw) = dev_bounds ops d" "px (FB ?fw) = px d"
    using k by (simp_all add: restore_under_def blit_same split: option.splits)
  have "shown (FB ?fw) u v = px d q" if b: "in_rect u v (dev_bounds ops d)" and q: "desktop ts u v = Some q" for u v q
  proof -
    obtain c where c: "canvas fw = Some c" "Pixel c u v = q" using desk [OF b q] by blast
    show ?thesis
    proof (cases "cursorVisible fw \<and> in_rect u v (cursorRect ops fw)")
      case True
      then show ?thesis using c k b cb [OF c(1)] by (simp add: restore_under_def blit_shown)
    next
      case False
      then have "\<not> on_pointer (pointer_of fw) u v"
        using pointer_in_rect [of fw u v] b k by (auto simp: pointer_of_def on_pointer_def)
      then show ?thesis using False desk [OF b q] c k b by (auto simp: restore_under_def blit_shown)
    qed
  qed
  then show ?thesis using same cb desk by (auto simp: shows_desktop_def)
qed

lemma restored_place: "(restore_under ops fw)\<lparr>cursorVisible := b\<rparr> =
    (restore_under ops fw)\<lparr>cursorX := cursorX fw, cursorY := cursorY fw, cursorVisible := b\<rparr>"
  by (simp add: restore_under_def split: option.splits)

lemma writer_step_inv: "writer_inv d s fw \<Longrightarrow> writer_inv d (spec_step a s) (writer_step ops a fw)"
proof (cases s; cases a)
  fix ts p tiles
  assume "writer_inv d s fw" "s = (ts, p)" "a = Tiles tiles"
  then show ?thesis by (simp add: WriteUpdate_inv)
next
  fix ts p x y
  assume a: "writer_inv d s fw" "s = (ts, p)" "a = Pointer x y"
  let ?fw = "(restore_under ops fw)\<lparr>cursorX := x, cursorY := y, cursorVisible := True\<rparr>"
  have d: "shows_desktop d ts ?fw" using restored a by simp
  have k: "ok (FB ?fw)" using d by (simp only: shows_desktop_def)
  show ?thesis
    using a paintCursor_repairs [OF d] paintCursor_same [OF k]
    by (auto simp: MoveCursor_def writer_inv_def pointer_of_def)
next
  fix ts p
  assume a: "writer_inv d s fw" "s = (ts, p)" "a = NoPointer"
  let ?fw = "(restore_under ops fw)\<lparr>cursorVisible := False\<rparr>"
  have "shows_desktop d ts ?fw" unfolding restored_place using restored a by simp
  then show ?thesis using a by (simp add: HideCursor_def writer_inv_def shows_none pointer_of_def)
qed

lemma new_writer_inv: "ok d \<Longrightarrow> writer_inv d ([], None) (new_writer d)"
  by (simp add: writer_inv_def shows_desktop_def shows_none new_writer_def pointer_of_def)

lemma writer_run_inv: "writer_inv d s fw \<Longrightarrow> writer_inv d (fold spec_step as s) (fold (writer_step ops) as fw)"
  by (induction as arbitrary: s fw) (simp_all add: writer_step_inv)

lemma writer_shows:
  assumes "ok d" "in_rect u v (dev_bounds ops d)" "fold spec_step as ([], None) = (ts, p)"
  shows "shown (FB (fold (writer_step ops) as (new_writer d))) u v =
    (if on_pointer p u v then px d (pointer_colour p u v)
     else case desktop ts u v of Some c \<Rightarrow> px d c | None \<Rightarrow> shown (FB (fold (writer_step ops) as (new_writer d))) u v)"
proof -
  have "writer_inv d (ts, p) (fold (writer_step ops) as (new_writer d))"
    using writer_run_inv [OF new_writer_inv [OF assms(1)], of as] assms(3) by simp
  then show ?thesis using assms(2) by (auto simp: writer_inv_def shows_desktop_def shows_pointer_def split: option.splits)
qed

end

text \<open>C35. A session's screen always shows the desktop. After any updates and pointer moves, in any order, every
  point of the screen has the pixel of the newest tile that covers it, except under the cross of the pointer, which is whole
  and on top as long as there is one: a tile that paints over it has it painted again, and one that has moved or gone
  leaves nothing behind.\<close>

theorem session_shown:
  assumes "Open v l mmap = Some f" "\<forall>n d. mmap n = Some d \<longrightarrow> length d = n" "in_rect x y (fb_bounds f)"
    "fold spec_step as ([], None) = (ts, p)" "fold (writer_step fb_ops) as (new_writer f) = w"
  shows "(on_pointer p x y \<longrightarrow> fb_shown (FB w) x y = pixel_bytes f (pointer_colour p x y)) \<and>
    (\<not> on_pointer p x y \<longrightarrow> desktop ts x y = Some c \<longrightarrow> fb_shown (FB w) x y = pixel_bytes f c)"
proof -
  have "in_rect x y (dev_bounds fb_ops f)" using assms(3) by simp
  from fbs.writer_shows [OF Open_ok [OF assms(1,2)] this assms(4)] show ?thesis by (simp add: assms(5))
qed

lemma session_shown_witness:
  "\<exists>f. Open (Some \<lparr>Xres = 16, Yres = 16, BitsPerPixel = 32, RedField = (16, 8), GreenField = (8, 8), BlueField = (0, 8)\<rparr>) None
      (\<lambda>n. Some (replicate n 0)) = Some f \<and>
     fb_shown (FB (fold (writer_step fb_ops)
       [Pointer 2 2, Tiles [None, Some \<lparr>Bounds = mk_rect 1 1 5 5, Pixel = \<lambda>_ _. cursorDotColor\<rparr>], Pointer 12 2] (new_writer f))) 2 2 =
     [80, 80, 255, 0xff]"
proof -
  let ?v = "Some \<lparr>Xres = 16, Yres = 16, BitsPerPixel = 32, RedField = (16, 8), GreenField = (8, 8), BlueField = (0, 8)\<rparr>"
  let ?m = "\<lambda>n. Some (replicate n (0 :: byte))"
  let ?as = "[Pointer 2 2, Tiles [None, Some \<lparr>Bounds = mk_rect 1 1 5 5, Pixel = \<lambda>_ _. cursorDotColor\<rparr>], Pointer 12 2]"
  obtain f where f: "Open ?v None ?m = Some f" and w: "fb_width f = 16" "fb_height f = 16" and x: "fb_xrgb f"
    by (simp add: Open_def default_fields_def fb_xrgb_def)
  have m: "\<forall>n d. ?m n = Some d \<longrightarrow> length d = n" by auto
  have b: "in_rect 2 2 (fb_bounds f)" by (simp add: in_bounds w)
  have s: "fold spec_step ?as ([], None) = ([\<lparr>Bounds = mk_rect 1 1 5 5, Pixel = \<lambda>_ _. cursorDotColor\<rparr>], Some (12, 2))"
    by simp
  from session_shown [OF f m b s refl, of cursorDotColor]
  have "fb_shown (FB (fold (writer_step fb_ops) ?as (new_writer f))) 2 2 = pixel_bytes f cursorDotColor"
    by (simp add: on_pointer_def cursorArm_def desktop_def in_rect_def mk_rect_def)
  then show ?thesis using f x by (auto simp: pixel_bytes_def cursorDotColor_def)
qed

end
