(* ===== verification/Bitmaps.thy ===== *)
theory Bitmaps
  imports Framebuffer GoBytes
begin

unbundle bit_operations_syntax

text \<open>
  \<open>bitmapToImage\<close> of \<open>internal/rdp/client.go\<close>: a tile as the protocol library hands it over, either decoded
  (rows from the top, 16-bit pixels with the high byte first) or as it was on the wire (rows from the bottom, each
  padded to four bytes, low byte first), made an image. The library itself is not part of the repository.
\<close>

record bitmap =
  \<comment> \<open>\<open>client.Bitmap\<close> of the library, of what is used of it; \<open>BytesPerPixel\<close> is its \<open>BitsPerPixel\<close>, which it has divided by 8\<close>
  DestLeft :: int
  DestTop :: int
  BmWidth :: nat
  BmHeight :: nat
  BytesPerPixel :: nat
  Raw :: bool
  BmData :: bytes

definition no_colour :: rgba where
  "no_colour = \<lparr>Red = 0, Green = 0, Blue = 0, Alpha = 0\<rparr>"

definition widen565 :: "u16 \<Rightarrow> rgba" where
  "widen565 v =
     (let r5 = ucast (drop_bit 11 v) :: byte; g6 = ucast (drop_bit 5 v) AND 0x3F :: byte; b5 = ucast v AND 0x1F :: byte
      in \<lparr>Red = push_bit 3 r5 OR drop_bit 2 r5, Green = push_bit 2 g6 OR drop_bit 4 g6, Blue = push_bit 3 b5 OR drop_bit 2 b5,
          Alpha = 0xff\<rparr>)"

definition tile_colour :: "bool \<Rightarrow> nat \<Rightarrow> bytes \<Rightarrow> nat \<Rightarrow> rgba" where
  \<comment> \<open>one pixel of a row\<close>
  "tile_colour raw bpp row x =
     (if bpp = 4 \<or> bpp = 3 then \<lparr>Red = row ! (x * bpp + 2), Green = row ! (x * bpp + 1), Blue = row ! (x * bpp), Alpha = 0xff\<rparr>
      else if bpp = 2 then
        widen565 (if raw then push_bit 8 (ucast (row ! (x * 2 + 1))) OR ucast (row ! (x * 2))
                  else push_bit 8 (ucast (row ! (x * 2))) OR ucast (row ! (x * 2 + 1)))
      else if bpp = 1 then \<lparr>Red = row ! x, Green = row ! x, Blue = row ! x, Alpha = 0xff\<rparr>
      else no_colour)"

definition src_stride :: "bitmap \<Rightarrow> nat" where
  "src_stride bm = (let n = BmWidth bm * BytesPerPixel bm in if Raw bm then (n + 3) div 4 * 4 else n)"

definition tile_row :: "bitmap \<Rightarrow> nat \<Rightarrow> bytes option" where
  \<comment> \<open>the data of row \<open>y\<close>, where there is enough of it\<close>
  "tile_row bm y =
     (let n = BmWidth bm * BytesPerPixel bm;
          src = (if Raw bm then BmHeight bm - 1 - y else y) * src_stride bm
      in if src + n > length (BmData bm) then None else Some (take n (drop src (BmData bm))))"

definition bitmapToImage :: "bitmap \<Rightarrow> rgba_image" where
  "bitmapToImage bm =
     \<lparr>Bounds = mk_rect (DestLeft bm) (DestTop bm) (DestLeft bm + int (BmWidth bm)) (DestTop bm + int (BmHeight bm)),
      Pixel = (if BytesPerPixel bm = 0 \<or> BmWidth bm = 0 \<or> BmHeight bm = 0 \<or> BmData bm = [] then (\<lambda>_ _. no_colour)
         else (\<lambda>u v. case tile_row bm (nat (v - DestTop bm)) of None \<Rightarrow> no_colour
                   | Some row \<Rightarrow> tile_colour (Raw bm) (BytesPerPixel bm) row (nat (u - DestLeft bm))))\<rparr>"

section \<open>16-bit tiles\<close>

text \<open>What the server draws, as a matrix of 16-bit words, and the two forms it comes in.\<close>

definition decoded_data :: "u16 list list \<Rightarrow> bytes" where
  "decoded_data m = concat (map (\<lambda>r. concat (map be16 r)) m)"

definition pad4 :: "bytes \<Rightarrow> bytes" where
  "pad4 b = b @ replicate ((length b + 3) div 4 * 4 - length b) 0"

definition raw_data :: "u16 list list \<Rightarrow> bytes" where
  "raw_data m = concat (map (\<lambda>r. pad4 (concat (map le16 r))) (rev m))"

definition tile565 :: "bool \<Rightarrow> int \<Rightarrow> int \<Rightarrow> nat \<Rightarrow> u16 list list \<Rightarrow> bitmap" where
  "tile565 raw l t w m = \<lparr>DestLeft = l, DestTop = t, BmWidth = w, BmHeight = length m, BytesPerPixel = 2, Raw = raw,
     BmData = (if raw then raw_data m else decoded_data m)\<rparr>"

lemma chunk_concat:
  assumes "\<forall>b \<in> set bs. length b = n" "k < length bs"
  shows "take n (drop (k * n) (concat bs)) = bs ! k" "length (concat bs) = length bs * n"
proof -
  show "take n (drop (k * n) (concat bs)) = bs ! k" using assms
  proof (induction bs arbitrary: k)
    case (Cons b bs)
    then show ?case by (cases k) simp_all
  qed simp
  show "length (concat bs) = length bs * n" using assms(1) by (induction bs) simp_all
qed

lemma word_concat:
  assumes "x < length r"
  shows "concat (map be16 r) ! (x * 2) = ucast (drop_bit 8 (r ! x))" "concat (map be16 r) ! (x * 2 + 1) = ucast (r ! x)"
    "concat (map le16 r) ! (x * 2) = ucast (r ! x)" "concat (map le16 r) ! (x * 2 + 1) = ucast (drop_bit 8 (r ! x))"
proof -
  have "concat (map be16 r) ! (x * 2) = ucast (drop_bit 8 (r ! x)) \<and> concat (map be16 r) ! (x * 2 + 1) = ucast (r ! x) \<and>
    concat (map le16 r) ! (x * 2) = ucast (r ! x) \<and> concat (map le16 r) ! (x * 2 + 1) = ucast (drop_bit 8 (r ! x))"
    using assms
  proof (induction r arbitrary: x)
    case (Cons a r)
    then show ?case by (cases x) (simp_all add: be16_def le16_def)
  qed simp
  then show "concat (map be16 r) ! (x * 2) = ucast (drop_bit 8 (r ! x))" "concat (map be16 r) ! (x * 2 + 1) = ucast (r ! x)"
    "concat (map le16 r) ! (x * 2) = ucast (r ! x)" "concat (map le16 r) ! (x * 2 + 1) = ucast (drop_bit 8 (r ! x))" by blast+
qed

lemma concat_words: "length (concat (map le16 r)) = length r * 2" "length (concat (map be16 r)) = length r * 2"
  by (induction r) simp_all

lemma join_be: "push_bit 8 (ucast (ucast (drop_bit 8 v) :: byte)) OR ucast (ucast v :: byte) = (v :: u16)"
  using join16_split [of v] by (simp add: join16_def or.commute)

lemma tile565_pixel:
  assumes m: "\<forall>r \<in> set m. length r = w" and y: "y < length m" and x: "x < w"
  shows "Pixel (bitmapToImage (tile565 raw l t w m)) (l + int x) (t + int y) = widen565 (m ! y ! x)"
proof -
  let ?bm = "tile565 raw l t w m"
  have l: "length (m ! y) = w" using m y by simp
  have pos: "w \<noteq> 0" "length m \<noteq> 0" using x y by auto
  show ?thesis
  proof (cases raw)
    case True
    define s where "s = (w * 2 + 3) div 4 * 4"
    define bs where "bs = map (\<lambda>r. pad4 (concat (map le16 r))) (rev m)"
    have s: "w * 2 \<le> s" by (simp add: s_def)
    have b: "\<forall>b \<in> set bs. length b = s" using m s by (auto simp: bs_def pad4_def concat_words s_def)
    let ?k = "length m - 1 - y"
    have k: "?k < length bs" using y by (simp add: bs_def)
    have c: "take s (drop (?k * s) (concat bs)) = bs ! ?k" "length (concat bs) = length m * s"
      using chunk_concat [OF b k] by (simp_all add: bs_def)
    have "Suc ?k * s \<le> length m * s" using y by (intro mult_le_mono1) simp
    then have fit: "?k * s + w * 2 \<le> length (concat bs)" using c(2) s by simp
    have "length m - 1 - y < length m" "length m - Suc (length m - 1 - y) = y" using y by auto
    then have row: "bs ! ?k = pad4 (concat (map le16 (m ! y)))" by (simp only: bs_def nth_map length_rev rev_nth)
    have "take (w * 2) (drop (?k * s) (concat bs)) = take (w * 2) (take s (drop (?k * s) (concat bs)))"
      using s by (simp add: min_def)
    also have "\<dots> = concat (map le16 (m ! y))" unfolding c(1) row by (simp add: pad4_def concat_words l)
    finally have r: "tile_row ?bm y = Some (concat (map le16 (m ! y)))"
      using fit True by (simp add: tile_row_def tile565_def src_stride_def Let_def raw_data_def bs_def s_def)
    moreover have "BmData ?bm = concat bs" using True by (simp add: tile565_def raw_data_def bs_def)
    then have "BmData ?bm \<noteq> []" using fit pos by (cases "concat bs = []") simp_all
    ultimately show ?thesis
      using True pos x l word_concat(3,4) [of x "m ! y"] join_be
      by (simp add: bitmapToImage_def tile565_def tile_colour_def)
  next
    case False
    define bs where "bs = map (\<lambda>r. concat (map be16 r)) m"
    have b: "\<forall>b \<in> set bs. length b = w * 2" using m by (auto simp: bs_def concat_words)
    have k: "y < length bs" using y by (simp add: bs_def)
    have c: "take (w * 2) (drop (y * (w * 2)) (concat bs)) = concat (map be16 (m ! y))" "length (concat bs) = length m * (w * 2)"
      using chunk_concat [OF b k] y by (simp_all add: bs_def)
    have "Suc y * (w * 2) \<le> length m * (w * 2)" using y by (intro mult_le_mono1) simp
    then have fit: "y * (w * 2) + w * 2 \<le> length (concat bs)" using c(2) by simp
    then have r: "tile_row ?bm y = Some (concat (map be16 (m ! y)))"
      using c(1) False by (simp add: tile_row_def tile565_def src_stride_def Let_def decoded_data_def bs_def)
    moreover have "BmData ?bm = concat bs" using False by (simp add: tile565_def decoded_data_def bs_def)
    then have "BmData ?bm \<noteq> []" using fit pos by (cases "concat bs = []") simp_all
    ultimately show ?thesis
      using False pos x l word_concat(1,2) [of x "m ! y"] join_be
      by (simp add: bitmapToImage_def tile565_def tile_colour_def)
  qed
qed

definition fb565 :: "fb \<Rightarrow> bool" where
  "fb565 f \<longleftrightarrow> fb_bpp f = 2 \<and> rOff f = 11 \<and> rLen f = 5 \<and> gOff f = 5 \<and> gLen f = 6 \<and> bOff f = 0 \<and> bLen f = 5"

lemma masks: "(0x3F :: byte) = mask 6" "(0x1F :: byte) = mask 5" "(0x3F :: u16) = mask 6" "(0x1F :: u16) = mask 5"
  by (simp_all add: mask_eq_exp_minus_1)

lemma no_bit: "16 \<le> n \<Longrightarrow> \<not> bit (v :: u16) n"
  using bit_imp_le_length [of v n] by auto

lemma narrow_red:
  assumes "r = ucast (drop_bit 11 (v :: u16))"
  shows "drop_bit 3 (ucast (push_bit 3 r OR drop_bit 2 r :: byte) :: u32) = ucast (drop_bit 11 v)"
proof (rule bit_word_eqI)
  fix n :: nat
  consider "n < 3" | "3 \<le> n" "n < 5" | "5 \<le> n" by linarith
  then show "bit (drop_bit 3 (ucast (push_bit 3 r OR drop_bit 2 r :: byte) :: u32)) n \<longleftrightarrow> bit (ucast (drop_bit 11 v) :: u32) n" if "n < LENGTH(32)"
    using that unfolding assms by cases (auto simp: bit_simps no_bit)
qed

lemma narrow_green:
  assumes "g = ucast (drop_bit 5 (v :: u16)) AND mask 6"
  shows "drop_bit 2 (ucast (push_bit 2 g OR drop_bit 4 g :: byte) :: u32) = ucast (drop_bit 5 v AND mask 6)"
proof (rule bit_word_eqI)
  fix n :: nat
  consider "n < 2" | "2 \<le> n" "n < 6" | "6 \<le> n" by linarith
  then show "bit (drop_bit 2 (ucast (push_bit 2 g OR drop_bit 4 g :: byte) :: u32)) n \<longleftrightarrow> bit (ucast (drop_bit 5 v AND mask 6) :: u32) n" if "n < LENGTH(32)"
    using that unfolding assms by cases (auto simp: bit_simps no_bit)
qed

lemma narrow_blue:
  assumes "b = ucast (v :: u16) AND mask 5"
  shows "drop_bit 3 (ucast (push_bit 3 b OR drop_bit 2 b :: byte) :: u32) = ucast (v AND mask 5)"
proof (rule bit_word_eqI)
  fix n :: nat
  consider "n < 3" | "3 \<le> n" "n < 5" | "5 \<le> n" by linarith
  then show "bit (drop_bit 3 (ucast (push_bit 3 b OR drop_bit 2 b :: byte) :: u32)) n \<longleftrightarrow> bit (ucast (v AND mask 5) :: u32) n" if "n < LENGTH(32)"
    using that unfolding assms by cases (auto simp: bit_simps no_bit)
qed

lemma fields_word:
  "push_bit 11 (ucast (drop_bit 11 v) :: u32) OR push_bit 5 (ucast (drop_bit 5 v AND mask 6)) OR ucast (v AND mask 5) = ucast (v :: u16)"
proof (rule bit_word_eqI)
  fix n :: nat
  consider "n < 5" | "5 \<le> n" "n < 11" | "11 \<le> n" by linarith
  then show "bit (push_bit 11 (ucast (drop_bit 11 v) :: u32) OR push_bit 5 (ucast (drop_bit 5 v AND mask 6)) OR ucast (v AND mask 5)) n
      = bit (ucast v :: u32) n" if "n < LENGTH(32)"
    using that by cases (auto simp: bit_simps)
qed

lemma pack_widen:
  assumes "fb565 f"
  shows "pixel_bytes f (widen565 v) = le16 v"
proof -
  have "pack f (widen565 v) = ucast v"
    using assms fields_word [of v] narrow_red [OF refl, of v] narrow_green [OF refl, of v] narrow_blue [OF refl, of v]
    by (simp add: pack_def fb565_def widen565_def Let_def scale_channel_def masks)
  moreover have "ucast (drop_bit 8 (ucast v :: u32)) = (ucast (drop_bit 8 v) :: byte)"
    by (rule bit_word_eqI) (auto simp: bit_simps)
  moreover have "ucast (ucast v :: u32) = (ucast v :: byte)" by (rule bit_word_eqI) (auto simp: bit_simps)
  ultimately show ?thesis using assms
    by (simp add: pixel_bytes_def fb_xrgb_def fb565_def le16_def upt_rec)
qed

text \<open>C37. A 16-bit tile, whether the library has decoded it or hands it over as it was on the wire, comes out on a
  16-bit screen as the very words the server drew, each at its own place: rows the right way up, bytes the right way
  round, padding skipped, and nothing lost by the detour over eight bits a colour.\<close>

theorem tile_words_kept:
  assumes "fb_ok f" "fb565 f" "\<forall>r \<in> set m. length r = w" "y < length m" "x < w"
    "in_rect (l + int x) (t + int y) (fb_bounds f)"
  shows "fb_shown (BlitRect (bitmapToImage (tile565 raw l t w m)) (Bounds (bitmapToImage (tile565 raw l t w m))) f)
    (l + int x) (t + int y) = le16 (m ! y ! x)"
proof -
  have "in_rect (l + int x) (t + int y) (Bounds (bitmapToImage (tile565 raw l t w m)))"
    using assms(4,5) by (auto simp: bitmapToImage_def tile565_def in_rect_def mk_rect_def)
  then show ?thesis
    using assms by (simp add: BlitRect_shown tile565_pixel pack_widen)
qed

lemma tile_words_kept_witness:
  "fb_shown (BlitRect (bitmapToImage (tile565 True 1 0 1 [[0xF79E], [7]])) (Bounds (bitmapToImage (tile565 True 1 0 1 [[0xF79E], [7]])))
      \<lparr>fb_width = 2, fb_height = 2, fb_stride = 6, fb_bpp = 2, rOff = 11, gOff = 5, bOff = 0, rLen = 5, gLen = 6, bLen = 5,
        fb_data = replicate 12 0\<rparr>) 1 0 = [0x9E, 0xF7]"
  using tile_words_kept [of "\<lparr>fb_width = 2, fb_height = 2, fb_stride = 6, fb_bpp = 2, rOff = 11, gOff = 5, bOff = 0, rLen = 5,
      gLen = 6, bLen = 5, fb_data = replicate 12 0\<rparr>" "[[0xF79E], [7]]" 1 0 0 1 0 True]
  by (simp add: fb_ok_def fb565_def in_bounds le16_def)

end
