(* ===== verification/RdpClient.thy ===== *)
theory RdpClient
  imports Engine "HOL-Library.Sublist"
begin

unbundle bit_operations_syntax

text \<open>
  The built-in client of \<open>internal/rdp/client.go\<close>, around the protocol library: coming up and ending (\<open>New\<close>),
  the screen updates on their way to the session (\<open>push\<close>, \<open>pump\<close>) and the keys and the pointer on theirs to the
  server. The goroutines are the steps of two relations; the end of the session only stops the pointer's sender, and is no step of its
  relation. The library is not part of the repository: what it
  is told is a list of calls.
\<close>

section \<open>Coming up\<close>

definition client_user :: "rdp_credentials \<Rightarrow> string" where
  "client_user c = (if RdpDomain c \<noteq> [] then RdpDomain c @ [CHR 0x5C] @ RdpUser c else RdpUser c)"

datatype client_event =
  LoginFails string
| OnReady
| OnError string
| OnClose
| SeesReady          \<comment> \<open>the branches of \<open>New\<close>'s select\<close>
| SeesError
| SeesTimeout
| ClientClose        \<comment> \<open>\<open>Close\<close>\<close>

record client =
  cl_up :: bool
  ready_ch :: bool                          \<comment> \<open>the channels of one place\<close>
  err_ch :: "string option"
  cl_failed :: bool
  cl_done :: bool
  came_of :: "(string + unit) option"      \<comment> \<open>what \<open>New\<close> has returned\<close>

definition new_client :: client where
  "new_client = \<lparr>cl_up = False, ready_ch = False, err_ch = None, cl_failed = False, cl_done = False, came_of = None\<rparr>"

definition client_error :: "string \<Rightarrow> string \<Rightarrow> string" where
  "client_error addr e = ''RDP connect '' @ addr @ '': '' @ e"

primrec client_step :: "string \<Rightarrow> client_event \<Rightarrow> client \<Rightarrow> client option" where
  "client_step addr (LoginFails e) c =
     (if c = new_client then Some (c\<lparr>cl_done := True, came_of := Some (Inl (client_error addr e))\<rparr>) else None)"
| "client_step addr OnReady c = Some (c\<lparr>cl_up := True, ready_ch := True\<rparr>)"
| "client_step addr (OnError e) c =
     Some (if cl_up c then c\<lparr>cl_failed := True, cl_done := True\<rparr>
           else c\<lparr>err_ch := (case err_ch c of None \<Rightarrow> Some e | Some x \<Rightarrow> Some x)\<rparr>)"
| "client_step addr OnClose c = Some (c\<lparr>cl_done := True\<rparr>)"
| "client_step addr SeesReady c =
     (if came_of c = None \<and> ready_ch c then Some (c\<lparr>ready_ch := False, came_of := Some (Inr ())\<rparr>) else None)"
| "client_step addr SeesError c =
     (case err_ch c of Some e \<Rightarrow>
        if came_of c = None then Some (c\<lparr>err_ch := None, cl_done := True, came_of := Some (Inl (client_error addr e))\<rparr>) else None
      | None \<Rightarrow> None)"
| "client_step addr SeesTimeout c =
     (if came_of c = None then Some (c\<lparr>cl_done := True, came_of := Some (Inl (client_error addr ''timeout after 30s''))\<rparr>) else None)"
| "client_step addr ClientClose c = (if came_of c = Some (Inr ()) then Some (c\<lparr>cl_done := True\<rparr>) else None)"

primrec client_run :: "string \<Rightarrow> client_event list \<Rightarrow> client \<Rightarrow> client option" where
  "client_run addr [] c = Some c"
| "client_run addr (e # es) c = (case client_step addr e c of None \<Rightarrow> None | Some d \<Rightarrow> client_run addr es d)"

definition ClientFailed :: "client \<Rightarrow> bool" where "ClientFailed c = cl_failed c"
definition ClientRejected :: "client \<Rightarrow> bool" where "ClientRejected c = False"

definition client_inv :: "client \<Rightarrow> bool" where
  "client_inv c \<longleftrightarrow> (cl_failed c \<longrightarrow> cl_up c \<and> cl_done c) \<and> (ready_ch c \<longrightarrow> cl_up c) \<and> (came_of c = Some (Inr ()) \<longrightarrow> cl_up c) \<and>
     (\<forall>e. came_of c = Some (Inl e) \<longrightarrow> cl_done c)"

lemma client_step_inv: "client_inv c \<Longrightarrow> client_step addr e c = Some d \<Longrightarrow> client_inv d"
  by (cases e) (auto simp: client_inv_def split: if_splits option.splits)

lemma client_run_inv: "client_inv c \<Longrightarrow> client_run addr es c = Some d \<Longrightarrow> client_inv d"
  by (induction es arbitrary: c) (auto dest: client_step_inv split: option.splits)

lemma client_stays_done: "client_run addr es c = Some d \<Longrightarrow> cl_done c \<Longrightarrow> cl_done d"
proof (induction es arbitrary: c)
  case (Cons e es)
  obtain c1 where c1: "client_step addr e c = Some c1" "client_run addr es c1 = Some d"
    using Cons.prems(1) by (auto split: option.splits)
  have "cl_done c1" using c1(1) Cons.prems(2) by (cases e) (auto split: if_splits option.splits)
  then show ?case using Cons.IH c1(2) by blast
qed simp

text \<open>An attempt that has failed leaves nothing running, and only a session that was up is ever said to have failed.\<close>

lemma client_ends:
  assumes "client_run addr es new_client = Some c"
  shows "ClientFailed c \<Longrightarrow> cl_up c \<and> cl_done c" and "came_of c = Some (Inl e) \<Longrightarrow> cl_done c"
    and "came_of c = Some (Inr ()) \<Longrightarrow> cl_up c"
  using client_run_inv [OF _ assms] by (auto simp: client_inv_def new_client_def ClientFailed_def)

section \<open>Screen updates\<close>

definition updateBacklog :: nat where "updateBacklog = 128"
definition frameBacklog :: nat where "frameBacklog = 8"

record 't frames =
  raw :: "'t list"          \<comment> \<open>the channels, oldest first\<close>
  hand :: "'t option"       \<comment> \<open>what \<open>pump\<close> has taken and not yet handed on\<close>
  out :: "'t list"          \<comment> \<open>\<open>frames\<close>\<close>
  ended :: bool             \<comment> \<open>\<open>done\<close> is closed\<close>
  out_closed :: bool
  pushed :: "'t list"       \<comment> \<open>all that \<open>push\<close> has taken, and all that the session has got\<close>
  got :: "'t list"

definition no_frames :: "'t frames" where
  "no_frames = \<lparr>raw = [], hand = None, out = [], ended = False, out_closed = False, pushed = [], got = []\<rparr>"

inductive frames_step :: "'t frames \<Rightarrow> 't frames \<Rightarrow> bool" where
  push: "length (raw s) < updateBacklog \<Longrightarrow> frames_step s (s\<lparr>raw := raw s @ [t], pushed := pushed s @ [t]\<rparr>)"
| push_dropped: "ended s \<Longrightarrow> frames_step s s"
| pump_takes: "\<not> out_closed s \<Longrightarrow> hand s = None \<Longrightarrow> raw s = t # ts \<Longrightarrow> frames_step s (s\<lparr>raw := ts, hand := Some t\<rparr>)"
| pump_hands: "\<not> out_closed s \<Longrightarrow> hand s = Some t \<Longrightarrow> length (out s) < frameBacklog \<Longrightarrow>
    frames_step s (s\<lparr>hand := None, out := out s @ [t]\<rparr>)"
| pump_ends: "\<not> out_closed s \<Longrightarrow> ended s \<Longrightarrow> frames_step s (s\<lparr>hand := None, out_closed := True\<rparr>)"
| session_gets: "out s = t # ts \<Longrightarrow> frames_step s (s\<lparr>out := ts, got := got s @ [t]\<rparr>)"
| shutdown: "frames_step s (s\<lparr>ended := True\<rparr>)"

inductive_cases frames_stepE: "frames_step s t"

definition session_over :: "'t frames \<Rightarrow> bool" where
  \<comment> \<open>\<open>for update := range Frames()\<close> ends\<close>
  "session_over s \<longleftrightarrow> out_closed s \<and> out s = []"

definition frames_inv :: "'t frames \<Rightarrow> bool" where
  "frames_inv s \<longleftrightarrow> length (raw s) \<le> updateBacklog \<and> length (out s) \<le> frameBacklog \<and> (out_closed s \<longrightarrow> ended s) \<and>
     (\<not> out_closed s \<longrightarrow> got s @ out s @ (case hand s of None \<Rightarrow> [] | Some t \<Rightarrow> [t]) @ raw s = pushed s) \<and>
     prefix (got s @ out s) (pushed s)"

lemma frames_step_inv: "frames_step s t \<Longrightarrow> frames_inv s \<Longrightarrow> frames_inv t"
  by (induction rule: frames_step.induct) (auto simp: frames_inv_def prefix_def)

lemma frames_run_inv: "frames_step\<^sup>*\<^sup>* s t \<Longrightarrow> frames_inv s \<Longrightarrow> frames_inv t"
  by (induction rule: rtranclp_induct) (auto simp: frames_step_inv)

lemma no_frames_inv: "frames_inv no_frames"
  by (simp add: frames_inv_def no_frames_def)

text \<open>What is on its way gets there, and the session's loop ends.\<close>

definition on_the_way :: "'t frames \<Rightarrow> nat" where
  "on_the_way s = 3 * length (raw s) + (if hand s = None then 0 else 2) + length (out s)"

lemma frames_move:
  assumes "frames_inv s" "\<not> out_closed s" "0 < on_the_way s"
  shows "\<exists>t. frames_step s t \<and> on_the_way t < on_the_way s \<and> pushed t = pushed s \<and> \<not> out_closed t \<and> ended t = ended s"
proof -
  consider u us where "out s = u # us" | u where "out s = []" "hand s = Some u" | u us where "out s = []" "hand s = None" "raw s = u # us"
    using assms(3) by (cases "out s"; cases "hand s"; cases "raw s") (auto simp: on_the_way_def)
  then show ?thesis
  proof cases
    case 1
    then show ?thesis using session_gets [OF 1] assms(2) by (intro exI) (auto simp: on_the_way_def)
  next
    case 2
    then show ?thesis using pump_hands [of s u] assms(2) by (intro exI) (auto simp: on_the_way_def frameBacklog_def)
  next
    case 3
    then show ?thesis using pump_takes [OF assms(2) 3(2,3)] assms(2) by (intro exI) (auto simp: on_the_way_def)
  qed
qed

lemma frames_drain:
  assumes "frames_inv s" "\<not> out_closed s"
  shows "\<exists>t. frames_step\<^sup>*\<^sup>* s t \<and> got t = pushed s \<and> out t = [] \<and> \<not> out_closed t \<and> ended t = ended s"
  using assms
proof (induction "on_the_way s" arbitrary: s rule: less_induct)
  case less
  show ?case
  proof (cases "on_the_way s = 0")
    case True
    then have "out s = []" "hand s = None" "raw s = []" by (auto simp: on_the_way_def split: if_splits)
    then show ?thesis using less.prems by (intro exI [of _ s]) (auto simp: frames_inv_def)
  next
    case False
    then obtain t where t: "frames_step s t" "on_the_way t < on_the_way s" "pushed t = pushed s" "\<not> out_closed t" "ended t = ended s"
      using frames_move [OF less.prems] by auto
    from less.hyps [OF t(2) frames_step_inv [OF t(1) less.prems(1)] t(4)] t show ?thesis
      by (metis converse_rtranclp_into_rtranclp)
  qed
qed

lemma frames_end:
  assumes "frames_inv s" "ended s"
  shows "\<exists>t. frames_step\<^sup>*\<^sup>* s t \<and> session_over t"
proof -
  have o: "\<exists>t. frames_step\<^sup>*\<^sup>* s t \<and> session_over t" if "out_closed s" for s :: "'a frames"
    using that
  proof (induction "out s" arbitrary: s)
    case Nil
    then show ?case by (intro exI [of _ s]) (simp add: session_over_def)
  next
    case (Cons u us)
    from Cons.hyps(1) [of "s\<lparr>out := us, got := got s @ [u]\<rparr>"] Cons.prems session_gets [OF Cons.hyps(2) [symmetric]]
    show ?case by (auto intro: converse_rtranclp_into_rtranclp)
  qed
  show ?thesis
  proof (cases "out_closed s")
    case False
    from pump_ends [OF this assms(2)] o [of "s\<lparr>hand := None, out_closed := True\<rparr>"] show ?thesis
      by (auto intro: converse_rtranclp_into_rtranclp)
  qed (rule o)
qed



section \<open>Keys and the pointer\<close>

datatype server_call =
  KeyEvent int bool bool      \<comment> \<open>scan code, extended, down\<close>
| MouseMove int int
| MouseDown int int int
| MouseUp int int int
| MouseWheel int int int

definition grdpButton :: "int \<Rightarrow> int" where
  "grdpButton b = (if b = 2 then 2 else if b = 3 then 1 else 0)"

datatype client_input =
  InKey int bool
| InDown int int int
| InUp int int int
| InWheel int int int

primrec client_calls :: "client_input \<Rightarrow> server_call list" where
  \<comment> \<open>\<open>SendKey\<close>, \<open>SendMouseDown\<close>, \<open>SendMouseUp\<close> and \<open>SendWheel\<close>\<close>
  "client_calls (InKey code down) =
     (let sc = linuxToRDPScanCode code in if sc = 0 then [] else [KeyEvent sc (isExtendedKey code) down])"
| "client_calls (InDown button x y) = (if button > 3 then [] else [MouseDown (grdpButton button) x y])"
| "client_calls (InUp button x y) = (if button > 3 then [] else [MouseUp (grdpButton button) x y])"
| "client_calls (InWheel n x y) =
     (if n > 0 then replicate (nat n) (MouseWheel 1 x y) else replicate (nat (- n)) (MouseWheel (- 1) x y))"

definition mouse_word :: "int \<times> int \<Rightarrow> 64 word" where
  "mouse_word p = push_bit 32 (ucast (word_of_int (fst p) :: u32)) OR ucast (word_of_int (snd p) :: u32)"

definition mouse_at :: "64 word \<Rightarrow> int \<times> int" where
  "mouse_at xy = (uint (ucast (drop_bit 32 xy) :: u32), uint (ucast xy :: u32))"

datatype sender = Waits | Kicked | Sends "64 word"

record pointer_out =
  mouseXY :: "64 word"
  storing :: bool               \<comment> \<open>\<open>SendMouse\<close> is between its store and its kick\<close>
  mouseKick :: bool             \<comment> \<open>the channel of one place\<close>
  sender :: sender              \<comment> \<open>\<open>mouseSender\<close>\<close>
  last_xy :: "64 word"
  calls :: "server_call list"   \<comment> \<open>in the order the library gets them\<close>
  moved :: "(int \<times> int) list"  \<comment> \<open>the moves asked for\<close>

definition no_pointer :: pointer_out where
  "no_pointer = \<lparr>mouseXY = 0, storing = False, mouseKick = False, sender = Waits, last_xy = - 1, calls = [], moved = []\<rparr>"

inductive send_step :: "bool \<Rightarrow> pointer_out \<Rightarrow> pointer_out \<Rightarrow> bool" where
  \<comment> \<open>whether the step begins something new, and the step\<close>
  store: "\<not> storing s \<Longrightarrow> send_step True s (s\<lparr>mouseXY := mouse_word p, storing := True, moved := moved s @ [p]\<rparr>)"
| kick: "storing s \<Longrightarrow> send_step False s (s\<lparr>storing := False, mouseKick := True\<rparr>)"
| takes: "sender s = Waits \<Longrightarrow> mouseKick s \<Longrightarrow> send_step False s (s\<lparr>mouseKick := False, sender := Kicked\<rparr>)"
| skips: "sender s = Kicked \<Longrightarrow> mouseXY s = last_xy s \<Longrightarrow> send_step False s (s\<lparr>sender := Waits\<rparr>)"
| loads: "sender s = Kicked \<Longrightarrow> mouseXY s \<noteq> last_xy s \<Longrightarrow>
    send_step False s (s\<lparr>last_xy := mouseXY s, sender := Sends (mouseXY s)\<rparr>)"
| moves: "sender s = Sends xy \<Longrightarrow>
    send_step False s (s\<lparr>calls := calls s @ [MouseMove (fst (mouse_at xy)) (snd (mouse_at xy))], sender := Waits\<rparr>)"
| input: "\<not> storing s \<Longrightarrow> send_step True s (s\<lparr>calls := calls s @ client_calls i\<rparr>)"

inductive_cases send_stepE: "send_step b s t"

definition send_any :: "pointer_out \<Rightarrow> pointer_out \<Rightarrow> bool" where
  "send_any s t \<longleftrightarrow> (\<exists>b. send_step b s t)"

definition send_quiet :: "pointer_out \<Rightarrow> bool" where
  "send_quiet s \<longleftrightarrow> \<not> storing s \<and> \<not> mouseKick s \<and> sender s = Waits"

fun move_calls :: "server_call list \<Rightarrow> (int \<times> int) list" where
  "move_calls [] = []"
| "move_calls (MouseMove x y # cs) = (x, y) # move_calls cs"
| "move_calls (_ # cs) = move_calls cs"

lemma move_calls_append [simp]: "move_calls (a @ b) = move_calls a @ move_calls b"
  by (induction a rule: move_calls.induct) simp_all

lemma move_calls_input [simp]: "move_calls (client_calls i) = []"
proof -
  have w: "move_calls (replicate n (MouseWheel d x y)) = []" for n d x y by (induction n) simp_all
  show ?thesis by (cases i) (simp_all add: w Let_def)
qed

lemma mouse_at_word: "mouse_at (mouse_word p) = (fst p mod 2 ^ 32, snd p mod 2 ^ 32)"
proof -
  have "(ucast (drop_bit 32 (mouse_word p)) :: u32) = word_of_int (fst p)" "(ucast (mouse_word p) :: u32) = word_of_int (snd p)"
    unfolding mouse_word_def by (rule bit_word_eqI, auto simp: bit_simps)+
  then show ?thesis by (simp add: mouse_at_def uint_word_of_int)
qed

lemma mouse_at_ones: "mouse_at (- 1) = (2 ^ 32 - 1, 2 ^ 32 - 1)"
proof -
  have "(ucast (drop_bit 32 (- 1 :: 64 word)) :: u32) = - 1" "(ucast (- 1 :: 64 word) :: u32) = - 1"
    by (rule bit_word_eqI, auto simp: bit_simps)+
  then show ?thesis by (simp only: mouse_at_def) (simp add: unsigned_minus_1_eq_mask mask_eq_exp_minus_1)
qed

lemma subseq_snoc: "subseq xs (ys @ [y]) \<Longrightarrow> subseq xs ys \<or> (\<exists>zs. xs = zs @ [y] \<and> subseq zs ys)"
proof -
  assume "subseq xs (ys @ [y])"
  then obtain a b where ab: "xs = a @ b" "subseq a ys" "subseq b [y]" by (auto simp: subseq_append_iff)
  then have "b = [] \<or> b = [y]" by (cases b) (auto split: if_splits)
  then show ?thesis using ab by auto
qed

definition sent_for :: "pointer_out \<Rightarrow> 64 word list \<Rightarrow> bool" where
  \<comment> \<open>what the sender has loaded so far\<close>
  "sent_for s sent \<longleftrightarrow>
     move_calls (calls s) @ (case sender s of Sends xy \<Rightarrow> [mouse_at xy] | _ \<Rightarrow> []) = map mouse_at sent \<and>
     subseq sent (map mouse_word (moved s)) \<and> last_xy s = (if sent = [] then - 1 else last sent)"

definition send_inv :: "pointer_out \<Rightarrow> bool" where
  "send_inv s \<longleftrightarrow> (\<exists>sent. sent_for s sent) \<and>
   (moved s \<noteq> [] \<longrightarrow> mouseXY s = mouse_word (last (moved s))) \<and>
   (storing s \<or> mouseKick s \<or> sender s \<noteq> Waits \<longrightarrow> moved s \<noteq> []) \<and>
   (moved s = [] \<or> mouseXY s = last_xy s \<or> storing s \<or> mouseKick s \<or> sender s = Kicked)"

lemma sent_for_step:
  assumes "send_step b s t" "sent_for s sent" "moved s \<noteq> [] \<longrightarrow> mouseXY s = mouse_word (last (moved s))"
    "sender s \<noteq> Waits \<longrightarrow> moved s \<noteq> []"
  shows "\<exists>sent. sent_for t sent"
  using assms
proof (cases rule: send_step.cases)
  case (store p)
  have "subseq sent (map mouse_word (moved s @ [p]))"
    using assms(2) by (simp add: sent_for_def subseq_append_iff) (metis append_Nil2 list_emb_Nil)
  then show ?thesis using assms(2) store by (intro exI [of _ sent]) (simp add: sent_for_def)
next
  case loads
  have m: "moved s \<noteq> []" "mouseXY s = mouse_word (last (moved s))" using assms(3,4) loads by simp_all
  have l: "map mouse_word (moved s) = map mouse_word (butlast (moved s)) @ [mouseXY s]"
    using m append_butlast_last_id [OF m(1)] by (metis list.simps(8) list.simps(9) map_append)
  have w: "subseq sent (map mouse_word (moved s))" using assms(2) by (simp add: sent_for_def)
  have "subseq sent (map mouse_word (butlast (moved s)))"
    using subseq_snoc [OF w [unfolded l]]
  proof
    assume "\<exists>zs. sent = zs @ [mouseXY s] \<and> subseq zs (map mouse_word (butlast (moved s)))"
    then have "last_xy s = mouseXY s" using assms(2) by (auto simp: sent_for_def)
    with loads show ?thesis by simp
  qed
  then have "subseq (sent @ [mouseXY s]) (map mouse_word (moved s))" unfolding l by (rule list_emb_append_mono) simp
  then show ?thesis using assms(2) loads by (intro exI [of _ "sent @ [mouseXY s]"]) (simp add: sent_for_def)
qed (intro exI [of _ sent]; simp add: sent_for_def)+

lemma send_step_inv: "send_step b s t \<Longrightarrow> send_inv s \<Longrightarrow> send_inv t"
proof -
  assume s: "send_step b s t" and i: "send_inv s"
  then have "\<exists>sent. sent_for t sent" using sent_for_step by (auto simp: send_inv_def)
  with s i show "send_inv t" by (cases rule: send_step.cases) (simp_all add: send_inv_def, metis)
qed

lemma send_run_inv: "send_any\<^sup>*\<^sup>* no_pointer s \<Longrightarrow> send_inv s"
proof (induction rule: rtranclp_induct)
  case base
  then show ?case by (auto simp: send_inv_def sent_for_def no_pointer_def intro: exI [of _ "[]"])
qed (auto simp: send_any_def send_step_inv)

definition send_work :: "pointer_out \<Rightarrow> nat" where
  "send_work s = (if storing s then 4 else 0) + (if mouseKick s then 3 else 0) +
     (case sender s of Waits \<Rightarrow> 0 | Kicked \<Rightarrow> 2 | Sends _ \<Rightarrow> 1)"

lemma send_goes_on: "\<not> send_quiet s \<Longrightarrow> \<exists>t. send_step False s t \<and> send_work t < send_work s \<and> moved t = moved s"
proof (cases "storing s")
  case True
  then show ?thesis using send_step.kick [OF True] by (intro exI) (auto simp: send_work_def)
next
  case False
  assume q: "\<not> send_quiet s"
  show ?thesis
  proof (cases "sender s")
    case Waits
    then show ?thesis using takes [OF Waits] q False
      by (intro exI [of _ "s\<lparr>mouseKick := False, sender := Kicked\<rparr>"]) (auto simp: send_work_def send_quiet_def)
  next
    case Kicked
    show ?thesis
    proof (cases "mouseXY s = last_xy s")
      case True
      then show ?thesis using skips [OF Kicked] Kicked
        by (intro exI [of _ "s\<lparr>sender := Waits\<rparr>"]) (auto simp: send_work_def)
    next
      case False
      then show ?thesis using loads [OF Kicked] Kicked
        by (intro exI [of _ "s\<lparr>last_xy := mouseXY s, sender := Sends (mouseXY s)\<rparr>"]) (auto simp: send_work_def)
    qed
  next
    case (Sends xy)
    then show ?thesis using moves [OF Sends] by (intro exI conjI) (assumption, auto simp: send_work_def)
  qed
qed

lemma send_settles: "\<exists>t. (send_step False)\<^sup>*\<^sup>* s t \<and> send_quiet t \<and> moved t = moved s"
proof (induction "send_work s" arbitrary: s rule: less_induct)
  case less
  show ?case
  proof (cases "send_quiet s")
    case False
    from send_goes_on [OF this] obtain t where t: "send_step False s t" "send_work t < send_work s" "moved t = moved s" by blast
    from less.hyps [OF t(2)] t show ?thesis by (metis converse_rtranclp_into_rtranclp)
  qed auto
qed

text \<open>C39. The pointer ends up where it was put. As long as the session lasts, however fast it moves and however slow the connection is, the
  positions the server gets are among those asked for, in their order; once nothing more is asked, a handful of steps of the
  sender bring everything to rest; and at rest the position the server got last is the one asked for last.\<close>

theorem pointer_arrives:
  assumes "send_any\<^sup>*\<^sup>* no_pointer s" "\<forall>p \<in> set (moved s). 0 \<le> fst p \<and> fst p < 2 ^ 31 \<and> 0 \<le> snd p \<and> snd p < 2 ^ 31"
  shows "subseq (move_calls (calls s)) (moved s) \<and>
    (send_quiet s \<and> moved s \<noteq> [] \<longrightarrow> move_calls (calls s) \<noteq> [] \<and> last (move_calls (calls s)) = last (moved s)) \<and>
    (\<exists>t. (send_step False)\<^sup>*\<^sup>* s t \<and> send_quiet t \<and> moved t = moved s)"
proof -
  obtain sent where w: "move_calls (calls s) @ (case sender s of Sends xy \<Rightarrow> [mouse_at xy] | _ \<Rightarrow> []) = map mouse_at sent"
      "subseq sent (map mouse_word (moved s))" "last_xy s = (if sent = [] then - 1 else last sent)"
    and m: "moved s \<noteq> [] \<Longrightarrow> mouseXY s = mouse_word (last (moved s))"
    and q: "moved s = [] \<or> mouseXY s = last_xy s \<or> storing s \<or> mouseKick s \<or> sender s = Kicked"
    using send_run_inv [OF assms(1)] unfolding send_inv_def sent_for_def by blast
  have a: "mouse_at (mouse_word p) = p" if "p \<in> set (moved s)" for p
    using assms(2) that by (auto simp: mouse_at_word prod_eq_iff)
  have "map mouse_at (map mouse_word (moved s)) = moved s" using a by (simp add: map_idI)
  then have "subseq (map mouse_at sent) (moved s)" using subseq_map [OF w(2), of mouse_at] by simp
  then have 1: "subseq (move_calls (calls s)) (moved s)"
    using w(1) by (metis subseq_order.trans list_emb_append2 prefix_imp_subseq prefixI)
  have 2: "move_calls (calls s) \<noteq> [] \<and> last (move_calls (calls s)) = last (moved s)" if "send_quiet s" "moved s \<noteq> []"
  proof -
    have l: "mouseXY s = last_xy s" "sender s = Waits" using q that by (auto simp: send_quiet_def)
    have p: "mouse_at (mouseXY s) = last (moved s)" using m [OF that(2)] a that(2) by simp
    have "fst (last (moved s)) < 2 ^ 31" using assms(2) that(2) by simp
    moreover have "fst (mouse_at (- 1)) = 2 ^ 32 - 1" by (simp add: mouse_at_ones)
    ultimately have "mouseXY s \<noteq> - 1" unfolding p [symmetric] by auto
    then have "sent \<noteq> []" "last sent = mouseXY s" using l(1) w(3) by (auto split: if_splits)
    then show ?thesis using w(1) l(2) p by (simp add: last_map)
  qed
  from 1 2 send_settles [of s] show ?thesis by blast
qed

text \<open>A press that follows a move can be told first: it does not wait for the sender.\<close>

lemma press_overtakes:
  "\<exists>s. send_any\<^sup>*\<^sup>* no_pointer s \<and> moved s = [(5, 6)] \<and> calls s = [MouseDown 0 5 6, MouseMove 5 6]"
proof -
  define s1 where "s1 = no_pointer\<lparr>mouseXY := mouse_word (5, 6), storing := True, moved := [(5, 6)]\<rparr>"
  define s2 where "s2 = s1\<lparr>storing := False, mouseKick := True\<rparr>"
  define s3 where "s3 = s2\<lparr>calls := [MouseDown 0 5 6]\<rparr>"
  define s4 where "s4 = s3\<lparr>mouseKick := False, sender := Kicked\<rparr>"
  define s5 where "s5 = s4\<lparr>last_xy := mouse_word (5, 6), sender := Sends (mouse_word (5, 6))\<rparr>"
  define s6 where "s6 = s5\<lparr>calls := [MouseDown 0 5 6, MouseMove 5 6], sender := Waits\<rparr>"
  note d = s1_def s2_def s3_def s4_def s5_def s6_def no_pointer_def
  have a: "mouse_at (mouse_word (5, 6)) = (5, 6)" by (simp add: mouse_at_word)
  then have n: "mouse_word (5, 6) \<noteq> - 1" using mouse_at_ones by auto
  have "send_any no_pointer s1" using store [of no_pointer "(5, 6)"] by (auto simp: d send_any_def)
  moreover have "send_any s1 s2" using kick [of s1] by (auto simp: d send_any_def)
  moreover have "send_any s2 s3" using input [of s2 "InDown 1 5 6"] by (auto simp: d send_any_def grdpButton_def)
  moreover have "send_any s3 s4" using takes [of s3] by (auto simp: d send_any_def)
  moreover have "send_any s4 s5" using loads [of s4] n by (auto simp: d send_any_def)
  moreover have "send_any s5 s6" using moves [of s5 "mouse_word (5, 6)"] a by (auto simp: d send_any_def)
  ultimately have "send_any\<^sup>*\<^sup>* no_pointer s6" by (meson converse_rtranclp_into_rtranclp rtranclp.rtrancl_refl)
  moreover have "moved s6 = [(5, 6)]" "calls s6 = [MouseDown 0 5 6, MouseMove 5 6]" by (simp_all add: d)
  ultimately show ?thesis by blast
qed

lemma pointer_arrives_witness:
  "\<exists>s t. send_any\<^sup>*\<^sup>* no_pointer s \<and> moved s = [(5, 6)] \<and> (send_step False)\<^sup>*\<^sup>* s t \<and> send_quiet t \<and>
     subseq (move_calls (calls s)) [(5, 6)]"
proof -
  obtain s where s: "send_any\<^sup>*\<^sup>* no_pointer s" "moved s = [(5, 6)]" using press_overtakes by blast
  then have "\<forall>p \<in> set (moved s). 0 \<le> fst p \<and> fst p < 2 ^ 31 \<and> 0 \<le> snd p \<and> snd p < 2 ^ 31" by simp
  from pointer_arrives [OF s(1) this] s show ?thesis by auto
qed

end
