(* ===== verification/Spec2Isabelle.thy ===== *)
theory Spec2Isabelle
  imports Prelude GoBytes GoStrings AudioFormat Rdpsnd Dvc Audin BootEnv BootLoader BootPolicy
    Update UsbDevice UsbIp UsbSession Drives AudioDevices AudioSink IpAddr Hosts Cidr Scanner
    Settings AutoConf NetConf HostList Keyboard Messages InputReader UiState Wifi
    Installer Dialogs PowerDialog UpdateDialog InstallDialog WifiDialog NetDialog UiFlow UiFrames UiStart
    Engine UiConnections UiStartup EngineLink Framebuffer FrameWriter Bitmaps RdpClient
begin

text \<open>
  SimpleClient is a thin client: a small Linux image that boots straight into one Go program
  (\<open>cmd/simpleclient\<close>), which draws a list of the RDP servers of the network on the framebuffer, lets a person
  choose one, and shows that server's desktop, with its sound, USB devices and drives. This development models the
  Go program, and of the scripts around it the part of GRUB's configuration that shares a file with it.

  \<^bold>\<open>The parts and how they meet.\<close> \<open>main\<close> opens the screen and the inputs and runs the main loop
  (\<open>internal/ui/loop.go\<close>). The loop takes, one at a time, input events (\<open>inputdev\<close>), the events of a
  scan (\<open>scanner\<close>), ticks and the steps of its own goroutines, and changes one state under one lock
  (\<open>ui.UIState\<close>). Dialogs over the list set up the network, the wireless network, updates, the
  installation to a disk and power, each over a package of its own. Choosing a server starts \<open>connect\<close>, which
  resolves the name, dials through the session engine or the built-in client (\<open>rdp\<close>), and sees the session to its
  end. During a session screen updates go through \<open>rdp.FrameWriter\<close> to the framebuffer, sound through
  \<open>rdpsnd\<close> and \<open>dvc\<close> to \<open>audio\<close>, and devices through \<open>usb\<close>. From boot to boot the program
  talks to GRUB through the environment block (\<open>bootenv\<close>), on which updates to the other system slot rest.

  \<^bold>\<open>Conventions.\<close> A struct is a record, an enumeration or tagged value a datatype, an error the left of a sum or
  \<open>None\<close>; a Go string is the list of its bytes, a rune its code point, a Go map an association list whose order
  stands for one order of ranging over it; integers of the wire and of pixels are words of their width, sizes and
  positions are \<open>int\<close> or \<open>nat\<close>; a time is a number of nanoseconds, 0 the zero time. The standard library
  is modelled as far as the program uses it (\<open>GoStrings\<close>, \<open>GoBytes\<close>, \<open>IpAddr\<close>). What the kernel, a
  child process, the network or a package outside the repository answers is an argument; what is asked of them is
  recorded. A goroutine is a stretch of steps of a relation or an operation for each piece that runs under the lock, so
  that a theorem about any sequence of steps is one about every interleaving. A command or goroutine that a
  handler of a dialog starts is an entry of \<open>asked\<close>, and its end an operation of its own.

  \<^bold>\<open>Shared theories.\<close> \<open>Prelude\<close> (rule collections, byte strings, lists and maps), \<open>GoBytes\<close>
  (\<open>encoding/binary\<close>, with the locale \<open>codec\<close> of every wire format), \<open>GoStrings\<close> (\<open>strings\<close>,
  \<open>strconv\<close>, \<open>bufio\<close>, \<open>sort\<close>).

  \<^bold>\<open>Sound.\<close> \<open>AudioFormat\<close> (\<open>audio/format.go\<close>), \<open>AudioDevices\<close> (\<open>devices.go\<close>,
  \<open>jack_linux.go\<close>), \<open>AudioSink\<close> (\<open>pcm.go\<close>, \<open>sink.go\<close>), \<open>Rdpsnd\<close> (the sound output
  channel: the protocol reader and the play loop as a step relation over a queue of 64 blocks), \<open>Dvc\<close> (the dynamic
  channel transport) and \<open>Audin\<close> (its microphone listener, over the locale of a recorder that \<open>AudioSink\<close>
  satisfies). Shown: every block of sound the server sends is played or dropped once and confirmed once; fragmented
  messages arrive whole; sound goes to the endpoint chosen; the microphone is on exactly while the server has it open.

  \<^bold>\<open>Booting and updating.\<close> \<open>BootEnv\<close> (\<open>bootenv/bootenv.go\<close>), \<open>BootLoader\<close>
  (\<open>build/grub-disk.cfg\<close>, \<open>slot.cfg\<close>), \<open>BootPolicy\<close> (the two together across boots) and
  \<open>Update\<close> (\<open>update/update.go\<close>). Shown: an update that does not come up is left after one boot; a driver
  that takes the machine down is given up and tried again later; a slot holds a whole release or none; an installation
  never touches the slot in use.

  \<^bold>\<open>USB.\<close> \<open>UsbDevice\<close>, \<open>UsbIp\<close>, \<open>UsbSession\<close> and \<open>Drives\<close> (the files of the same names
  of \<open>internal/usb\<close>). Shown: each device bound for a session is given back; a drive is mounted once, under a name of
  its own, and not while the installer holds its disk.

  \<^bold>\<open>Servers and scans.\<close> \<open>IpAddr\<close>, \<open>Hosts\<close> (\<open>domain/host.go\<close>), \<open>Cidr\<close>
  (\<open>scanner/cidr.go\<close>, \<open>network/iface.go\<close>), \<open>Scanner\<close> (\<open>scanner.go\<close>, \<open>rdpname.go\<close>: a step
  function over the probes) and \<open>HostList\<close> (the list of \<open>ui/state.go\<close>). Shown: each address of a block is
  probed once; every server that answers is listed and none other stays; the cursor stays on the host it was on; a scan ends.

  \<^bold>\<open>Settings.\<close> \<open>Settings\<close> (what \<open>netconf.Save\<close> and \<open>autoconnect.Save\<close> have in common, each file
  operation able to fail), \<open>AutoConf\<close> (\<open>autoconnect\<close>), \<open>NetConf\<close> (\<open>netconf\<close>), \<open>Wifi\<close>
  (\<open>wifi/wifi.go\<close>), \<open>Installer\<close> (\<open>install/install.go\<close>). Shown: what is saved is read back, whatever
  is in it; a form shows what it was given.

  \<^bold>\<open>Input and texts.\<close> \<open>InputReader\<close> (\<open>inputdev/reader.go\<close>), \<open>Keyboard\<close>
  (\<open>keycodes.go\<close>), \<open>Messages\<close> (\<open>i18n.go\<close>). Shown: no key is lost or repeated; the pointer stays on
  the screen; every character of the three layouts can be typed; the two catalogues take the same arguments.

  \<^bold>\<open>The user interface.\<close> \<open>UiState\<close> (\<open>state.go\<close>, \<open>autoconnect.go\<close>, \<open>saved.go\<close>),
  \<open>Dialogs\<close> and \<open>PowerDialog\<close>, \<open>UpdateDialog\<close>, \<open>InstallDialog\<close>, \<open>WifiDialog\<close>,
  \<open>NetDialog\<close> (one per dialog), \<open>UiFlow\<close> (\<open>loop.go\<close>: \<open>flow_step\<close> is one turn of the loop,
  \<open>flow_run\<close> a sequence of them), \<open>UiFrames\<close> (which handlers leave what alone), \<open>UiStart\<close> (\<open>main.go\<close>,
  \<open>Run\<close> up to its loop, \<open>config\<close>), \<open>UiConnections\<close> and \<open>UiStartup\<close> (what holds of any run). Shown:
  one connection at a time; which accounts are kept; the startup server is gone back to.

  \<^bold>\<open>Sessions.\<close> \<open>Engine\<close> (\<open>rdp/engine.go\<close>, and the command loop of \<open>engine/sc-rdp.c\<close> as far as it
  reads what it is told), \<open>EngineLink\<close> (what \<open>connect\<close> makes of the engine's words), \<open>RdpClient\<close> and
  \<open>Bitmaps\<close> (\<open>rdp/client.go\<close>), \<open>Framebuffer\<close> (\<open>framebuffer\<close>, with the locale \<open>screen\<close> that
  the device and the enlarged screen over it satisfy) and \<open>FrameWriter\<close> (\<open>framewriter.go\<close>, proved once over
  that locale). Shown: the reason a connection failed for is the one said; what is told to the engine is what it reads; the
  screen is at every moment the desktop with the pointer on top; no update is lost or overtaken; the pointer ends up where
  it was put.

  \<^bold>\<open>Bounds.\<close> No definition runs on fuel. Loops over lists are structural; fragmenting a message recurses on what is
  left of it; counting through the addresses of a block is a partial function, \<open>None\<close> where the code never ends (a block
  of length 0), with a theorem that says exactly when; redialling a lost session counts its attempts. A scan,
  the play loop, the queues of a session and the pointer's sender are step relations for which it is proved that they come to
  rest. Queues have the code's sizes (64 blocks of sound, 128 and 8 screen updates); that the list of servers is slow to
  take the events of a scan, or fast, is a flag of the step.

  \<^bold>\<open>Not modelled.\<close> How the screens are drawn (\<open>render*.go\<close>, \<open>draw.go\<close>, \<open>colors.go\<close>), the fonts, the logo
  and the splash: pixels and places with no state of their own; where a click lands is therefore an argument. The single
  system calls of \<open>mount_*.go\<close> and \<open>absinfo_*.go\<close>. The protocol library, cryptography, HTTP, archives and
  compression, which are not in the repository: their answers are arguments. The processes, pipes and time limits around
  child processes, but for what they print and how they end. Rounding of \<open>float64\<close>: fractions of a pixel are
  rationals. IPv6 blocks in \<open>Cidr\<close>, and Unicode's tables of letters, which are arguments where they matter. The scripts and the C
  of the image, but for the parts named above.
\<close>

end
